(* ===== verification/Prelude.thy ===== *)
theory Prelude
  imports Main "HOL-Library.Word" "HOL-Library.Sublist" "HOL-Library.State_Monad"
begin

text \<open>
  Shared vocabulary of the development: the Go types the program uses (byte strings, \<open>int64\<close>,
  \<open>uint64\<close>, instants), the parts of the packages \<^verbatim>\<open>strings\<close>, \<^verbatim>\<open>strconv\<close> and \<^verbatim>\<open>fmt\<close> that the
  code calls, and the generic lemmas about sums, decimal numerals and words that the
  component theories rely on.

  A Go string is a sequence of bytes, and so is the HOL type \<^typ>\<open>string\<close>. Instants
  (\<^verbatim>\<open>time.Time\<close>) are integers counting nanoseconds since the Unix epoch.
\<close>

named_theorems go_simps \<open>evaluation rules of the Go standard library functions\<close>
named_theorems sql_defs \<open>definitions of the SQL statements\<close>
named_theorems repo_defs \<open>definitions of the repository methods\<close>
named_theorems wp_rules \<open>weakest-precondition equations of the effectful operations\<close>

type_synonym int64 = "64 word"
type_synonym uint64 = "64 word"
type_synonym time = int

text \<open>The identifiers of players, wallets, transactions and the like.\<close>

type_synonym ident = string

section \<open>Signed and unsigned 64-bit integers\<close>

definition MaxInt64 :: int where
  "MaxInt64 = 2 ^ 63 - 1"

definition MinInt64 :: int where
  "MinInt64 = - (2 ^ 63)"

text \<open>Go's signed operators on \<open>int64\<close> values compare the two's complement reading.\<close>

abbreviation sless :: "int64 \<Rightarrow> int64 \<Rightarrow> bool" where
  "sless a b \<equiv> sint a < sint b"

definition in_int64 :: "int \<Rightarrow> bool" where
  "in_int64 k \<longleftrightarrow> MinInt64 \<le> k \<and> k \<le> MaxInt64"

section \<open>The package strings\<close>

text \<open>
  The white space of Go's \<^verbatim>\<open>unicode.IsSpace\<close>, as UTF-8 byte sequences:
  the ASCII ones, U+0085, U+00A0, U+1680, U+2000 to U+200A, U+2028, U+2029, U+202F, U+205F
  and U+3000.
\<close>

definition space_runes :: "string list" where
  "space_runes =
     [[CHR 0x09], [CHR 0x0A], [CHR 0x0B], [CHR 0x0C], [CHR 0x0D], [CHR 0x20],
      [CHR 0xC2, CHR 0x85], [CHR 0xC2, CHR 0xA0], [CHR 0xE1, CHR 0x9A, CHR 0x80],
      [CHR 0xE2, CHR 0x80, CHR 0x80], [CHR 0xE2, CHR 0x80, CHR 0x81],
      [CHR 0xE2, CHR 0x80, CHR 0x82], [CHR 0xE2, CHR 0x80, CHR 0x83],
      [CHR 0xE2, CHR 0x80, CHR 0x84], [CHR 0xE2, CHR 0x80, CHR 0x85],
      [CHR 0xE2, CHR 0x80, CHR 0x86], [CHR 0xE2, CHR 0x80, CHR 0x87],
      [CHR 0xE2, CHR 0x80, CHR 0x88], [CHR 0xE2, CHR 0x80, CHR 0x89],
      [CHR 0xE2, CHR 0x80, CHR 0x8A], [CHR 0xE2, CHR 0x80, CHR 0xA8],
      [CHR 0xE2, CHR 0x80, CHR 0xA9], [CHR 0xE2, CHR 0x80, CHR 0xAF],
      [CHR 0xE2, CHR 0x81, CHR 0x9F], [CHR 0xE3, CHR 0x80, CHR 0x80]]"

text \<open>\<open>strip_left ps s\<close> removes prefixes listed in \<open>ps\<close> as long as there is one.\<close>

fun strip_fuel :: "nat \<Rightarrow> string list \<Rightarrow> string \<Rightarrow> string" where
  "strip_fuel 0 ps s = s"
| "strip_fuel (Suc k) ps s =
     (case find (\<lambda>p. p \<noteq> [] \<and> prefix p s) ps of
        None \<Rightarrow> s
      | Some p \<Rightarrow> strip_fuel k ps (drop (length p) s))"

text \<open>Every round removes at least one byte, so the length of the string is enough fuel.\<close>

definition strip_left :: "string list \<Rightarrow> string \<Rightarrow> string" where
  "strip_left ps s = strip_fuel (length s) ps s"

definition TrimSpace :: "string \<Rightarrow> string" where
  "TrimSpace s = rev (strip_left (map rev space_runes) (rev (strip_left space_runes s)))"

definition ContainsAny :: "string \<Rightarrow> string \<Rightarrow> bool" where
  "ContainsAny s cs \<longleftrightarrow> list_ex (\<lambda>c. c \<in> set cs) s"

definition HasPrefix :: "string \<Rightarrow> string \<Rightarrow> bool" where
  "HasPrefix s p \<longleftrightarrow> prefix p s"

definition HasSuffix :: "string \<Rightarrow> string \<Rightarrow> bool" where
  "HasSuffix s p \<longleftrightarrow> suffix p s"

fun Contains :: "string \<Rightarrow> string \<Rightarrow> bool" where
  "Contains [] p \<longleftrightarrow> p = []"
| "Contains (c # s) p \<longleftrightarrow> prefix p (c # s) \<or> Contains s p"

text \<open>\<^verbatim>\<open>strings.Split(s, sep)\<close> for a separator of one byte.\<close>

fun split_on :: "char \<Rightarrow> string \<Rightarrow> string list" where
  "split_on sep [] = [[]]"
| "split_on sep (c # s) =
     (if c = sep then [] # split_on sep s
      else (case split_on sep s of [] \<Rightarrow> [[c]] | x # xs \<Rightarrow> (c # x) # xs))"

section \<open>Decimal numerals: strconv.ParseUint and the verbs \<open>%d\<close>, \<open>%02d\<close>\<close>

definition is_digit :: "char \<Rightarrow> bool" where
  "is_digit c \<longleftrightarrow> (48::nat) \<le> of_char c \<and> of_char c \<le> (57::nat)"

definition digit_val :: "char \<Rightarrow> nat" where
  "digit_val c = of_char c - 48"

definition digit_char :: "nat \<Rightarrow> char" where
  "digit_char n = char_of (48 + n)"

definition dec_to_nat :: "string \<Rightarrow> nat" where
  "dec_to_nat s = foldl (\<lambda>n c. 10 * n + digit_val c) 0 s"

fun nat_to_dec :: "nat \<Rightarrow> string" where
  "nat_to_dec n = (if n < 10 then [digit_char n] else nat_to_dec (n div 10) @ [digit_char (n mod 10)])"

declare nat_to_dec.simps [simp del]

definition nat_to_dec2 :: "nat \<Rightarrow> string" where
  "nat_to_dec2 n = (if n < 10 then CHR ''0'' # nat_to_dec n else nat_to_dec n)"

text \<open>\<^verbatim>\<open>strconv.ParseUint(s, 10, 64)\<close> on a string of digits: \<open>None\<close> is the range error.\<close>

definition ParseUint64 :: "string \<Rightarrow> uint64 option" where
  "ParseUint64 s =
     (if s \<noteq> [] \<and> list_all is_digit s \<and> dec_to_nat s < 2 ^ 64
      then Some (of_nat (dec_to_nat s)) else None)"

section \<open>Lemmas\<close>

subsection \<open>64-bit integers\<close>

lemma in_int64_sint [simp]: "in_int64 (sint (a :: int64))"
  using sint_range_size [of a]
  by (simp add: in_int64_def MaxInt64_def MinInt64_def word_size)

lemma signed_take_bit_int64: "in_int64 k \<Longrightarrow> signed_take_bit 63 k = k"
  by (rule signed_take_bit_int_eq_self) (auto simp: in_int64_def MaxInt64_def MinInt64_def)

lemma sint_of_int_int64: "in_int64 k \<Longrightarrow> sint (of_int k :: int64) = k"
  by (simp add: signed_of_int signed_take_bit_int64)

lemma sint_add_int64:
  "in_int64 (sint a + sint b) \<Longrightarrow> sint (a + b :: int64) = sint a + sint b"
  by (simp add: sint_word_ariths signed_take_bit_int64)

lemma sint_minus_int64: "in_int64 (- sint a) \<Longrightarrow> sint (- a :: int64) = - sint a"
  by (simp add: sint_word_ariths signed_take_bit_int64)

lemma sint_sub_int64:
  "in_int64 (sint a - sint b) \<Longrightarrow> sint (a - b :: int64) = sint a - sint b"
  by (simp add: sint_word_ariths signed_take_bit_int64)

lemma int64_eq_iff: "(a :: int64) = b \<longleftrightarrow> sint a = sint b"
  by (auto dest: signed_word_eqI)

subsection \<open>Bytes\<close>

text \<open>Bytes are compared as binary integers when definitions are evaluated.\<close>

lemma of_char_int: "int (of_char c) = of_char c"
  by (simp add: of_nat_of_char)

lemma is_digit_code [code]: "is_digit c \<longleftrightarrow> (48::int) \<le> of_char c \<and> of_char c \<le> (57::int)"
  unfolding is_digit_def by (simp flip: of_char_int)

subsection \<open>Decimal numerals\<close>

lemma of_char_digit_char: "n < 10 \<Longrightarrow> (of_char (digit_char n) :: nat) = 48 + n"
  by (simp add: digit_char_def of_char_of)

lemma is_digit_digit_char [simp]: "n < 10 \<Longrightarrow> is_digit (digit_char n)"
  by (simp add: is_digit_def of_char_digit_char)

lemma digit_val_digit_char [simp]: "n < 10 \<Longrightarrow> digit_val (digit_char n) = n"
  by (simp add: digit_val_def of_char_digit_char)

lemma digit_val_less: "is_digit c \<Longrightarrow> digit_val c < 10"
  by (auto simp: is_digit_def digit_val_def)

lemma digits_nat_to_dec [simp]: "list_all is_digit (nat_to_dec n)"
proof (induction n rule: nat_to_dec.induct)
  case (1 n)
  then show ?case by (subst nat_to_dec.simps) auto
qed

lemma nat_to_dec_not_Nil [simp]: "nat_to_dec n \<noteq> []"
  by (subst nat_to_dec.simps) simp

lemma dec_to_nat_foldl:
  "foldl (\<lambda>n c. 10 * n + digit_val c) k s = k * 10 ^ length s + dec_to_nat s"
proof (induction s arbitrary: k)
  case Nil
  then show ?case by (simp add: dec_to_nat_def)
next
  case (Cons c s)
  have "dec_to_nat (c # s) = digit_val c * 10 ^ length s + dec_to_nat s"
    using Cons.IH [of "digit_val c"] by (simp add: dec_to_nat_def)
  then show ?case
    using Cons.IH [of "10 * k + digit_val c"] by (simp add: algebra_simps)
qed

lemma dec_to_nat_Nil [simp]: "dec_to_nat [] = 0"
  by (simp add: dec_to_nat_def)

lemma dec_to_nat_Cons: "dec_to_nat (c # s) = digit_val c * 10 ^ length s + dec_to_nat s"
  using dec_to_nat_foldl [of "digit_val c" s] by (simp add: dec_to_nat_def)

lemma dec_to_nat_append: "dec_to_nat (s @ t) = dec_to_nat s * 10 ^ length t + dec_to_nat t"
  using dec_to_nat_foldl [of "dec_to_nat s" t] by (simp add: dec_to_nat_def)

lemma dec_to_nat_less: "list_all is_digit s \<Longrightarrow> dec_to_nat s < 10 ^ length s"
proof (induction s)
  case Nil
  then show ?case by simp
next
  case (Cons c s)
  then have "digit_val c \<le> 9" and "dec_to_nat s < 10 ^ length s"
    using digit_val_less [of c] by auto
  then have "digit_val c * 10 ^ length s + dec_to_nat s < 9 * 10 ^ length s + 10 ^ length s"
    by (meson add_le_less_mono mult_le_mono1)
  then show ?case by (simp add: dec_to_nat_Cons)
qed

lemma dec_to_nat_nat_to_dec [simp]: "dec_to_nat (nat_to_dec n) = n"
proof (induction n rule: nat_to_dec.induct)
  case (1 n)
  then show ?case by (subst nat_to_dec.simps) (auto simp: dec_to_nat_append dec_to_nat_Cons)
qed

lemma nat_to_dec2_props:
  assumes "n < 100"
  shows "length (nat_to_dec2 n) = 2" and "list_all is_digit (nat_to_dec2 n)"
    and "dec_to_nat (nat_to_dec2 n) = n"
proof -
  have d: "n div 10 < 10" using assms by simp
  have n10: "nat_to_dec n = (if n < 10 then [digit_char n] else [digit_char (n div 10), digit_char (n mod 10)])"
    using d by (subst nat_to_dec.simps) (simp add: nat_to_dec.simps [of "n div 10"])
  have z: "is_digit CHR ''0''" by (simp add: is_digit_def)
  show "length (nat_to_dec2 n) = 2" by (simp add: nat_to_dec2_def n10)
  show "list_all is_digit (nat_to_dec2 n)" using assms z by (auto simp: nat_to_dec2_def n10)
  show "dec_to_nat (nat_to_dec2 n) = n"
    by (simp add: nat_to_dec2_def dec_to_nat_Cons digit_val_def)
qed

lemma ParseUint64_Some:
  "ParseUint64 s = Some w \<longleftrightarrow>
     s \<noteq> [] \<and> list_all is_digit s \<and> dec_to_nat s < 2 ^ 64 \<and> unat w = dec_to_nat s"
  by (auto simp: ParseUint64_def unat_of_nat word_unat_eq_iff split: if_splits)

text \<open>For evaluation: the bound is compared as a binary number.\<close>

lemma ParseUint64_code [code]:
  "ParseUint64 s =
     (if s \<noteq> [] \<and> list_all is_digit s \<and> int (dec_to_nat s) < 18446744073709551616
      then Some (of_int (int (dec_to_nat s))) else None)"
  by (simp add: ParseUint64_def)

subsection \<open>Splitting and trimming\<close>

lemma split_on_no_sep: "sep \<notin> set s \<Longrightarrow> split_on sep s = [s]"
  by (induction s) auto

lemma split_on_not_Nil [simp]: "split_on sep s \<noteq> []"
  by (induction s) (auto split: list.splits)

lemma split_on_append_sep: "sep \<notin> set s \<Longrightarrow> split_on sep (s @ sep # t) = s # split_on sep t"
  by (induction s) auto

lemma length_split_on: "length (split_on sep s) = Suc (count_list s sep)"
  by (induction s) (auto split: list.splits)

lemma split_on_single: "split_on sep s = [x] \<longleftrightarrow> s = x \<and> sep \<notin> set s"
  using length_split_on [of sep s] by (auto simp: split_on_no_sep count_list_0_iff)

lemma split_on_ConsD: "split_on sep s = x # y # ys \<Longrightarrow>
    sep \<notin> set x \<and> (\<exists>t. s = x @ sep # t \<and> split_on sep t = y # ys)"
proof (induction s arbitrary: x)
  case Nil
  then show ?case by simp
next
  case (Cons c s)
  show ?case
  proof (cases "c = sep")
    case True
    with Cons.prems show ?thesis by auto
  next
    case False
    with Cons.prems obtain x' where x': "split_on sep s = x' # y # ys" "x = c # x'"
      by (cases "split_on sep s") auto
    with Cons.IH [of x'] False show ?thesis by auto
  qed
qed

lemma split_on_pair:
  "split_on sep s = [x, y] \<longleftrightarrow> s = x @ sep # y \<and> sep \<notin> set x \<and> sep \<notin> set y"
  using split_on_ConsD [of sep s x y "[]"]
  by (auto simp: split_on_append_sep split_on_no_sep split_on_single)

lemma strip_left_id:
  assumes "\<And>p. p \<in> set ps \<Longrightarrow> p \<noteq> [] \<Longrightarrow> s \<noteq> [] \<Longrightarrow> hd p \<noteq> hd s"
  shows "strip_left ps s = s"
proof -
  have "find (\<lambda>p. p \<noteq> [] \<and> prefix p s) ps = None"
  proof (rule ccontr)
    assume "\<not> ?thesis"
    then obtain p where p: "p \<in> set ps" "p \<noteq> []" "prefix p s"
      by (auto simp: find_None_iff)
    then have "s \<noteq> []" and "hd p = hd s" by (auto simp: prefix_def)
    with p assms show False by blast
  qed
  then show ?thesis
    by (cases "length s") (auto simp: strip_left_def)
qed

text \<open>Bytes above the space and below \<open>DEL\<close> are never trimmed.\<close>

definition graphic :: "char \<Rightarrow> bool" where
  "graphic c \<longleftrightarrow> (32::nat) < of_char c \<and> of_char c < (127::nat)"

lemma graphic_code [code]: "graphic c \<longleftrightarrow> (32::int) < of_char c \<and> of_char c < (127::int)"
  unfolding graphic_def by (simp flip: of_char_int)

lemma space_runes_ends:
  "p \<in> set space_runes \<Longrightarrow> p \<noteq> [] \<and> \<not> graphic (hd p) \<and> \<not> graphic (last p)"
  by (auto simp: space_runes_def graphic_def)

lemma TrimSpace_graphic:
  assumes "list_all graphic s"
  shows "TrimSpace s = s"
proof -
  have g: "s \<noteq> [] \<Longrightarrow> graphic (hd s) \<and> graphic (last s)"
    using assms by (cases s) (auto simp: list_all_iff)
  have "strip_left space_runes s = s"
    using g space_runes_ends by (intro strip_left_id) metis
  moreover have "strip_left (map rev space_runes) (rev s) = rev s"
    using g space_runes_ends by (intro strip_left_id) (auto simp: hd_rev, metis)
  ultimately show ?thesis by (simp add: TrimSpace_def)
qed

text \<open>Trimming leaves nothing to trim.\<close>

lemma strip_fuel_done:
  assumes "length s \<le> k" and "p \<in> set ps" and "p \<noteq> []"
  shows "\<not> prefix p (strip_fuel k ps s)"
  using assms(1)
proof (induction k arbitrary: s)
  case 0
  then show ?case using assms(3) by simp
next
  case (Suc k)
  show ?case
  proof (cases "find (\<lambda>p. p \<noteq> [] \<and> prefix p s) ps")
    case None
    then have "\<not> prefix p s" using assms(2,3) by (auto simp: find_None_iff)
    then show ?thesis using None by simp
  next
    case (Some q)
    then have "q \<noteq> []" "prefix q s" by (auto simp: find_Some_iff)
    then have "length (drop (length q) s) \<le> k"
      using Suc.prems by (cases q) auto
    then show ?thesis using Some Suc.IH by simp
  qed
qed

lemma strip_left_suffix: "suffix (strip_left ps s) s"
proof -
  have "suffix (strip_fuel k ps s) s" for k
    by (induction k arbitrary: s) (auto split: option.split intro: suffix_order.trans suffix_drop)
  then show ?thesis by (simp add: strip_left_def)
qed

lemma strip_left_clean: "(\<And>p. p \<in> set ps \<Longrightarrow> p \<noteq> [] \<Longrightarrow> \<not> prefix p s) \<Longrightarrow> strip_left ps s = s"
  by (cases "length s") (auto simp: strip_left_def find_None_iff split: option.split dest: iffD1 [OF find_Some_iff])

lemma TrimSpace_idem [simp]: "TrimSpace (TrimSpace s) = TrimSpace s"
proof -
  define t where "t = strip_left space_runes s"
  define u where "u = strip_left (map rev space_runes) (rev t)"
  have u: "\<not> prefix p u" if "p \<in> set (map rev space_runes)" "p \<noteq> []" for p
    using strip_fuel_done [where s = "rev t", OF order_refl that] by (simp add: u_def strip_left_def)
  have pre: "prefix (rev u) t"
    using strip_left_suffix [of "map rev space_runes" "rev t"] by (simp add: u_def suffix_to_prefix)
  have t: "\<not> prefix p t" if "p \<in> set space_runes" "p \<noteq> []" for p
    using strip_fuel_done [OF order_refl that] by (simp add: t_def strip_left_def)
  have "strip_left space_runes (rev u) = rev u"
    by (rule strip_left_clean) (use t pre prefix_order.trans in blast)
  moreover have "strip_left (map rev space_runes) u = u" using u by (rule strip_left_clean)
  ultimately show ?thesis by (simp add: TrimSpace_def u_def t_def)
qed

lemma graphic_digit: "is_digit c \<Longrightarrow> graphic c"
  by (simp add: graphic_def is_digit_def)

end
