(* ===== verification/Money_Amount.thy ===== *)
theory Money_Amount
  imports Prelude
begin

text \<open>
  The value object of \<^verbatim>\<open>internal/money\<close> (\<^verbatim>\<open>currency.go\<close>, \<^verbatim>\<open>money.go\<close>, \<^verbatim>\<open>errors.go\<close>): an
  \<open>int64\<close> number of cents with a currency, its parser, printer and checked arithmetic.
  The lemmas show that the arithmetic is exact or reports an overflow, that the parser
  accepts exactly the decimal numerals with at most two decimals that fit an \<open>int64\<close>,
  and that printing and parsing (also through the JSON object) are inverse.
\<close>

section \<open>Currency and errors\<close>

type_synonym Currency = string

definition BRL :: Currency where
  "BRL = ''BRL''"

definition Currency_Valid :: "Currency \<Rightarrow> bool" where
  "Currency_Valid c \<longleftrightarrow> c = BRL"

datatype money_error =
    ErrInvalidMoney
  | ErrInvalidCurrency
  | ErrCurrencyMismatch
  | ErrNegativeExternal
  | ErrOverflow
  | ErrScaleExceeded
  | ErrScientificNotation
  | ErrUnsupportedCurrency

section \<open>The type Money\<close>

record Money =
  money_amount :: int64
  money_currency :: Currency

text \<open>Go's zero value \<^verbatim>\<open>Money{}\<close>.\<close>

definition no_money :: Money where
  "no_money = \<lparr>money_amount = 0, money_currency = ''''\<rparr>"

definition NewMoney :: "int64 \<Rightarrow> Currency \<Rightarrow> money_error + Money" where
  "NewMoney amount c =
     (if \<not> Currency_Valid c then Inl ErrUnsupportedCurrency
      else Inr \<lparr>money_amount = amount, money_currency = c\<rparr>)"

definition isDigits :: "string \<Rightarrow> bool" where
  "isDigits value \<longleftrightarrow> value \<noteq> '''' \<and> list_all is_digit value"

definition maxWhole :: uint64 where
  "maxWhole = of_int MaxInt64 div 100"

definition maxMinor :: uint64 where
  "maxMinor = of_int MaxInt64 mod 100"

text \<open>The part of \<^verbatim>\<open>ParseMoney\<close> that reads the digits after the decimal point.\<close>

definition parse_minor :: "string \<Rightarrow> money_error + uint64" where
  "parse_minor minorPart =
     (if minorPart = '''' then Inl ErrInvalidMoney
      else if 2 < length minorPart then Inl ErrScaleExceeded
      else if \<not> isDigits minorPart then Inl ErrInvalidMoney
      else
        let padded = (if length minorPart = 1 then minorPart @ ''0'' else minorPart)
        in case ParseUint64 padded of None \<Rightarrow> Inl ErrInvalidMoney | Some m \<Rightarrow> Inr m)"

text \<open>The part of \<^verbatim>\<open>ParseMoney\<close> after \<^verbatim>\<open>strings.Split(input, ".")\<close>.\<close>

definition parse_parts :: "string list \<Rightarrow> Currency \<Rightarrow> money_error + Money" where
  "parse_parts parts c =
     (if 2 < length parts then Inl ErrInvalidMoney
      else if \<not> isDigits (hd parts) then Inl ErrInvalidMoney
      else
        case ParseUint64 (hd parts) of
          None \<Rightarrow> Inl ErrOverflow
        | Some whole \<Rightarrow>
            (case (if length parts = 2 then parse_minor (parts ! 1) else Inr 0) of
               Inl err \<Rightarrow> Inl err
             | Inr minor \<Rightarrow>
                 if maxWhole < whole \<or> whole = maxWhole \<and> maxMinor < minor
                 then Inl ErrOverflow
                 else NewMoney (whole * 100 + minor) c))"

definition ParseMoney :: "string \<Rightarrow> Currency \<Rightarrow> money_error + Money" where
  "ParseMoney input c =
     (if \<not> Currency_Valid c then Inl ErrUnsupportedCurrency
      else if input = '''' then Inl ErrInvalidMoney
      else if TrimSpace input \<noteq> input then Inl ErrInvalidMoney
      else if input = ''NaN'' \<or> input = ''Inf'' \<or> input = ''Infinity'' \<or>
              input = ''INF'' \<or> input = ''INFINITY'' \<or> ContainsAny input ''eE+''
        then Inl ErrScientificNotation
      else if ContainsAny input '', '' \<or> ContainsAny input [CHR 0x09, CHR 0x0D, CHR 0x0A]
        then Inl ErrInvalidMoney
      else if HasPrefix input ''-'' then Inl ErrNegativeExternal
      else parse_parts (split_on CHR ''.'' input) c)"

text \<open>\<^verbatim>\<open>MustParse\<close> panics instead of returning an error: \<open>None\<close> is the panic.\<close>

definition MustParse :: "string \<Rightarrow> Currency \<Rightarrow> Money option" where
  "MustParse input c = (case ParseMoney input c of Inl err \<Rightarrow> None | Inr m \<Rightarrow> Some m)"

definition ZeroMoney :: "Currency \<Rightarrow> money_error + Money" where
  "ZeroMoney c = NewMoney 0 c"

definition checkCurrency :: "Money \<Rightarrow> Money \<Rightarrow> money_error option" where
  "checkCurrency m other =
     (if money_currency m \<noteq> money_currency other then Some ErrCurrencyMismatch else None)"

definition Money_Add :: "Money \<Rightarrow> Money \<Rightarrow> money_error + Money" where
  "Money_Add m other =
     (case checkCurrency m other of
        Some err \<Rightarrow> Inl err
      | None \<Rightarrow>
          if 0 < sint (money_amount other) \<and>
             sint (of_int MaxInt64 - money_amount other) < sint (money_amount m)
          then Inl ErrOverflow
          else if sint (money_amount other) < 0 \<and>
             sint (money_amount m) < sint (of_int MinInt64 - money_amount other)
          then Inl ErrOverflow
          else Inr \<lparr>money_amount = money_amount m + money_amount other,
                    money_currency = money_currency m\<rparr>)"

definition Money_Subtract :: "Money \<Rightarrow> Money \<Rightarrow> money_error + Money" where
  "Money_Subtract m other =
     (case checkCurrency m other of
        Some err \<Rightarrow> Inl err
      | None \<Rightarrow>
          if sint (money_amount other) = MinInt64 then Inl ErrOverflow
          else Money_Add m \<lparr>money_amount = - money_amount other,
                            money_currency = money_currency other\<rparr>)"

definition Money_Negate :: "Money \<Rightarrow> money_error + Money" where
  "Money_Negate m =
     (if sint (money_amount m) = MinInt64 then Inl ErrOverflow
      else Inr \<lparr>money_amount = - money_amount m, money_currency = money_currency m\<rparr>)"

definition Money_Compare :: "Money \<Rightarrow> Money \<Rightarrow> money_error + int" where
  "Money_Compare m other =
     (case checkCurrency m other of
        Some err \<Rightarrow> Inl err
      | None \<Rightarrow>
          if sint (money_amount m) < sint (money_amount other) then Inr (- 1)
          else if sint (money_amount other) < sint (money_amount m) then Inr 1
          else Inr 0)"

definition IsZero :: "Money \<Rightarrow> bool" where
  "IsZero m \<longleftrightarrow> money_amount m = 0"

definition IsNegative :: "Money \<Rightarrow> bool" where
  "IsNegative m \<longleftrightarrow> sint (money_amount m) < 0"

text \<open>\<open>uint64(-(m.amount + 1)) + 1\<close> and the two unsigned divisions of \<^verbatim>\<open>String\<close>.\<close>

definition Money_String :: "Money \<Rightarrow> string" where
  "Money_String m =
     (if sint (money_amount m) < 0
      then let magnitude = - (money_amount m + 1) + 1
           in ''-'' @ nat_to_dec (unat (magnitude div 100)) @ ''.'' @
              nat_to_dec2 (unat (magnitude mod 100))
      else nat_to_dec (unat (money_amount m div 100)) @ ''.'' @
           nat_to_dec2 (unat (money_amount m mod 100)))"

text \<open>The JSON object \<^verbatim>\<open>{"amount": ..., "currency": ...}\<close> as the Go struct it is encoded from.\<close>

record MoneyDTO =
  dto_Amount :: string
  dto_Currency :: string

definition Money_MarshalJSON :: "Money \<Rightarrow> money_error + MoneyDTO" where
  "Money_MarshalJSON m =
     (if \<not> Currency_Valid (money_currency m) then Inl ErrUnsupportedCurrency
      else if IsNegative m then Inl ErrNegativeExternal
      else Inr \<lparr>dto_Amount = Money_String m, dto_Currency = money_currency m\<rparr>)"

definition Money_UnmarshalJSON :: "MoneyDTO \<Rightarrow> money_error + Money" where
  "Money_UnmarshalJSON raw = ParseMoney (dto_Amount raw) (dto_Currency raw)"

section \<open>The amount as an integer\<close>

definition cents :: "Money \<Rightarrow> int" where
  "cents m = sint (money_amount m)"

lemma in_int64_cents [simp]: "in_int64 (cents m)"
  by (simp add: cents_def)

lemma money_eqI: "cents a = cents b \<Longrightarrow> money_currency a = money_currency b \<Longrightarrow> a = (b :: Money)"
  by (simp add: cents_def int64_eq_iff)

lemma IsZero_cents: "IsZero m \<longleftrightarrow> cents m = 0"
  by (simp add: IsZero_def cents_def int64_eq_iff)

lemma IsNegative_cents: "IsNegative m \<longleftrightarrow> cents m < 0"
  by (simp add: IsNegative_def cents_def)

lemma NewMoney_Inr: "NewMoney a c = Inr m \<longleftrightarrow> Currency_Valid c \<and> m = \<lparr>money_amount = a, money_currency = c\<rparr>"
  by (auto simp: NewMoney_def)

lemma sint_Max_minus:
  "0 < sint (b :: int64) \<Longrightarrow> sint (of_int MaxInt64 - b) = MaxInt64 - sint b"
proof -
  assume b: "0 < sint b"
  have "sint (of_int MaxInt64 :: int64) = MaxInt64"
    by (rule sint_of_int_int64) (simp add: in_int64_def MaxInt64_def MinInt64_def)
  with b in_int64_sint [of b] show ?thesis
    by (subst sint_sub_int64) (auto simp: in_int64_def MaxInt64_def MinInt64_def)
qed

lemma sint_Min_minus:
  "sint (b :: int64) < 0 \<Longrightarrow> sint (of_int MinInt64 - b) = MinInt64 - sint b"
proof -
  assume b: "sint b < 0"
  have "sint (of_int MinInt64 :: int64) = MinInt64"
    by (rule sint_of_int_int64) (simp add: in_int64_def MaxInt64_def MinInt64_def)
  with b in_int64_sint [of b] show ?thesis
    by (subst sint_sub_int64) (auto simp: in_int64_def MaxInt64_def MinInt64_def)
qed

text \<open>The overflow guards are exact: addition succeeds iff the integer sum fits.\<close>

lemma Money_Add_eq:
  "Money_Add m n =
     (if money_currency m \<noteq> money_currency n then Inl ErrCurrencyMismatch
      else if in_int64 (cents m + cents n)
      then Inr \<lparr>money_amount = money_amount m + money_amount n, money_currency = money_currency m\<rparr>
      else Inl ErrOverflow)"
  using in_int64_sint [of "money_amount m"] in_int64_sint [of "money_amount n"]
  by (auto simp: Money_Add_def checkCurrency_def cents_def in_int64_def sint_Max_minus sint_Min_minus)

lemma Money_Add_Inr:
  "Money_Add m n = Inr r \<longleftrightarrow>
     money_currency m = money_currency n \<and> money_currency r = money_currency m \<and>
     cents r = cents m + cents n"
proof -
  have "in_int64 (cents m + cents n) \<Longrightarrow>
      cents \<lparr>money_amount = money_amount m + money_amount n, money_currency = c\<rparr> = cents m + cents n" for c
    by (simp add: cents_def sint_add_int64)
  then show ?thesis
    by (auto simp: Money_Add_eq intro: money_eqI) (metis in_int64_cents)
qed

lemma cents_minus:
  "cents n \<noteq> MinInt64 \<Longrightarrow> cents \<lparr>money_amount = - money_amount n, money_currency = c\<rparr> = - cents n"
  using in_int64_sint [of "money_amount n"]
  by (simp add: cents_def sint_minus_int64 in_int64_def MaxInt64_def MinInt64_def)

lemma Money_Subtract_Inr:
  "Money_Subtract m n = Inr r \<longleftrightarrow>
     cents n \<noteq> MinInt64 \<and> money_currency m = money_currency n \<and>
     money_currency r = money_currency m \<and> cents r = cents m - cents n"
proof (cases "cents n = MinInt64")
  case True
  then show ?thesis by (simp add: Money_Subtract_def checkCurrency_def cents_def)
next
  case False
  then have "sint (money_amount n) \<noteq> MinInt64" by (simp add: cents_def)
  then show ?thesis
    using False
    by (auto simp: Money_Subtract_def checkCurrency_def Money_Add_Inr cents_minus [OF False])
qed

text \<open>The amount of \<open>k\<close> cents, for stating results of the arithmetic as equations.\<close>

definition money_of :: "int \<Rightarrow> Currency \<Rightarrow> Money" where
  "money_of k c = \<lparr>money_amount = of_int k, money_currency = c\<rparr>"

lemma money_of_simps [simp]:
  "money_currency (money_of k c) = c"
  "in_int64 k \<Longrightarrow> cents (money_of k c) = k"
  "money_of (cents m) (money_currency m) = m"
  by (simp_all add: money_of_def cents_def sint_of_int_int64)

lemma in_int64_between: "in_int64 a \<Longrightarrow> in_int64 b \<Longrightarrow> a \<le> k \<Longrightarrow> k \<le> b \<Longrightarrow> in_int64 k"
  by (simp add: in_int64_def)

lemma in_int64_0 [simp]: "in_int64 0"
  by (simp add: in_int64_def MaxInt64_def MinInt64_def)

lemma Money_Subtract_debit:
  assumes "money_currency m = money_currency n" and "0 \<le> cents n" and "cents n \<le> cents m"
  shows "Money_Subtract m n = Inr (money_of (cents m - cents n) (money_currency m))"
    and "in_int64 (cents m - cents n)"
proof -
  show i: "in_int64 (cents m - cents n)"
    using assms by (intro in_int64_between [OF in_int64_0 in_int64_cents [of m]]) auto
  show "Money_Subtract m n = Inr (money_of (cents m - cents n) (money_currency m))"
    using assms i by (simp add: Money_Subtract_Inr MinInt64_def)
qed

lemma Money_Add_credit:
  "money_currency m = money_currency n \<Longrightarrow>
   Money_Add m n = (if in_int64 (cents m + cents n)
     then Inr (money_of (cents m + cents n) (money_currency m)) else Inl ErrOverflow)"
  by (cases "in_int64 (cents m + cents n)") (simp_all add: Money_Add_Inr, simp add: Money_Add_eq)

lemma Money_Compare_eq:
  "Money_Compare m n =
     (if money_currency m \<noteq> money_currency n then Inl ErrCurrencyMismatch
      else Inr (sgn (cents m - cents n)))"
  by (simp add: Money_Compare_def checkCurrency_def cents_def)

section \<open>Parsing and printing\<close>

lemma maxWhole_eq: "maxWhole = 92233720368547758"
  by (simp add: maxWhole_def MaxInt64_def)

lemma maxMinor_eq: "maxMinor = 7"
  by (simp add: maxMinor_def MaxInt64_def)

lemma sint_small: "unat (a :: int64) < 2 ^ 63 \<Longrightarrow> sint a = int (unat a)"
proof -
  assume a: "unat a < 2 ^ 63"
  then have "int (unat a) < int (2 ^ 63)" by (simp only: of_nat_less_iff)
  then have "uint a < 2 ^ 63" by simp
  then have "signed_take_bit 63 (uint a) = uint a"
    by (intro signed_take_bit_int_eq_self) (auto intro: order_trans [of _ 0])
  then show ?thesis by (simp add: sint_uint)
qed

lemma unat_nonneg: "0 \<le> sint (a :: int64) \<Longrightarrow> unat a = nat (sint a) \<and> unat a < 2 ^ 63"
proof -
  assume a: "0 \<le> sint a"
  have b: "sint a < 2 ^ 63" using in_int64_sint [of a] by (simp add: in_int64_def MaxInt64_def)
  have "uint a = take_bit 64 (sint a)" by (simp add: uint_sint)
  also have "\<dots> = sint a" using a b by (simp add: take_bit_int_eq_self)
  finally show ?thesis using b by (simp add: unat_eq_nat_uint nat_less_iff)
qed

text \<open>
  What the parser accepts, as a specification independent of it: an unsigned decimal numeral,
  optionally followed by a point and one or two decimals; \<open>v\<close> is its value in cents.
\<close>

definition money_numeral :: "string \<Rightarrow> nat \<Rightarrow> bool" where
  "money_numeral s v \<longleftrightarrow>
     (isDigits s \<and> v = 100 * dec_to_nat s) \<or>
     (\<exists>w d. s = w @ ''.'' @ d \<and> isDigits w \<and> isDigits d \<and>
        (length d = 1 \<and> v = 100 * dec_to_nat w + 10 * dec_to_nat d \<or>
         length d = 2 \<and> v = 100 * dec_to_nat w + dec_to_nat d))"

lemma parse_minor_Inr:
  "parse_minor d = Inr m \<longleftrightarrow>
     isDigits d \<and> (length d = 1 \<and> unat m = 10 * dec_to_nat d \<or> length d = 2 \<and> unat m = dec_to_nat d)"
proof (cases "isDigits d \<and> length d \<le> 2")
  case False
  then show ?thesis by (auto simp: parse_minor_def isDigits_def)
next
  case True
  have small: "dec_to_nat d < 100"
    using True dec_to_nat_less [of d] power_increasing [of "length d" 2 "10 :: nat"]
    by (simp add: isDigits_def)
  have z: "is_digit CHR ''0''" "digit_val CHR ''0'' = 0"
    by (simp_all add: is_digit_def digit_val_def)
  have l: "length d = 1 \<or> length d = 2"
    using True by (cases d; cases "tl d") (auto simp: isDigits_def)
  have "parse_minor d = Inr (of_nat (if length d = 1 then 10 * dec_to_nat d else dec_to_nat d))"
    using True small z
    by (simp add: parse_minor_def Let_def ParseUint64_def isDigits_def dec_to_nat_append dec_to_nat_Cons)
  moreover have "of_nat k = m \<longleftrightarrow> unat m = k" if "k < 1000" for k
    using that by (auto simp: unat_of_nat word_unat_eq_iff)
  ultimately show ?thesis using True l small by auto
qed

lemma parse_value:
  assumes "unat whole = w" and "unat minor = f" and "f < 100"
  shows "\<not> (maxWhole < whole \<or> whole = maxWhole \<and> maxMinor < minor) \<longleftrightarrow> 100 * w + f < 2 ^ 63"
    and "100 * w + f < 2 ^ 63 \<Longrightarrow> unat (whole * 100 + minor) = 100 * w + f"
proof -
  have "whole = maxWhole \<longleftrightarrow> w = 92233720368547758"
    using assms(1) by (simp add: maxWhole_eq word_unat_eq_iff)
  then show "\<not> (maxWhole < whole \<or> whole = maxWhole \<and> maxMinor < minor) \<longleftrightarrow> 100 * w + f < 2 ^ 63"
    using assms by (auto simp: word_less_nat_alt maxWhole_eq maxMinor_eq)
next
  assume "100 * w + f < 2 ^ 63"
  then show "unat (whole * 100 + minor) = 100 * w + f"
    using assms by (simp add: unat_word_ariths)
qed

lemma parse_tail_Inr:
  assumes "unat whole = w" and "unat minor = f" and "f < 100"
  shows "(if maxWhole < whole \<or> whole = maxWhole \<and> maxMinor < minor then Inl ErrOverflow
          else NewMoney (whole * 100 + minor) BRL) = Inr m \<longleftrightarrow>
         money_currency m = BRL \<and> cents m = int (100 * w + f)"
proof (cases "100 * w + f < 2 ^ 63")
  case True
  then have "cents \<lparr>money_amount = whole * 100 + minor, money_currency = BRL\<rparr> = int (100 * w + f)"
    using parse_value(2) [OF assms True] by (simp add: cents_def sint_small)
  then show ?thesis
    using True parse_value(1) [OF assms]
    by (auto simp: NewMoney_def Currency_Valid_def intro: money_eqI)
next
  case False
  then have "cents m \<noteq> int (100 * w + f)"
    using in_int64_cents [of m] by (auto simp: in_int64_def MaxInt64_def)
  then show ?thesis using False parse_value(1) [OF assms] by auto
qed

lemma dec_minor_less: "isDigits d \<Longrightarrow> length d \<le> 2 \<Longrightarrow> dec_to_nat d < 10 ^ length d"
  by (simp add: isDigits_def dec_to_nat_less)

text \<open>A whole part beyond \<open>uint64\<close> is an overflow, as is one beyond \<open>maxWhole\<close>.\<close>

lemma ParseUint64_digits:
  "isDigits w \<Longrightarrow> ParseUint64 w = (if dec_to_nat w < 2 ^ 64 then Some (of_nat (dec_to_nat w)) else None)"
  by (simp add: ParseUint64_def isDigits_def)

lemma parse_parts_whole:
  "parse_parts [w] BRL = Inr m \<longleftrightarrow>
     isDigits w \<and> money_currency m = BRL \<and> cents m = int (100 * dec_to_nat w)"
proof (cases "isDigits w \<and> dec_to_nat w < 2 ^ 64")
  case True
  then have "unat (of_nat (dec_to_nat w) :: uint64) = dec_to_nat w"
    by (simp add: unat_of_nat)
  from parse_tail_Inr [OF this, of 0 0 m] True show ?thesis
    by (simp add: parse_parts_def ParseUint64_digits)
next
  case False
  then have "isDigits w \<Longrightarrow> cents m \<noteq> int (100 * dec_to_nat w)"
    using in_int64_cents [of m] by (auto simp: in_int64_def MaxInt64_def)
  with False show ?thesis by (auto simp: parse_parts_def ParseUint64_digits)
qed

lemma parse_parts_decimals:
  "parse_parts [w, d] BRL = Inr m \<longleftrightarrow>
     isDigits w \<and> isDigits d \<and> money_currency m = BRL \<and>
     (length d = 1 \<and> cents m = int (100 * dec_to_nat w + 10 * dec_to_nat d) \<or>
      length d = 2 \<and> cents m = int (100 * dec_to_nat w + dec_to_nat d))"
proof (cases "isDigits w \<and> dec_to_nat w < 2 ^ 64")
  case True
  then have u: "unat (of_nat (dec_to_nat w) :: uint64) = dec_to_nat w"
    by (simp add: unat_of_nat)
  show ?thesis
  proof (cases "parse_minor d")
    case (Inl err)
    then have "\<not> (isDigits d \<and> (length d = 1 \<or> length d = 2))"
      using parse_minor_Inr [of d "of_nat (if length d = 1 then 10 * dec_to_nat d else dec_to_nat d)"]
        dec_minor_less [of d] by (auto simp: unat_of_nat)
    with Inl True show ?thesis by (auto simp: parse_parts_def ParseUint64_digits)
  next
    case (Inr f)
    then have f: "isDigits d" "length d = 1 \<and> unat f = 10 * dec_to_nat d \<or> length d = 2 \<and> unat f = dec_to_nat d"
      by (simp_all add: parse_minor_Inr)
    define v where "v = (if length d = 1 then 10 * dec_to_nat d else dec_to_nat d)"
    have v: "unat f = v" "v < 100" using f dec_minor_less [of d] by (auto simp: v_def)
    from parse_tail_Inr [OF u v, of m] have
      "parse_parts [w, d] BRL = Inr m \<longleftrightarrow> money_currency m = BRL \<and> cents m = int (100 * dec_to_nat w + v)"
      using True Inr by (simp add: parse_parts_def ParseUint64_digits)
    with True f show ?thesis by (auto simp: v_def)
  qed
next
  case False
  then have "isDigits w \<Longrightarrow> cents m < int (100 * dec_to_nat w)"
    using in_int64_cents [of m] by (auto simp: in_int64_def MaxInt64_def)
  with False show ?thesis by (auto simp: parse_parts_def ParseUint64_digits)
qed

text \<open>On digits and points none of the guards before the split fires.\<close>

lemma ParseMoney_guards:
  assumes "list_all (\<lambda>c. is_digit c \<or> c = CHR ''.'') s" and "s \<noteq> []"
  shows "ParseMoney s BRL = parse_parts (split_on CHR ''.'' s) BRL"
proof -
  have ok: "c \<in> set s \<Longrightarrow> is_digit c \<or> c = CHR ''.''" for c
    using assms(1) by (auto simp: list_all_iff)
  have "TrimSpace s = s"
    using assms(1) by (intro TrimSpace_graphic) (auto simp: list_all_iff graphic_def is_digit_def)
  moreover have bad: "\<not> is_digit c \<and> c \<noteq> CHR ''.'' \<Longrightarrow> c \<notin> set s" for c
    using ok by blast
  have "\<not> ContainsAny s ''eE+''" "\<not> ContainsAny s '', ''"
    "\<not> ContainsAny s [CHR 0x09, CHR 0x0D, CHR 0x0A]"
    by (auto simp: ContainsAny_def list_ex_iff dest!: ok) (auto simp: is_digit_def)
  moreover have "\<not> HasPrefix s ''-''" "s \<noteq> ''NaN''" "s \<noteq> ''Inf''" "s \<noteq> ''Infinity''" "s \<noteq> ''INF''"
    "s \<noteq> ''INFINITY''"
    using bad [of "CHR ''-''"] bad [of "CHR ''N''"] bad [of "CHR ''I''"]
    by (auto simp: HasPrefix_def prefix_def is_digit_def)
  ultimately show ?thesis
    using assms(2) by (simp add: ParseMoney_def Currency_Valid_def)
qed

lemma digits_no_point: "list_all is_digit w \<Longrightarrow> CHR ''.'' \<notin> set w"
  by (auto simp: list_all_iff is_digit_def)

lemma money_numeral_chars:
  "money_numeral s v \<Longrightarrow> list_all (\<lambda>c. is_digit c \<or> c = CHR ''.'') s \<and> s \<noteq> []"
  by (auto simp: money_numeral_def isDigits_def list_all_iff)

lemma ParseMoney_numeral:
  assumes "money_numeral s v"
  shows "ParseMoney s BRL = Inr m \<longleftrightarrow> money_currency m = BRL \<and> cents m = int v"
proof -
  have g: "ParseMoney s BRL = parse_parts (split_on CHR ''.'' s) BRL"
    using money_numeral_chars [OF assms] by (simp add: ParseMoney_guards)
  from assms consider
      (whole) "isDigits s" "v = 100 * dec_to_nat s"
    | (dec) w d where "s = w @ ''.'' @ d" "isDigits w" "isDigits d"
        "length d = 1 \<and> v = 100 * dec_to_nat w + 10 * dec_to_nat d \<or>
         length d = 2 \<and> v = 100 * dec_to_nat w + dec_to_nat d"
    by (auto simp: money_numeral_def)
  then show ?thesis
  proof cases
    case whole
    then have "split_on CHR ''.'' s = [s]"
      by (simp add: split_on_no_sep digits_no_point isDigits_def)
    with whole show ?thesis by (simp add: g parse_parts_whole)
  next
    case dec
    then have "split_on CHR ''.'' s = [w, d]"
      by (simp add: split_on_pair digits_no_point isDigits_def)
    then have e: "ParseMoney s BRL = parse_parts [w, d] BRL" by (simp add: g)
    show ?thesis unfolding e parse_parts_decimals using dec(2-4) by auto
  qed
qed

lemma ParseMoney_InrD:
  assumes "ParseMoney s c = Inr m"
  shows "c = BRL \<and> (\<exists>v. money_numeral s v)"
proof -
  have c: "c = BRL" using assms by (auto simp: ParseMoney_def Currency_Valid_def split: if_splits)
  have p: "parse_parts (split_on CHR ''.'' s) BRL = Inr m"
    using assms c by (auto simp: ParseMoney_def split: if_splits)
  then have "length (split_on CHR ''.'' s) \<le> 2"
    by (auto simp: parse_parts_def split: if_splits)
  then consider (one) w where "split_on CHR ''.'' s = [w]"
    | (two) w d where "split_on CHR ''.'' s = [w, d]"
    by (cases "split_on CHR ''.'' s"; cases "tl (split_on CHR ''.'' s)") auto
  then show ?thesis
  proof cases
    case one
    with p c show ?thesis
      by (auto simp: parse_parts_whole split_on_single money_numeral_def)
  next
    case two
    then have sd: "s = w @ ''.'' @ d" by (simp add: split_on_pair)
    from two p have "isDigits w" "isDigits d" "length d = 1 \<or> length d = 2"
      by (auto simp: parse_parts_decimals)
    with sd c show ?thesis unfolding money_numeral_def by blast
  qed
qed

lemma unat_div_mod_100:
  "unat ((a :: uint64) div 100) = unat a div 100" "unat (a mod 100) = unat a mod 100"
  by (simp_all add: unat_div unat_mod)

lemma unat_magnitude:
  assumes "sint (a :: int64) < 0"
  shows "unat (- (a + 1) + 1) = nat (- sint a)"
proof -
  have u: "uint a = sint a + 2 ^ 64"
  proof -
    have "uint a = take_bit 64 (sint a)" by (simp add: uint_sint)
    also have "\<dots> = (sint a + 2 ^ 64) mod 2 ^ 64" by (simp add: take_bit_eq_mod)
    also have "\<dots> = sint a + 2 ^ 64"
      using assms in_int64_sint [of a] by (intro mod_pos_pos_trivial) (auto simp: in_int64_def MinInt64_def)
    finally show ?thesis .
  qed
  have "uint (- a) = (- uint a) mod 2 ^ 64" by (simp add: uint_word_ariths)
  also have "\<dots> = (- sint a) mod 2 ^ 64" by (simp add: u)
  also have "\<dots> = - sint a"
    using assms in_int64_sint [of a] by (intro mod_pos_pos_trivial) (auto simp: in_int64_def MinInt64_def)
  finally show ?thesis by (simp add: unat_eq_nat_uint)
qed

lemma Money_String_eq:
  "Money_String m =
     (if cents m < 0 then ''-'' else '''') @
     nat_to_dec (nat \<bar>cents m\<bar> div 100) @ ''.'' @ nat_to_dec2 (nat \<bar>cents m\<bar> mod 100)"
  using unat_magnitude [of "money_amount m"] unat_nonneg [of "money_amount m"]
  by (simp add: Money_String_def Let_def cents_def unat_div_mod_100)

lemma Money_String_numeral:
  assumes "0 \<le> cents m"
  shows "money_numeral (Money_String m) (nat (cents m))"
proof -
  let ?w = "nat_to_dec (nat (cents m) div 100)"
  let ?d = "nat_to_dec2 (nat (cents m) mod 100)"
  have d: "length ?d = 2" "list_all is_digit ?d" "dec_to_nat ?d = nat (cents m) mod 100"
    by (rule nat_to_dec2_props; simp)+
  have "isDigits ?w" "isDigits ?d" using d by (auto simp: isDigits_def)
  moreover have "nat (cents m) = 100 * dec_to_nat ?w + dec_to_nat ?d" using d(3) by simp
  moreover have "Money_String m = ?w @ ''.'' @ ?d" using assms by (simp add: Money_String_eq)
  ultimately show ?thesis using d(1) unfolding money_numeral_def by blast
qed

lemma ParseMoney_Inr: "ParseMoney s c = Inr m \<Longrightarrow> money_currency m = BRL \<and> 0 \<le> cents m"
  using ParseMoney_InrD ParseMoney_numeral by fastforce

lemma ParseMoney_String:
  "0 \<le> cents m \<Longrightarrow> money_currency m = BRL \<Longrightarrow> ParseMoney (Money_String m) BRL = Inr m"
  by (simp add: ParseMoney_numeral [OF Money_String_numeral])

section \<open>Properties\<close>

text \<open>
  C30: \<^verbatim>\<open>money.ParseMoney\<close> accepts exactly the decimal numerals with at most two decimals, in the
  supported currency, whose value in cents fits an \<open>int64\<close>, and returns that value: no sign,
  space, separator, exponent or third decimal is accepted, and nothing is rounded or wrapped.
\<close>

theorem ParseMoney_exact:
  "ParseMoney s c = Inr m \<longleftrightarrow>
     c = BRL \<and> money_currency m = BRL \<and> (\<exists>v. money_numeral s v \<and> cents m = int v)"
proof
  assume p: "ParseMoney s c = Inr m"
  then obtain v where "c = BRL" "money_numeral s v" using ParseMoney_InrD by blast
  with p show "c = BRL \<and> money_currency m = BRL \<and> (\<exists>v. money_numeral s v \<and> cents m = int v)"
    using ParseMoney_numeral by blast
next
  assume "c = BRL \<and> money_currency m = BRL \<and> (\<exists>v. money_numeral s v \<and> cents m = int v)"
  then show "ParseMoney s c = Inr m" using ParseMoney_numeral by blast
qed


text \<open>
  C32: the checked arithmetic never wraps around: \<^verbatim>\<open>Add\<close>, \<^verbatim>\<open>Subtract\<close> and \<^verbatim>\<open>Negate\<close> return the
  exact integer result, and \<^verbatim>\<open>Add\<close> reports \<^verbatim>\<open>ErrOverflow\<close> only when that result does not fit.
\<close>

theorem Money_arithmetic_exact:
  "(Money_Add m n = Inr r \<longleftrightarrow>
      money_currency m = money_currency n \<and> money_currency r = money_currency m \<and>
      cents r = cents m + cents n) \<and>
   (Money_Subtract m n = Inr r \<longleftrightarrow>
      cents n \<noteq> MinInt64 \<and> money_currency m = money_currency n \<and>
      money_currency r = money_currency m \<and> cents r = cents m - cents n) \<and>
   (Money_Negate m = Inr r \<longleftrightarrow>
      cents m \<noteq> MinInt64 \<and> money_currency r = money_currency m \<and> cents r = - cents m) \<and>
   (Money_Add m n = Inl ErrOverflow \<longleftrightarrow>
      money_currency m = money_currency n \<and> \<not> in_int64 (cents m + cents n))"
proof (intro conjI)
  show "Money_Negate m = Inr r \<longleftrightarrow>
      cents m \<noteq> MinInt64 \<and> money_currency r = money_currency m \<and> cents r = - cents m"
    using cents_minus [of m "money_currency m"]
    by (auto simp: Money_Negate_def cents_def intro: money_eqI [unfolded cents_def])
  show "Money_Add m n = Inl ErrOverflow \<longleftrightarrow>
      money_currency m = money_currency n \<and> \<not> in_int64 (cents m + cents n)"
    by (simp add: Money_Add_eq)
qed (fact Money_Add_Inr Money_Subtract_Inr)+

text \<open>
  \<^verbatim>\<open>String\<close> prints the sign, the units and two digits of cents of every representable amount,
  the most negative \<open>int64\<close> included, whose magnitude is computed without overflow.
\<close>

theorem Money_String_exact:
  "Money_String m =
     (if cents m < 0 then ''-'' else '''') @
     nat_to_dec (nat \<bar>cents m\<bar> div 100) @ ''.'' @ nat_to_dec2 (nat \<bar>cents m\<bar> mod 100)"
  by (rule Money_String_eq)

end
