(* ===== verification/Go_Errors.thy ===== *)
theory Go_Errors
  imports Money_Amount
begin

text \<open>
  Error values: the sentinels of \<^verbatim>\<open>internal/money/errors.go\<close>, \<^verbatim>\<open>internal/wallet/errors.go\<close> and
  \<^verbatim>\<open>internal/wagertransaction/errors.go\<close>, the wrapping done by \<^verbatim>\<open>fmt.Errorf\<close>, the search of
  \<^verbatim>\<open>errors.Is\<close> and the message of \<^verbatim>\<open>Error()\<close>, on which the code branches. The lemmas show
  which errors the SQS consumer treats as terminal.
\<close>

section \<open>Sentinel errors\<close>

datatype wallet_error =
    Wallet_ErrInvalidWalletID
  | Wallet_ErrInvalidPlayerID
  | Wallet_ErrInvalidProviderID
  | Wallet_ErrInvalidCurrency
  | Wallet_ErrCurrencyMismatch
  | Wallet_ErrNegativeBalance
  | Wallet_ErrInsufficientBalance
  | Wallet_ErrPositiveAmountRequired
  | Wallet_ErrInvalidWalletVersion
  | Wallet_ErrInvalidWalletTimestamp
  | Wallet_ErrInvalidLedgerEntry
  | Wallet_ErrLedgerMathInvalid
  | Wallet_ErrWalletNotFound
  | Wallet_ErrDuplicateWallet
  | Wallet_ErrConcurrentUpdate

datatype wager_error =
    Wager_ErrInvalidTransactionID
  | Wager_ErrInvalidProvider
  | Wager_ErrInvalidExternalID
  | Wager_ErrInvalidIdempotencyKey
  | Wager_ErrInvalidWalletID
  | Wager_ErrInvalidPlayerID
  | Wager_ErrInvalidTransactionType
  | Wager_ErrInvalidMoney
  | Wager_ErrOPENINGRejected
  | Wager_ErrPositiveAmountRequired
  | Wager_ErrZeroAmountRequired
  | Wager_ErrInvalidStateTransition
  | Wager_ErrTransactionNotFound
  | Wager_ErrPayloadConflict
  | Wager_ErrInsufficientBalance
  | Wager_ErrReferenceNotFound
  | Wager_ErrReferenceNotSuccessful
  | Wager_ErrDoubleReversal
  | Wager_ErrProviderMismatch
  | Wager_ErrPlayerMismatch
  | Wager_ErrWalletMismatch
  | Wager_ErrCurrencyMismatch
  | Wager_ErrRoundMismatch
  | Wager_ErrReversalValueMismatch
  | Wager_ErrIdempotentDuplicate
  | Wager_ErrExternalIDReuse

text \<open>
  \<open>ContextCanceled\<close> and \<open>ContextDeadlineExceeded\<close> are those of the package \<^verbatim>\<open>context\<close>,
  \<open>ErrTxClosed\<close> and \<open>ErrTxCommitRollback\<close> those of the database driver.
\<close>

datatype sentinel =
    MoneyErr money_error
  | WalletErr wallet_error
  | WagerErr wager_error
  | ContextCanceled
  | ContextDeadlineExceeded
  | ErrTxClosed
  | ErrTxCommitRollback

section \<open>Error chains\<close>

text \<open>
  \<open>Errorf s err\<close> is \<^verbatim>\<open>fmt.Errorf("s: %w", err)\<close>, \<open>Errorf2 a b\<close> is \<^verbatim>\<open>fmt.Errorf("%w: %w", a, b)\<close>
  and \<open>ErrorfV a b\<close> is \<^verbatim>\<open>fmt.Errorf("%w: %v", a, b)\<close>, which keeps only the text of \<open>b\<close>.
  \<open>PgError code message\<close> is an error the database server reports, \<open>Text\<close> any other one.
\<close>

datatype gerr =
    Sentinel sentinel
  | Errorf string gerr
  | Errorf2 gerr gerr
  | ErrorfV gerr gerr
  | PgError string string
  | Text string

fun errors_is :: "gerr \<Rightarrow> sentinel \<Rightarrow> bool" where
  "errors_is (Sentinel s) t \<longleftrightarrow> s = t"
| "errors_is (Errorf _ e) t \<longleftrightarrow> errors_is e t"
| "errors_is (Errorf2 a b) t \<longleftrightarrow> errors_is a t \<or> errors_is b t"
| "errors_is (ErrorfV a _) t \<longleftrightarrow> errors_is a t"
| "errors_is (PgError _ _) t \<longleftrightarrow> False"
| "errors_is (Text _) t \<longleftrightarrow> False"

fun money_error_text :: "money_error \<Rightarrow> string" where
  "money_error_text ErrInvalidMoney = ''invalid money''"
| "money_error_text ErrInvalidCurrency = ''invalid currency''"
| "money_error_text ErrCurrencyMismatch = ''currency mismatch''"
| "money_error_text ErrNegativeExternal = ''negative external amount''"
| "money_error_text ErrOverflow = ''money overflow''"
| "money_error_text ErrScaleExceeded = ''scale exceeds two decimal places''"
| "money_error_text ErrScientificNotation = ''scientific notation is not allowed''"
| "money_error_text ErrUnsupportedCurrency = ''unsupported currency''"

fun wallet_error_text :: "wallet_error \<Rightarrow> string" where
  "wallet_error_text Wallet_ErrInvalidWalletID = ''invalid_wallet_id''"
| "wallet_error_text Wallet_ErrInvalidPlayerID = ''invalid_player_id''"
| "wallet_error_text Wallet_ErrInvalidProviderID = ''invalid_provider_id''"
| "wallet_error_text Wallet_ErrInvalidCurrency = ''invalid_currency''"
| "wallet_error_text Wallet_ErrCurrencyMismatch = ''currency_mismatch''"
| "wallet_error_text Wallet_ErrNegativeBalance = ''negative_balance''"
| "wallet_error_text Wallet_ErrInsufficientBalance = ''insufficient_balance''"
| "wallet_error_text Wallet_ErrPositiveAmountRequired = ''positive_amount_required''"
| "wallet_error_text Wallet_ErrInvalidWalletVersion = ''invalid_wallet_version''"
| "wallet_error_text Wallet_ErrInvalidWalletTimestamp = ''invalid_wallet_timestamp''"
| "wallet_error_text Wallet_ErrInvalidLedgerEntry = ''invalid_ledger_entry''"
| "wallet_error_text Wallet_ErrLedgerMathInvalid = ''ledger_math_invalid''"
| "wallet_error_text Wallet_ErrWalletNotFound = ''wallet_not_found''"
| "wallet_error_text Wallet_ErrDuplicateWallet = ''duplicate_wallet''"
| "wallet_error_text Wallet_ErrConcurrentUpdate = ''concurrent_update''"

fun wager_error_text :: "wager_error \<Rightarrow> string" where
  "wager_error_text Wager_ErrInvalidTransactionID = ''invalid_transaction_id''"
| "wager_error_text Wager_ErrInvalidProvider = ''invalid_provider''"
| "wager_error_text Wager_ErrInvalidExternalID = ''invalid_external_id''"
| "wager_error_text Wager_ErrInvalidIdempotencyKey = ''invalid_idempotency_key''"
| "wager_error_text Wager_ErrInvalidWalletID = ''invalid_wallet_id''"
| "wager_error_text Wager_ErrInvalidPlayerID = ''invalid_player_id''"
| "wager_error_text Wager_ErrInvalidTransactionType = ''invalid_transaction_type''"
| "wager_error_text Wager_ErrInvalidMoney = ''invalid_money''"
| "wager_error_text Wager_ErrOPENINGRejected = ''opening_rejected_external''"
| "wager_error_text Wager_ErrPositiveAmountRequired = ''positive_amount_required''"
| "wager_error_text Wager_ErrZeroAmountRequired = ''zero_amount_required''"
| "wager_error_text Wager_ErrInvalidStateTransition = ''invalid_state_transition''"
| "wager_error_text Wager_ErrTransactionNotFound = ''transaction_not_found''"
| "wager_error_text Wager_ErrPayloadConflict = ''payload_conflict''"
| "wager_error_text Wager_ErrInsufficientBalance = ''insufficient_balance''"
| "wager_error_text Wager_ErrReferenceNotFound = ''reference_not_found''"
| "wager_error_text Wager_ErrReferenceNotSuccessful = ''reference_not_successful''"
| "wager_error_text Wager_ErrDoubleReversal = ''double_reversal''"
| "wager_error_text Wager_ErrProviderMismatch = ''provider_mismatch''"
| "wager_error_text Wager_ErrPlayerMismatch = ''player_mismatch''"
| "wager_error_text Wager_ErrWalletMismatch = ''wallet_mismatch''"
| "wager_error_text Wager_ErrCurrencyMismatch = ''currency_mismatch''"
| "wager_error_text Wager_ErrRoundMismatch = ''round_mismatch''"
| "wager_error_text Wager_ErrReversalValueMismatch = ''reversal_value_mismatch''"
| "wager_error_text Wager_ErrIdempotentDuplicate = ''idempotent_duplicate''"
| "wager_error_text Wager_ErrExternalIDReuse = ''external_id_reuse''"

fun sentinel_text :: "sentinel \<Rightarrow> string" where
  "sentinel_text (MoneyErr e) = money_error_text e"
| "sentinel_text (WalletErr e) = wallet_error_text e"
| "sentinel_text (WagerErr e) = wager_error_text e"
| "sentinel_text ContextCanceled = ''context canceled''"
| "sentinel_text ContextDeadlineExceeded = ''context deadline exceeded''"
| "sentinel_text ErrTxClosed = ''tx is closed''"
| "sentinel_text ErrTxCommitRollback = ''commit unexpectedly resulted in rollback''"

fun Error :: "gerr \<Rightarrow> string" where
  "Error (Sentinel s) = sentinel_text s"
| "Error (Errorf p e) = p @ '': '' @ Error e"
| "Error (Errorf2 a b) = Error a @ '': '' @ Error b"
| "Error (ErrorfV a b) = Error a @ '': '' @ Error b"
| "Error (PgError code msg) = ''ERROR: '' @ msg @ '' (SQLSTATE '' @ code @ '')''"
| "Error (Text s) = s"

abbreviation wallet_err :: "wallet_error \<Rightarrow> gerr" where
  "wallet_err e \<equiv> Sentinel (WalletErr e)"

abbreviation wager_err :: "wager_error \<Rightarrow> gerr" where
  "wager_err e \<equiv> Sentinel (WagerErr e)"

abbreviation money_err :: "money_error \<Rightarrow> gerr" where
  "money_err e \<equiv> Sentinel (MoneyErr e)"

text \<open>A result of the package \<^verbatim>\<open>money\<close> seen by a caller that returns general errors.\<close>

definition lift_money :: "money_error + 'a \<Rightarrow> gerr + 'a" where
  "lift_money r = map_sum money_err (\<lambda>x. x) r"

section \<open>Classification\<close>

definition IsTerminalBusinessError :: "gerr \<Rightarrow> bool" where
  "IsTerminalBusinessError err \<longleftrightarrow>
     errors_is err (WagerErr Wager_ErrInvalidTransactionType) \<or>
     errors_is err (WagerErr Wager_ErrInvalidMoney) \<or>
     errors_is err (WagerErr Wager_ErrOPENINGRejected) \<or>
     errors_is err (WagerErr Wager_ErrPositiveAmountRequired) \<or>
     errors_is err (WagerErr Wager_ErrZeroAmountRequired) \<or>
     errors_is err (WagerErr Wager_ErrPayloadConflict) \<or>
     errors_is err (WagerErr Wager_ErrInsufficientBalance) \<or>
     errors_is err (WagerErr Wager_ErrReferenceNotFound) \<or>
     errors_is err (WagerErr Wager_ErrReferenceNotSuccessful) \<or>
     errors_is err (WagerErr Wager_ErrDoubleReversal) \<or>
     errors_is err (WagerErr Wager_ErrProviderMismatch) \<or>
     errors_is err (WagerErr Wager_ErrPlayerMismatch) \<or>
     errors_is err (WagerErr Wager_ErrWalletMismatch) \<or>
     errors_is err (WagerErr Wager_ErrCurrencyMismatch) \<or>
     errors_is err (WagerErr Wager_ErrRoundMismatch) \<or>
     errors_is err (WagerErr Wager_ErrReversalValueMismatch) \<or>
     errors_is err (WagerErr Wager_ErrInvalidStateTransition) \<or>
     errors_is err (WagerErr Wager_ErrIdempotentDuplicate) \<or>
     errors_is err (WagerErr Wager_ErrExternalIDReuse)"

text \<open>\<^verbatim>\<open>isUniqueViolation\<close> of both services searches the error's message.\<close>

definition isUniqueViolation :: "gerr \<Rightarrow> bool" where
  "isUniqueViolation err \<longleftrightarrow>
     Contains (Error err) ''duplicate key'' \<or> Contains (Error err) ''unique constraint''"

text \<open>\<^verbatim>\<open>db.IsUniqueViolation\<close> looks for a server error with code 23505 in the chain.\<close>

fun IsUniqueViolation_code :: "gerr \<Rightarrow> bool" where
  "IsUniqueViolation_code (Sentinel _) \<longleftrightarrow> False"
| "IsUniqueViolation_code (Errorf _ e) \<longleftrightarrow> IsUniqueViolation_code e"
| "IsUniqueViolation_code (Errorf2 a b) \<longleftrightarrow> IsUniqueViolation_code a \<or> IsUniqueViolation_code b"
| "IsUniqueViolation_code (ErrorfV a _) \<longleftrightarrow> IsUniqueViolation_code a"
| "IsUniqueViolation_code (PgError code _) \<longleftrightarrow> code = ''23505''"
| "IsUniqueViolation_code (Text _) \<longleftrightarrow> False"

section \<open>Lemmas\<close>

lemma Contains_append: "Contains t p \<Longrightarrow> Contains (s @ t) p"
  by (induction s) auto

lemma Contains_append2: "Contains s p \<Longrightarrow> Contains (s @ t) p"
proof (induction s)
  case Nil
  then show ?case by (cases t) auto
next
  case (Cons c s)
  then show ?case using prefix_prefix [of p "c # s" t] by auto
qed

lemma lift_money_simps [simp]:
  "lift_money (Inl e) = Inl (money_err e)" "lift_money (Inr x) = Inr x"
  by (simp_all add: lift_money_def)

lemma lift_money_Inr [simp]: "lift_money r = Inr x \<longleftrightarrow> r = Inr x"
  by (cases r) simp_all

text \<open>Wrapping an error with a prefix changes neither classification.\<close>

lemma IsTerminal_Errorf [simp]: "IsTerminalBusinessError (Errorf p e) = IsTerminalBusinessError e"
  by (simp add: IsTerminalBusinessError_def)

lemma isUniqueViolation_Errorf: "isUniqueViolation e \<Longrightarrow> isUniqueViolation (Errorf p e)"
  by (auto simp: isUniqueViolation_def intro: Contains_append)

lemma terminal_insufficient:
  "IsTerminalBusinessError (Errorf2 (wager_err Wager_ErrInsufficientBalance) e)"
  by (simp add: IsTerminalBusinessError_def)

end
