(* ===== verification/Domain_Events.thy ===== *)
theory Domain_Events
  imports Go_Errors "HOL-Library.Char_ord" "HOL-Library.List_Lexorder"
begin

text \<open>
  The package \<^verbatim>\<open>internal/domain\<close>: the direction of a movement (\<^verbatim>\<open>types.go\<close>), the domain events
  written to the outbox (\<^verbatim>\<open>events.go\<close>) and the idempotency hash of a request
  (\<^verbatim>\<open>idempotency.go\<close>). The payload of an event is kept as the Go value that is encoded; the
  lemmas say when the encoding succeeds. \<open>Json_Text\<close> shows that the hashed text determines the
  request.
\<close>

section \<open>Directions and events\<close>

text \<open>\<open>domain.Direction\<close> and \<open>wallet.Direction\<close>, string types with two constants.\<close>

datatype Direction = DEBIT | CREDIT | OtherDirection string

fun Direction_string :: "Direction \<Rightarrow> string" where
  "Direction_string DEBIT = ''DEBIT''"
| "Direction_string CREDIT = ''CREDIT''"
| "Direction_string (OtherDirection s) = s"

record WagerTransactionProcessedData =
  pd_TransactionID :: string
  pd_ExternalID :: string
  pd_ProviderID :: string
  pd_PlayerID :: string
  pd_WalletID :: string
  pd_RoundID :: string
  pd_GameID :: string
  pd_Kind :: string
  pd_Money :: Money
  pd_ReferenceExtID :: string
  pd_Status :: string
  pd_FailureCode :: string

record WagerTransactionRejectedData =
  rd_TransactionID :: string
  rd_ExternalID :: string
  rd_ProviderID :: string
  rd_PlayerID :: string
  rd_WalletID :: string
  rd_Kind :: string
  rd_Money :: Money
  rd_FailureCode :: string

record WalletBalanceChangedData =
  bd_WalletID :: string
  bd_TransactionID :: string
  bd_Direction :: string
  bd_Money :: Money
  bd_BalanceBefore :: Money
  bd_BalanceAfter :: Money
  bd_WalletVersion :: int64

record WagerTransactionPendingReferenceData =
  qd_TransactionID :: string
  qd_ExternalID :: string
  qd_ProviderID :: string
  qd_ReferenceExtID :: string
  qd_PlayerID :: string
  qd_WalletID :: string
  qd_Kind :: string

datatype event_data =
    ProcessedData WagerTransactionProcessedData
  | RejectedData WagerTransactionRejectedData
  | BalanceChangedData WalletBalanceChangedData
  | PendingReferenceData WagerTransactionPendingReferenceData

record Event =
  ev_EventID :: string
  ev_EventType :: string
  ev_AggregateType :: string
  ev_AggregateID :: string
  ev_CorrelationID :: string
  ev_CausationID :: string
  ev_OccurredAt :: time
  ev_Version :: int
  ev_Data :: event_data

text \<open>
  \<^verbatim>\<open>json.Marshal\<close> of an event fails only through \<^verbatim>\<open>Money.MarshalJSON\<close>. Where it succeeds the
  payload stands for its value; \<open>None\<close> is the nil slice of a failed encoding.
\<close>

type_synonym payload = "Event option"

fun event_money :: "event_data \<Rightarrow> Money list" where
  "event_money (ProcessedData d) = [pd_Money d]"
| "event_money (RejectedData d) = [rd_Money d]"
| "event_money (BalanceChangedData d) = [bd_Money d, bd_BalanceBefore d, bd_BalanceAfter d]"
| "event_money (PendingReferenceData d) = []"

definition json_Marshal :: "Event \<Rightarrow> gerr + Event" where
  "json_Marshal ev =
     (case find (\<lambda>m. isl (Money_MarshalJSON m)) (event_money (ev_Data ev)) of
        None \<Rightarrow> Inr ev
      | Some m \<Rightarrow> Inl (Errorf ''json: error calling MarshalJSON'' (money_err (projl (Money_MarshalJSON m)))))"

text \<open>\<^verbatim>\<open>payload, _ := json.Marshal(ev)\<close>\<close>

definition marshal_payload :: "Event \<Rightarrow> payload" where
  "marshal_payload ev = (case json_Marshal ev of Inl _ \<Rightarrow> None | Inr p \<Rightarrow> Some p)"

section \<open>The idempotency hash\<close>

text \<open>
  The encoder of \<^verbatim>\<open>encoding/json\<close> for strings. \<open>utf8_len s\<close> is the number of bytes of the UTF-8
  encoding at the front of \<open>s\<close>, which starts with a byte above \<open>0x7F\<close>; 0 if there is none.
\<close>

definition byte :: "char \<Rightarrow> nat" where
  "byte c = of_char c"

definition cont :: "nat \<Rightarrow> bool" where
  "cont b \<longleftrightarrow> 0x80 \<le> b \<and> b \<le> 0xBF"

fun utf8_len :: "string \<Rightarrow> nat" where
  "utf8_len (a # b # c # d # s) =
     (if 0xC2 \<le> byte a \<and> byte a \<le> 0xDF \<and> cont (byte b) then 2
      else if 0xE0 \<le> byte a \<and> byte a \<le> 0xEF \<and> cont (byte b) \<and> cont (byte c) \<and>
        (byte a = 0xE0 \<longrightarrow> 0xA0 \<le> byte b) \<and> (byte a = 0xED \<longrightarrow> byte b \<le> 0x9F) then 3
      else if 0xF0 \<le> byte a \<and> byte a \<le> 0xF4 \<and> cont (byte b) \<and> cont (byte c) \<and> cont (byte d) \<and>
        (byte a = 0xF0 \<longrightarrow> 0x90 \<le> byte b) \<and> (byte a = 0xF4 \<longrightarrow> byte b \<le> 0x8F) then 4
      else 0)"
| "utf8_len [a, b, c] =
     (if 0xC2 \<le> byte a \<and> byte a \<le> 0xDF \<and> cont (byte b) then 2
      else if 0xE0 \<le> byte a \<and> byte a \<le> 0xEF \<and> cont (byte b) \<and> cont (byte c) \<and>
        (byte a = 0xE0 \<longrightarrow> 0xA0 \<le> byte b) \<and> (byte a = 0xED \<longrightarrow> byte b \<le> 0x9F) then 3
      else 0)"
| "utf8_len [a, b] = (if 0xC2 \<le> byte a \<and> byte a \<le> 0xDF \<and> cont (byte b) then 2 else 0)"
| "utf8_len _ = 0"

definition hex_digit :: "nat \<Rightarrow> char" where
  "hex_digit n = (if n < 10 then char_of (48 + n) else char_of (87 + n))"

definition json_ascii :: "char \<Rightarrow> string" where
  "json_ascii c =
     (if c = CHR 0x22 \<or> c = CHR 0x5C then [CHR 0x5C, c]
      else if byte c = 8 then [CHR 0x5C, CHR ''b'']
      else if byte c = 12 then [CHR 0x5C, CHR ''f'']
      else if byte c = 10 then [CHR 0x5C, CHR ''n'']
      else if byte c = 13 then [CHR 0x5C, CHR ''r'']
      else if byte c = 9 then [CHR 0x5C, CHR ''t'']
      else if byte c < 32 \<or> c = CHR ''<'' \<or> c = CHR ''>'' \<or> c = CHR ''&''
      then [CHR 0x5C, CHR ''u'', CHR ''0'', CHR ''0'', hex_digit (byte c div 16), hex_digit (byte c mod 16)]
      else [c])"

fun json_chars :: "nat \<Rightarrow> string \<Rightarrow> string" where
  "json_chars k [] = []"
| "json_chars (Suc k) (c # s) = c # json_chars k s"
| "json_chars 0 (c # s) =
     (if byte c < 128 then json_ascii c @ json_chars 0 s
      else let n = utf8_len (c # s) in
        if n = 0 then CHR 0x5C # ''ufffd'' @ json_chars 0 s
        else if take 3 (c # s) = [CHR 0xE2, CHR 0x80, CHR 0xA8] then CHR 0x5C # ''u2028'' @ json_chars 0 (drop 2 s)
        else if take 3 (c # s) = [CHR 0xE2, CHR 0x80, CHR 0xA9] then CHR 0x5C # ''u2029'' @ json_chars 0 (drop 2 s)
        else c # json_chars (n - 1) s)"

text \<open>The same with bytes compared as binary integers, for evaluation.\<close>

lemma json_ascii_code [code]: "json_ascii c =
     (let b = (of_char c :: int) in
      if c = CHR 0x22 \<or> c = CHR 0x5C then [CHR 0x5C, c]
      else if b = 8 then [CHR 0x5C, CHR ''b'']
      else if b = 12 then [CHR 0x5C, CHR ''f'']
      else if b = 10 then [CHR 0x5C, CHR ''n'']
      else if b = 13 then [CHR 0x5C, CHR ''r'']
      else if b = 9 then [CHR 0x5C, CHR ''t'']
      else if b < 32 \<or> c = CHR ''<'' \<or> c = CHR ''>'' \<or> c = CHR ''&''
      then [CHR 0x5C, CHR ''u'', CHR ''0'', CHR ''0'', hex_digit (byte c div 16), hex_digit (byte c mod 16)]
      else [c])"
  unfolding json_ascii_def Let_def byte_def by (simp flip: of_char_int)

lemma json_chars_code [code]:
  "json_chars k [] = []"
  "json_chars (Suc k) (c # s) = c # json_chars k s"
  "json_chars 0 (c # s) =
     (if (of_char c :: int) < 128 then json_ascii c @ json_chars 0 s
      else let n = utf8_len (c # s) in
        if n = 0 then CHR 0x5C # ''ufffd'' @ json_chars 0 s
        else if take 3 (c # s) = [CHR 0xE2, CHR 0x80, CHR 0xA8] then CHR 0x5C # ''u2028'' @ json_chars 0 (drop 2 s)
        else if take 3 (c # s) = [CHR 0xE2, CHR 0x80, CHR 0xA9] then CHR 0x5C # ''u2029'' @ json_chars 0 (drop 2 s)
        else c # json_chars (n - 1) s)"
  unfolding byte_def json_chars.simps by (simp_all flip: of_char_int)

definition json_string :: "string \<Rightarrow> string" where
  "json_string s = CHR 0x22 # json_chars 0 s @ [CHR 0x22]"

fun json_members :: "(string \<times> string) list \<Rightarrow> string" where
  "json_members [] = []"
| "json_members [(k, v)] = json_string k @ '':'' @ json_string v"
| "json_members ((k, v) # kv # kvs) =
     json_string k @ '':'' @ json_string v @ '','' @ json_members (kv # kvs)"

text \<open>\<^verbatim>\<open>json.Marshal\<close> of a \<^verbatim>\<open>map[string]string\<close> lists the members by key.\<close>

definition json_map :: "(string \<times> string) list \<Rightarrow> string" where
  "json_map kvs = ''{'' @ json_members (sort_key fst kvs) @ ''}''"

definition payload_fields ::
  "string \<Rightarrow> string \<Rightarrow> ident \<Rightarrow> ident \<Rightarrow> ident \<Rightarrow> ident \<Rightarrow> string \<Rightarrow> string \<Rightarrow> string \<Rightarrow> string \<Rightarrow>
     (string \<times> string) list" where
  "payload_fields providerID externalTransactionID playerID walletID roundID gameID kind amount currency referenceExtID =
     [(''providerId'', providerID), (''externalId'', externalTransactionID), (''playerId'', playerID),
      (''walletId'', walletID), (''roundId'', roundID), (''gameId'', gameID), (''kind'', kind),
      (''amount'', amount), (''currency'', currency)] @
     (if referenceExtID \<noteq> '''' then [(''referenceExternalTransactionId'', referenceExtID)] else [])"

text \<open>\<open>sha256\<close> maps a message to the lower-case hexadecimal text of its SHA-256 digest.\<close>

definition ComputePayloadHash ::
  "(string \<Rightarrow> string) \<Rightarrow> ident \<Rightarrow> string \<Rightarrow> ident \<Rightarrow> ident \<Rightarrow> ident \<Rightarrow> ident \<Rightarrow> string \<Rightarrow> string \<Rightarrow> string \<Rightarrow>
     string \<Rightarrow> string" where
  "ComputePayloadHash sha256 providerID externalTransactionID playerID walletID roundID gameID kind amount currency referenceExtID =
     sha256 (json_map (payload_fields providerID externalTransactionID playerID walletID roundID gameID
       kind amount currency referenceExtID))"

section \<open>Lemmas\<close>

lemma json_Marshal_ok:
  assumes "\<And>m. m \<in> set (event_money (ev_Data ev)) \<Longrightarrow> money_currency m = BRL \<and> 0 \<le> cents m"
  shows "json_Marshal ev = Inr ev" and "marshal_payload ev = Some ev"
proof -
  have "find (\<lambda>m. isl (Money_MarshalJSON m)) (event_money (ev_Data ev)) = None"
    using assms by (fastforce simp: find_None_iff Money_MarshalJSON_def Currency_Valid_def IsNegative_cents)
  then show "json_Marshal ev = Inr ev" by (simp add: json_Marshal_def)
  then show "marshal_payload ev = Some ev" by (simp add: marshal_payload_def)
qed

lemma marshal_payload_Some: "marshal_payload ev = Some p \<Longrightarrow> p = ev"
  by (auto simp: marshal_payload_def json_Marshal_def split: sum.splits option.splits)

end
