(* ===== verification/Wallet_Aggregate.thy ===== *)
theory Wallet_Aggregate
  imports Domain_Events
begin

text \<open>
  The wallet aggregate: \<^verbatim>\<open>internal/wallet/wallet.go\<close> (the \<^verbatim>\<open>Wallet\<close> with its constructors,
  \<^verbatim>\<open>CanDebit\<close>, \<^verbatim>\<open>Debit\<close> and \<^verbatim>\<open>Credit\<close>) and \<^verbatim>\<open>internal/wallet/ledger_entry.go\<close>. Every method of
  \<^verbatim>\<open>Wallet\<close> runs under its mutex, so a method is one step on the wallet's value; the reading of
  \<^verbatim>\<open>time.Now()\<close> is an argument. The lemmas show the invariant of a wallet, that a debit never
  makes a balance negative, and that any sequence of movements changes the balance by the sum
  of those it accepted.
\<close>

section \<open>Wallets\<close>

definition zero_time :: time where
  "zero_time = - 62135596800 * 10 ^ 9"

definition initialWalletVersion :: int64 where
  "initialWalletVersion = 1"

record Wallet =
  wal_id :: string
  wal_playerID :: string
  wal_providerID :: string
  wal_currency :: Currency
  wal_balance :: Money
  wal_version :: int64
  wal_createdAt :: time
  wal_updatedAt :: time

definition NewWallet :: "time \<Rightarrow> string \<Rightarrow> string \<Rightarrow> string \<Rightarrow> Money \<Rightarrow> gerr + Wallet" where
  "NewWallet now id0 playerID0 providerID0 initialBalance =
     (let wid = TrimSpace id0; playerID = TrimSpace playerID0; providerID = TrimSpace providerID0
      in if wid = '''' then Inl (wallet_err Wallet_ErrInvalidWalletID)
         else if playerID = '''' then Inl (wallet_err Wallet_ErrInvalidPlayerID)
         else if providerID = '''' then Inl (wallet_err Wallet_ErrInvalidProviderID)
         else if money_currency initialBalance \<noteq> BRL then Inl (wallet_err Wallet_ErrInvalidCurrency)
         else if IsNegative initialBalance then Inl (wallet_err Wallet_ErrNegativeBalance)
         else Inr \<lparr>wal_id = wid, wal_playerID = playerID, wal_providerID = providerID,
                   wal_currency = BRL, wal_balance = initialBalance,
                   wal_version = initialWalletVersion, wal_createdAt = now, wal_updatedAt = now\<rparr>)"

definition RehydrateWallet ::
  "string \<Rightarrow> string \<Rightarrow> string \<Rightarrow> Currency \<Rightarrow> Money \<Rightarrow> int64 \<Rightarrow> time \<Rightarrow> time \<Rightarrow> gerr + Wallet" where
  "RehydrateWallet id0 playerID0 providerID0 currency balance version createdAt updatedAt =
     (let wid = TrimSpace id0; playerID = TrimSpace playerID0; providerID = TrimSpace providerID0
      in if wid = '''' then Inl (wallet_err Wallet_ErrInvalidWalletID)
         else if playerID = '''' then Inl (wallet_err Wallet_ErrInvalidPlayerID)
         else if providerID = '''' then Inl (wallet_err Wallet_ErrInvalidProviderID)
         else if currency \<noteq> BRL then Inl (wallet_err Wallet_ErrInvalidCurrency)
         else if money_currency balance \<noteq> currency then Inl (wallet_err Wallet_ErrCurrencyMismatch)
         else if IsNegative balance then Inl (wallet_err Wallet_ErrNegativeBalance)
         else if sint version \<le> 0 then Inl (wallet_err Wallet_ErrInvalidWalletVersion)
         else if createdAt = zero_time \<or> updatedAt = zero_time
           then Inl (wallet_err Wallet_ErrInvalidWalletTimestamp)
         else if updatedAt < createdAt then Inl (wallet_err Wallet_ErrInvalidWalletTimestamp)
         else Inr \<lparr>wal_id = wid, wal_playerID = playerID, wal_providerID = providerID,
                   wal_currency = currency, wal_balance = balance, wal_version = version,
                   wal_createdAt = createdAt, wal_updatedAt = updatedAt\<rparr>)"

definition canDebitLocked :: "Wallet \<Rightarrow> Money \<Rightarrow> bool" where
  "canDebitLocked w amount =
     (if money_currency amount \<noteq> wal_currency w then False
      else if IsNegative amount \<or> IsZero amount then False
      else case Money_Compare (wal_balance w) amount of
             Inl _ \<Rightarrow> False
           | Inr cmp \<Rightarrow> 0 \<le> cmp)"

definition CanDebit :: "Wallet \<Rightarrow> Money \<Rightarrow> bool" where
  "CanDebit w amount = canDebitLocked w amount"

record BalanceChange =
  bc_BalanceBefore :: Money
  bc_BalanceAfter :: Money
  bc_NewVersion :: int64

definition Wallet_Debit :: "time \<Rightarrow> Wallet \<Rightarrow> Money \<Rightarrow> gerr + (BalanceChange \<times> Wallet)" where
  "Wallet_Debit now w amount =
     (if money_currency amount \<noteq> wal_currency w then Inl (wallet_err Wallet_ErrCurrencyMismatch)
      else if IsNegative amount \<or> IsZero amount then Inl (wallet_err Wallet_ErrPositiveAmountRequired)
      else if \<not> canDebitLocked w amount then Inl (wallet_err Wallet_ErrInsufficientBalance)
      else case Money_Subtract (wal_balance w) amount of
             Inl err \<Rightarrow> Inl (Errorf ''subtract balance'' (money_err err))
           | Inr newBalance \<Rightarrow>
               let w' = w\<lparr>wal_balance := newBalance, wal_version := wal_version w + 1,
                          wal_updatedAt := now\<rparr>
               in Inr (\<lparr>bc_BalanceBefore = wal_balance w, bc_BalanceAfter = newBalance,
                        bc_NewVersion = wal_version w'\<rparr>, w'))"

definition Wallet_Credit :: "time \<Rightarrow> Wallet \<Rightarrow> Money \<Rightarrow> gerr + (BalanceChange \<times> Wallet)" where
  "Wallet_Credit now w amount =
     (if money_currency amount \<noteq> wal_currency w then Inl (wallet_err Wallet_ErrCurrencyMismatch)
      else if IsNegative amount \<or> IsZero amount then Inl (wallet_err Wallet_ErrPositiveAmountRequired)
      else case Money_Add (wal_balance w) amount of
             Inl err \<Rightarrow> Inl (Errorf ''add balance'' (money_err err))
           | Inr newBalance \<Rightarrow>
               let w' = w\<lparr>wal_balance := newBalance, wal_version := wal_version w + 1,
                          wal_updatedAt := now\<rparr>
               in Inr (\<lparr>bc_BalanceBefore = wal_balance w, bc_BalanceAfter = newBalance,
                        bc_NewVersion = wal_version w'\<rparr>, w'))"

section \<open>Ledger entries\<close>

record LedgerEntry =
  le_id :: string
  le_walletID :: string
  le_transactionID :: string
  le_direction :: Direction
  le_amount :: Money
  le_currency :: Currency
  le_balanceBefore :: Money
  le_balanceAfter :: Money
  le_createdAt :: time

text \<open>The \<^verbatim>\<open>switch direction\<close> of both constructors; other directions are refused before it.\<close>

fun expectedAfter :: "Direction \<Rightarrow> Money \<Rightarrow> Money \<Rightarrow> money_error + Money" where
  "expectedAfter CREDIT balanceBefore amount = Money_Add balanceBefore amount"
| "expectedAfter DEBIT balanceBefore amount = Money_Subtract balanceBefore amount"
| "expectedAfter (OtherDirection _) balanceBefore amount = Inr no_money"

definition NewLedgerEntry ::
  "time \<Rightarrow> string \<Rightarrow> string \<Rightarrow> string \<Rightarrow> Direction \<Rightarrow> Money \<Rightarrow> Money \<Rightarrow> Money \<Rightarrow> gerr + LedgerEntry" where
  "NewLedgerEntry now eid walletID transactionID direction amount balanceBefore balanceAfter =
     (if walletID = '''' \<or> transactionID = '''' then Inl (wallet_err Wallet_ErrInvalidLedgerEntry)
      else if direction \<noteq> DEBIT \<and> direction \<noteq> CREDIT then Inl (wallet_err Wallet_ErrInvalidLedgerEntry)
      else if IsNegative amount \<or> IsZero amount then Inl (wallet_err Wallet_ErrPositiveAmountRequired)
      else if IsNegative balanceBefore \<or> IsNegative balanceAfter then Inl (wallet_err Wallet_ErrNegativeBalance)
      else if money_currency amount \<noteq> money_currency balanceBefore \<or>
              money_currency amount \<noteq> money_currency balanceAfter
        then Inl (wallet_err Wallet_ErrCurrencyMismatch)
      else case expectedAfter direction balanceBefore amount of
             Inl err \<Rightarrow> Inl (money_err err)
           | Inr expected \<Rightarrow>
               (case Money_Compare expected balanceAfter of
                  Inl err \<Rightarrow> Inl (money_err err)
                | Inr cmp \<Rightarrow>
                    if cmp \<noteq> 0 then Inl (wallet_err Wallet_ErrLedgerMathInvalid)
                    else Inr \<lparr>le_id = eid, le_walletID = walletID, le_transactionID = transactionID,
                              le_direction = direction, le_amount = amount,
                              le_currency = money_currency amount, le_balanceBefore = balanceBefore,
                              le_balanceAfter = balanceAfter, le_createdAt = now\<rparr>))"

definition RehydrateLedgerEntry ::
  "string \<Rightarrow> string \<Rightarrow> string \<Rightarrow> Direction \<Rightarrow> Money \<Rightarrow> Money \<Rightarrow> Money \<Rightarrow> time \<Rightarrow> gerr + LedgerEntry" where
  "RehydrateLedgerEntry eid walletID transactionID direction amount balanceBefore balanceAfter createdAt =
     (if eid = '''' \<or> walletID = '''' \<or> transactionID = '''' then Inl (wallet_err Wallet_ErrInvalidLedgerEntry)
      else if direction \<noteq> DEBIT \<and> direction \<noteq> CREDIT then Inl (wallet_err Wallet_ErrInvalidLedgerEntry)
      else if IsNegative amount \<or> IsZero amount then Inl (wallet_err Wallet_ErrPositiveAmountRequired)
      else if IsNegative balanceBefore \<or> IsNegative balanceAfter then Inl (wallet_err Wallet_ErrNegativeBalance)
      else if money_currency amount \<noteq> money_currency balanceBefore \<or>
              money_currency amount \<noteq> money_currency balanceAfter
        then Inl (wallet_err Wallet_ErrCurrencyMismatch)
      else if createdAt = zero_time then Inl (wallet_err Wallet_ErrInvalidWalletTimestamp)
      else case expectedAfter direction balanceBefore amount of
             Inl err \<Rightarrow> Inl (money_err err)
           | Inr expected \<Rightarrow>
               (case Money_Compare expected balanceAfter of
                  Inl err \<Rightarrow> Inl (money_err err)
                | Inr cmp \<Rightarrow>
                    if cmp \<noteq> 0 then Inl (wallet_err Wallet_ErrLedgerMathInvalid)
                    else Inr \<lparr>le_id = eid, le_walletID = walletID, le_transactionID = transactionID,
                              le_direction = direction, le_amount = amount,
                              le_currency = money_currency amount, le_balanceBefore = balanceBefore,
                              le_balanceAfter = balanceAfter, le_createdAt = createdAt\<rparr>))"

section \<open>The contract of an account\<close>

text \<open>
  A movement is a direction and an argument of the operation; an operation that reports an
  error leaves the account as it was. \<open>accepted\<close> lists the movements that succeeded.
\<close>

fun run_moves ::
  "('x \<Rightarrow> 's \<Rightarrow> 'e + 's) \<Rightarrow> ('x \<Rightarrow> 's \<Rightarrow> 'e + 's) \<Rightarrow> (Direction \<times> 'x) list \<Rightarrow> 's \<Rightarrow> 's \<times> (Direction \<times> 'x) list" where
  "run_moves debit credit [] s = (s, [])"
| "run_moves debit credit ((d, x) # ms) s =
     (case (case d of DEBIT \<Rightarrow> Some (debit x s) | CREDIT \<Rightarrow> Some (credit x s) | OtherDirection _ \<Rightarrow> None) of
        Some (Inr s') \<Rightarrow> (let (t, acc) = run_moves debit credit ms s' in (t, (d, x) # acc))
      | _ \<Rightarrow> run_moves debit credit ms s)"

definition signed :: "Direction \<Rightarrow> int \<Rightarrow> int" where
  "signed d a = (case d of CREDIT \<Rightarrow> a | DEBIT \<Rightarrow> - a | OtherDirection _ \<Rightarrow> 0)"

definition moves_total :: "('x \<Rightarrow> int) \<Rightarrow> (Direction \<times> 'x) list \<Rightarrow> int" where
  "moves_total amt ms = sum_list (map (\<lambda>(d, x). signed d (amt x)) ms)"

locale account =
  fixes bal :: "'s \<Rightarrow> int"
    and invar :: "'s \<Rightarrow> bool"
    and amt :: "'x \<Rightarrow> int"
    and debit :: "'x \<Rightarrow> 's \<Rightarrow> 'e + 's"
    and credit :: "'x \<Rightarrow> 's \<Rightarrow> 'e + 's"
  assumes invar_nonneg: "invar s \<Longrightarrow> 0 \<le> bal s"
    and debit_law: "invar s \<Longrightarrow> debit x s = Inr s' \<Longrightarrow>
      0 < amt x \<and> amt x \<le> bal s \<and> bal s' = bal s - amt x \<and> invar s'"
    and credit_law: "invar s \<Longrightarrow> credit x s = Inr s' \<Longrightarrow>
      0 < amt x \<and> bal s' = bal s + amt x \<and> invar s'"
begin

lemma run_moves_balance:
  assumes "invar s" and "run_moves debit credit ms s = (t, acc)"
  shows "invar t \<and> bal t = bal s + moves_total amt acc \<and> 0 \<le> bal t"
  using assms
proof (induction ms arbitrary: s t acc)
  case Nil
  then show ?case by (simp add: moves_total_def invar_nonneg)
next
  case (Cons m ms)
  obtain d x where m: "m = (d, x)" by fastforce
  show ?case
  proof (cases "\<exists>s'. (d = DEBIT \<and> debit x s = Inr s') \<or> (d = CREDIT \<and> credit x s = Inr s')")
    case True
    then obtain s' where s': "(d = DEBIT \<and> debit x s = Inr s') \<or> (d = CREDIT \<and> credit x s = Inr s')"
      by blast
    then have law: "invar s'" "bal s' = bal s + signed d (amt x)"
      using debit_law [OF Cons.prems(1)] credit_law [OF Cons.prems(1)] by (auto simp: signed_def)
    from s' Cons.prems(2) m obtain acc' where
      r: "run_moves debit credit ms s' = (t, acc')" and "acc = (d, x) # acc'"
      by (auto split: prod.splits)
    with Cons.IH [OF law(1) r] law(2) show ?thesis by (simp add: moves_total_def)
  next
    case False
    then have "run_moves debit credit ms s = (t, acc)"
      using Cons.prems(2) m by (auto split: Direction.splits sum.splits)
    then show ?thesis by (rule Cons.IH [OF Cons.prems(1)])
  qed
qed

lemma run_moves_accepts_positive:
  assumes "invar s" and "run_moves debit credit ms s = (t, acc)" and "(d, x) \<in> set acc"
  shows "0 < amt x"
  using assms
proof (induction ms arbitrary: s t acc)
  case Nil
  then show ?case by simp
next
  case (Cons m ms)
  show ?case
    using Cons.prems Cons.IH debit_law [OF Cons.prems(1)] credit_law [OF Cons.prems(1)]
    by (cases m) (fastforce split: Direction.splits sum.splits prod.splits)
qed

end

section \<open>The wallet implements the contract\<close>

definition wallet_ok :: "Wallet \<Rightarrow> bool" where
  "wallet_ok w \<longleftrightarrow> wal_currency w = BRL \<and> money_currency (wal_balance w) = BRL \<and> 0 \<le> cents (wal_balance w)"

definition debit_step :: "time \<times> Money \<Rightarrow> Wallet \<Rightarrow> gerr + Wallet" where
  "debit_step = (\<lambda>(now, m) w. map_sum (\<lambda>e. e) snd (Wallet_Debit now w m))"

definition credit_step :: "time \<times> Money \<Rightarrow> Wallet \<Rightarrow> gerr + Wallet" where
  "credit_step = (\<lambda>(now, m) w. map_sum (\<lambda>e. e) snd (Wallet_Credit now w m))"

lemma wallet_ok_new:
  "NewWallet now i p pr b = Inr w \<Longrightarrow> wallet_ok w"
  "RehydrateWallet i p pr c b v ca ua = Inr w \<Longrightarrow> wallet_ok w"
  by (auto simp: NewWallet_def RehydrateWallet_def Let_def wallet_ok_def IsNegative_cents split: if_splits)

lemma canDebitLocked_iff:
  "canDebitLocked w a \<longleftrightarrow>
     money_currency a = wal_currency w \<and> 0 < cents a \<and>
     money_currency (wal_balance w) = wal_currency w \<and> cents a \<le> cents (wal_balance w)"
  by (auto simp: canDebitLocked_def IsNegative_cents IsZero_cents Money_Compare_def checkCurrency_def
      cents_def split: if_splits)

definition moved :: "time \<Rightarrow> Wallet \<Rightarrow> int \<Rightarrow> BalanceChange \<times> Wallet" where
  "moved now w k =
     (\<lparr>bc_BalanceBefore = wal_balance w, bc_BalanceAfter = money_of k BRL, bc_NewVersion = wal_version w + 1\<rparr>,
      w\<lparr>wal_balance := money_of k BRL, wal_version := wal_version w + 1, wal_updatedAt := now\<rparr>)"

lemma Wallet_Debit_eq:
  "wallet_ok w \<Longrightarrow> Wallet_Debit now w a =
     (if money_currency a \<noteq> BRL then Inl (wallet_err Wallet_ErrCurrencyMismatch)
      else if cents a \<le> 0 then Inl (wallet_err Wallet_ErrPositiveAmountRequired)
      else if cents (wal_balance w) < cents a then Inl (wallet_err Wallet_ErrInsufficientBalance)
      else Inr (moved now w (cents (wal_balance w) - cents a)))"
  using Money_Subtract_debit(1) [of "wal_balance w" a]
  by (auto simp: Wallet_Debit_def wallet_ok_def IsNegative_cents IsZero_cents canDebitLocked_iff
      moved_def Let_def)

lemma Wallet_Credit_eq:
  "wallet_ok w \<Longrightarrow> Wallet_Credit now w a =
     (if money_currency a \<noteq> BRL then Inl (wallet_err Wallet_ErrCurrencyMismatch)
      else if cents a \<le> 0 then Inl (wallet_err Wallet_ErrPositiveAmountRequired)
      else if \<not> in_int64 (cents (wal_balance w) + cents a)
        then Inl (Errorf ''add balance'' (money_err ErrOverflow))
      else Inr (moved now w (cents (wal_balance w) + cents a)))"
  using Money_Add_credit [of "wal_balance w" a]
  by (auto simp: Wallet_Credit_def wallet_ok_def IsNegative_cents IsZero_cents moved_def Let_def)

lemma in_int64_diff: "0 \<le> cents a \<Longrightarrow> cents a \<le> cents b \<Longrightarrow> in_int64 (cents b - cents a)"
  by (rule in_int64_between [OF in_int64_0 in_int64_cents [of b]]) auto

interpretation wacc: account "\<lambda>w. cents (wal_balance w)" wallet_ok "\<lambda>x. cents (snd x)" debit_step credit_step
proof (unfold_locales, goal_cases)
  case (1 w)
  then show ?case by (simp add: wallet_ok_def)
next
  case (2 w x w')
  then show ?case
    by (cases x) (auto simp: debit_step_def Wallet_Debit_eq moved_def wallet_ok_def in_int64_diff
        split: if_splits)
next
  case (3 w x w')
  then show ?case
    by (cases x) (auto simp: credit_step_def Wallet_Credit_eq moved_def wallet_ok_def split: if_splits)
qed

lemma NewLedgerEntry_Inr:
  "NewLedgerEntry now i wid tid d a b0 b1 = Inr e \<longleftrightarrow>
     wid \<noteq> '''' \<and> tid \<noteq> '''' \<and> (d = DEBIT \<or> d = CREDIT) \<and> 0 < cents a \<and> 0 \<le> cents b0 \<and> 0 \<le> cents b1 \<and>
     money_currency b0 = money_currency a \<and> money_currency b1 = money_currency a \<and>
     cents b1 = cents b0 + signed d (cents a) \<and>
     e = \<lparr>le_id = i, le_walletID = wid, le_transactionID = tid, le_direction = d, le_amount = a,
          le_currency = money_currency a, le_balanceBefore = b0, le_balanceAfter = b1, le_createdAt = now\<rparr>"
proof (cases d)
  case CREDIT
  then show ?thesis
    using Money_Add_credit [of b0 a] in_int64_cents [of b1]
    by (auto simp: NewLedgerEntry_def IsNegative_cents IsZero_cents Money_Compare_eq signed_def
        sgn_0_0 in_int64_def split: if_splits)
next
  case DEBIT
  show ?thesis
  proof (cases "Money_Subtract b0 a")
    case (Inl err)
    have "\<not> (cents a \<noteq> MinInt64 \<and> money_currency b0 = money_currency a \<and>
        money_currency b1 = money_currency b0 \<and> cents b1 = cents b0 - cents a)"
      unfolding Money_Subtract_Inr [symmetric] using Inl by simp
    then show ?thesis
      using DEBIT Inl by (auto simp: NewLedgerEntry_def signed_def MinInt64_def split: if_splits)
  next
    case (Inr r)
    then have "money_currency b0 = money_currency a \<and> money_currency r = money_currency b0 \<and>
        cents r = cents b0 - cents a"
      using Money_Subtract_Inr [of b0 a r] by simp
    then show ?thesis
      using DEBIT Inr
      by (auto simp: NewLedgerEntry_def IsNegative_cents IsZero_cents Money_Compare_eq signed_def sgn_0_0
          split: if_splits)
  qed
next
  case (OtherDirection x)
  then show ?thesis by (auto simp: NewLedgerEntry_def)
qed

lemma RehydrateLedgerEntry_eq:
  "RehydrateLedgerEntry i wid tid d a b0 b1 ca =
     (if i = '''' then Inl (wallet_err Wallet_ErrInvalidLedgerEntry)
      else case NewLedgerEntry ca i wid tid d a b0 b1 of
             Inl err \<Rightarrow> (if ca = zero_time \<and> err \<in> {money_err x |x. True} \<union> {wallet_err Wallet_ErrLedgerMathInvalid}
                         then Inl (wallet_err Wallet_ErrInvalidWalletTimestamp) else Inl err)
           | Inr e \<Rightarrow> if ca = zero_time then Inl (wallet_err Wallet_ErrInvalidWalletTimestamp) else Inr e)"
  by (auto simp: RehydrateLedgerEntry_def NewLedgerEntry_def split: sum.splits)

lemma RehydrateLedgerEntry_Inr:
  "RehydrateLedgerEntry i wid tid d a b0 b1 ca = Inr e \<longleftrightarrow>
     i \<noteq> '''' \<and> ca \<noteq> zero_time \<and> NewLedgerEntry ca i wid tid d a b0 b1 = Inr e"
  by (auto simp: RehydrateLedgerEntry_eq split: sum.splits if_splits)

section \<open>Properties\<close>

text \<open>
  C33: whatever sequence of debits and credits is attempted on a valid wallet, its balance ends at
  the initial balance plus the signed sum of the movements it accepted, and never is negative.
\<close>

theorem wallet_moves_balance:
  assumes "wallet_ok w" and "run_moves debit_step credit_step ms w = (w', acc)"
  shows "wallet_ok w' \<and>
    cents (wal_balance w') = cents (wal_balance w) + moves_total (\<lambda>x. cents (snd x)) acc \<and>
    0 \<le> cents (wal_balance w')"
  using assms by (rule wacc.run_moves_balance)

definition sample_wallet :: Wallet where
  "sample_wallet = \<lparr>wal_id = ''w1'', wal_playerID = ''p1'', wal_providerID = ''prov'',
     wal_currency = BRL, wal_balance = \<lparr>money_amount = 10000, money_currency = BRL\<rparr>,
     wal_version = 1, wal_createdAt = 5, wal_updatedAt = 5\<rparr>"

definition sample_moves :: "(Direction \<times> time \<times> Money) list" where
  "sample_moves =
     [(DEBIT, 6, \<lparr>money_amount = 8000, money_currency = BRL\<rparr>),
      (DEBIT, 7, \<lparr>money_amount = 8000, money_currency = BRL\<rparr>),
      (CREDIT, 8, \<lparr>money_amount = 50, money_currency = BRL\<rparr>)]"

theorem wallet_moves_balance_witness:
  "wallet_ok sample_wallet \<and>
   snd (run_moves debit_step credit_step sample_moves sample_wallet) = [sample_moves ! 0, sample_moves ! 2] \<and>
   cents (wal_balance (fst (run_moves debit_step credit_step sample_moves sample_wallet))) =
     cents (wal_balance sample_wallet) + moves_total (\<lambda>x. cents (snd x)) [sample_moves ! 0, sample_moves ! 2]"
proof -
  have ok: "wallet_ok sample_wallet"
    by (simp add: wallet_ok_def sample_wallet_def cents_def)
  have acc: "snd (run_moves debit_step credit_step sample_moves sample_wallet) = [sample_moves ! 0, sample_moves ! 2]"
    by code_simp
  have "run_moves debit_step credit_step sample_moves sample_wallet =
      (fst (run_moves debit_step credit_step sample_moves sample_wallet), [sample_moves ! 0, sample_moves ! 2])"
    using acc by (metis prod.collapse)
  from wallet_moves_balance [OF ok this] ok acc show ?thesis by blast
qed

text \<open>
  \<^verbatim>\<open>Wallet.Debit\<close> and \<^verbatim>\<open>Wallet.Credit\<close> on every branch: the currency, the sign and the balance are
  checked in this order; a debit that passes takes the amount off exactly and raises the
  version by one; a credit reports an overflow only when the new balance would not fit; and
  \<^verbatim>\<open>CanDebit\<close> predicts \<^verbatim>\<open>Debit\<close>.
\<close>

theorem wallet_debit_credit_cases:
  assumes "wallet_ok w"
  shows "Wallet_Debit now w a =
     (if money_currency a \<noteq> BRL then Inl (wallet_err Wallet_ErrCurrencyMismatch)
      else if cents a \<le> 0 then Inl (wallet_err Wallet_ErrPositiveAmountRequired)
      else if cents (wal_balance w) < cents a then Inl (wallet_err Wallet_ErrInsufficientBalance)
      else Inr (moved now w (cents (wal_balance w) - cents a))) \<and>
    Wallet_Credit now w a =
     (if money_currency a \<noteq> BRL then Inl (wallet_err Wallet_ErrCurrencyMismatch)
      else if cents a \<le> 0 then Inl (wallet_err Wallet_ErrPositiveAmountRequired)
      else if \<not> in_int64 (cents (wal_balance w) + cents a)
        then Inl (Errorf ''add balance'' (money_err ErrOverflow))
      else Inr (moved now w (cents (wal_balance w) + cents a))) \<and>
    (CanDebit w a \<longleftrightarrow> (\<exists>r. Wallet_Debit now w a = Inr r))"
  using assms
  by (auto simp: Wallet_Debit_eq Wallet_Credit_eq CanDebit_def canDebitLocked_iff wallet_ok_def)

theorem wallet_debit_credit_cases_witness:
  "wallet_ok sample_wallet \<and>
   Wallet_Debit 9 sample_wallet \<lparr>money_amount = 10001, money_currency = BRL\<rparr> =
     Inl (wallet_err Wallet_ErrInsufficientBalance) \<and>
   CanDebit sample_wallet \<lparr>money_amount = 10000, money_currency = BRL\<rparr>"
proof -
  have ok: "wallet_ok sample_wallet"
    by (simp add: wallet_ok_def sample_wallet_def cents_def)
  show ?thesis
    using ok wallet_debit_credit_cases [OF ok, of 9 "\<lparr>money_amount = 10001, money_currency = BRL\<rparr>"]
      wallet_debit_credit_cases [OF ok, of 9 "\<lparr>money_amount = 10000, money_currency = BRL\<rparr>"]
    by (simp add: sample_wallet_def cents_def)
qed

text \<open>
  C34: a ledger entry can only be built, fresh or from a stored row, when its identifiers are
  present, its amount is positive, its balances are not negative and the balance after it is
  the balance before it plus or minus the amount.
\<close>

theorem ledger_entry_math:
  "NewLedgerEntry now i wid tid d a b0 b1 = Inr e \<or> RehydrateLedgerEntry i wid tid d a b0 b1 now = Inr e
   \<longleftrightarrow>
     wid \<noteq> '''' \<and> tid \<noteq> '''' \<and> (d = DEBIT \<or> d = CREDIT) \<and> 0 < cents a \<and> 0 \<le> cents b0 \<and> 0 \<le> cents b1 \<and>
     money_currency b0 = money_currency a \<and> money_currency b1 = money_currency a \<and>
     cents b1 = cents b0 + signed d (cents a) \<and>
     e = \<lparr>le_id = i, le_walletID = wid, le_transactionID = tid, le_direction = d, le_amount = a,
          le_currency = money_currency a, le_balanceBefore = b0, le_balanceAfter = b1, le_createdAt = now\<rparr>"
  unfolding RehydrateLedgerEntry_Inr NewLedgerEntry_Inr by auto

end
