(* ===== verification/Wager_Transaction.thy ===== *)
theory Wager_Transaction
  imports Wallet_Aggregate
begin

text \<open>
  The transaction aggregate, \<^verbatim>\<open>internal/wagertransaction/transaction.go\<close>: its types, the three
  constructors, the setters and the status machine of \<^verbatim>\<open>TransitionTo\<close>. Readings of \<^verbatim>\<open>time.Now()\<close>
  are arguments. A contract of status machines with absorbing states is stated as a locale and
  instantiated with \<^verbatim>\<open>TransitionTo\<close>; it bounds the number of status changes of a transaction.
\<close>

section \<open>Types\<close>

text \<open>
  \<open>TransactionType\<close>, \<open>TransactionStatus\<close> and \<open>Origin\<close> are string types. A request can carry any
  kind; statuses and origins only come from the constants and from columns checked against them.
\<close>

datatype TransactionType = OPENING | BET | WIN | LOSS | REFUND | ROLLBACK | Other_Type string

datatype TransactionStatus = PENDING | PENDING_REFERENCE | PROCESSED | REJECTED | FAILED

datatype Origin = INTERNAL | EXTERNAL

definition TransactionType_of :: "string \<Rightarrow> TransactionType" where
  "TransactionType_of s =
     (if s = ''OPENING'' then OPENING else if s = ''BET'' then BET else if s = ''WIN'' then WIN
      else if s = ''LOSS'' then LOSS else if s = ''REFUND'' then REFUND
      else if s = ''ROLLBACK'' then ROLLBACK else Other_Type s)"

fun TransactionType_string :: "TransactionType \<Rightarrow> string" where
  "TransactionType_string OPENING = ''OPENING''"
| "TransactionType_string BET = ''BET''"
| "TransactionType_string WIN = ''WIN''"
| "TransactionType_string LOSS = ''LOSS''"
| "TransactionType_string REFUND = ''REFUND''"
| "TransactionType_string ROLLBACK = ''ROLLBACK''"
| "TransactionType_string (Other_Type s) = s"

fun TransactionStatus_string :: "TransactionStatus \<Rightarrow> string" where
  "TransactionStatus_string PENDING = ''PENDING''"
| "TransactionStatus_string PENDING_REFERENCE = ''PENDING_REFERENCE''"
| "TransactionStatus_string PROCESSED = ''PROCESSED''"
| "TransactionStatus_string REJECTED = ''REJECTED''"
| "TransactionStatus_string FAILED = ''FAILED''"

fun TransactionType_Valid :: "TransactionType \<Rightarrow> bool" where
  "TransactionType_Valid BET \<longleftrightarrow> True"
| "TransactionType_Valid WIN \<longleftrightarrow> True"
| "TransactionType_Valid LOSS \<longleftrightarrow> True"
| "TransactionType_Valid REFUND \<longleftrightarrow> True"
| "TransactionType_Valid ROLLBACK \<longleftrightarrow> True"
| "TransactionType_Valid _ \<longleftrightarrow> False"

record Transaction =
  tx_id :: string
  tx_origin :: Origin
  tx_externalID :: string
  tx_provider :: string
  tx_idempotencyKey :: string
  tx_payloadHash :: string
  tx_walletID :: string
  tx_playerID :: string
  tx_roundID :: string
  tx_gameID :: string
  tx_transactionType :: TransactionType
  tx_amount :: Money
  tx_externalReference :: string
  tx_internalReference :: string
  tx_status :: TransactionStatus
  tx_failureCode :: string
  tx_refAttempts :: int
  tx_refNextAttemptAt :: "time option"
  tx_resultBalance :: "Money option"
  tx_createdAt :: time
  tx_updatedAt :: time
  tx_processedAt :: "time option"

section \<open>Constructors\<close>

definition NewExternalTransaction ::
  "time \<Rightarrow> ident \<Rightarrow> string \<Rightarrow> ident \<Rightarrow> string \<Rightarrow> string \<Rightarrow> ident \<Rightarrow> ident \<Rightarrow> ident \<Rightarrow> ident \<Rightarrow>
     TransactionType \<Rightarrow> Money \<Rightarrow> string \<Rightarrow> gerr + Transaction" where
  "NewExternalTransaction now tid provider externalID idempotencyKey payloadHash walletID playerID
     roundID gameID transactionType amount externalReference =
     (if transactionType = OPENING then Inl (wager_err Wager_ErrOPENINGRejected)
      else if provider = '''' then Inl (wager_err Wager_ErrInvalidProvider)
      else if externalID = '''' then Inl (wager_err Wager_ErrInvalidExternalID)
      else if idempotencyKey = '''' then Inl (wager_err Wager_ErrInvalidIdempotencyKey)
      else if walletID = '''' then Inl (wager_err Wager_ErrInvalidWalletID)
      else if playerID = '''' then Inl (wager_err Wager_ErrInvalidPlayerID)
      else if \<not> TransactionType_Valid transactionType then Inl (wager_err Wager_ErrInvalidTransactionType)
      else if transactionType \<noteq> LOSS \<and> (IsNegative amount \<or> IsZero amount)
        then Inl (wager_err Wager_ErrPositiveAmountRequired)
      else if transactionType = LOSS \<and> \<not> IsZero amount
        then Inl (wager_err Wager_ErrZeroAmountRequired)
      else Inr \<lparr>tx_id = tid, tx_origin = EXTERNAL, tx_externalID = externalID, tx_provider = provider,
                tx_idempotencyKey = idempotencyKey, tx_payloadHash = payloadHash,
                tx_walletID = walletID, tx_playerID = playerID, tx_roundID = roundID,
                tx_gameID = gameID, tx_transactionType = transactionType, tx_amount = amount,
                tx_externalReference = externalReference, tx_internalReference = '''',
                tx_status = PENDING, tx_failureCode = '''', tx_refAttempts = 0,
                tx_refNextAttemptAt = None, tx_resultBalance = None, tx_createdAt = now,
                tx_updatedAt = now, tx_processedAt = None\<rparr>)"

definition NewOpeningTransaction :: "time \<Rightarrow> string \<Rightarrow> string \<Rightarrow> string \<Rightarrow> Money \<Rightarrow> gerr + Transaction" where
  "NewOpeningTransaction now tid walletID playerID amount =
     (if tid = '''' then Inl (wager_err Wager_ErrInvalidTransactionID)
      else if walletID = '''' then Inl (wager_err Wager_ErrInvalidWalletID)
      else if playerID = '''' then Inl (wager_err Wager_ErrInvalidPlayerID)
      else if IsNegative amount then Inl (wager_err Wager_ErrInvalidMoney)
      else Inr \<lparr>tx_id = tid, tx_origin = INTERNAL, tx_externalID = '''', tx_provider = '''',
                tx_idempotencyKey = '''', tx_payloadHash = '''',
                tx_walletID = walletID, tx_playerID = playerID, tx_roundID = '''',
                tx_gameID = '''', tx_transactionType = OPENING, tx_amount = amount,
                tx_externalReference = '''', tx_internalReference = '''',
                tx_status = PROCESSED, tx_failureCode = '''', tx_refAttempts = 0,
                tx_refNextAttemptAt = None, tx_resultBalance = None, tx_createdAt = now,
                tx_updatedAt = now, tx_processedAt = Some now\<rparr>)"

definition RehydrateTransaction ::
  "ident \<Rightarrow> Origin \<Rightarrow> ident \<Rightarrow> string \<Rightarrow> string \<Rightarrow> string \<Rightarrow> ident \<Rightarrow> ident \<Rightarrow> ident \<Rightarrow> ident \<Rightarrow>
     TransactionType \<Rightarrow> Money \<Rightarrow> string \<Rightarrow> string \<Rightarrow> TransactionStatus \<Rightarrow> string \<Rightarrow> int \<Rightarrow> time option \<Rightarrow>
     time \<Rightarrow> time \<Rightarrow> time option \<Rightarrow> Transaction" where
  "RehydrateTransaction tid origin externalID provider idempotencyKey payloadHash walletID playerID
     roundID gameID transactionType amount externalReference internalReference status failureCode
     refAttempts refNextAttemptAt createdAt updatedAt processedAt =
     \<lparr>tx_id = tid, tx_origin = origin, tx_externalID = externalID, tx_provider = provider,
      tx_idempotencyKey = idempotencyKey, tx_payloadHash = payloadHash,
      tx_walletID = walletID, tx_playerID = playerID, tx_roundID = roundID,
      tx_gameID = gameID, tx_transactionType = transactionType, tx_amount = amount,
      tx_externalReference = externalReference, tx_internalReference = internalReference,
      tx_status = status, tx_failureCode = failureCode, tx_refAttempts = refAttempts,
      tx_refNextAttemptAt = refNextAttemptAt, tx_resultBalance = None, tx_createdAt = createdAt,
      tx_updatedAt = updatedAt, tx_processedAt = processedAt\<rparr>"

section \<open>Methods\<close>

definition terminal_status :: "TransactionStatus \<Rightarrow> bool" where
  "terminal_status s \<longleftrightarrow> s = PROCESSED \<or> s = REJECTED \<or> s = FAILED"

definition IsTerminal :: "Transaction \<Rightarrow> bool" where
  "IsTerminal t \<longleftrightarrow> terminal_status (tx_status t)"

fun isValidTransition :: "TransactionStatus \<Rightarrow> TransactionStatus \<Rightarrow> bool" where
  "isValidTransition PENDING to0 \<longleftrightarrow>
     to0 = PROCESSED \<or> to0 = REJECTED \<or> to0 = FAILED \<or> to0 = PENDING_REFERENCE"
| "isValidTransition PENDING_REFERENCE to0 \<longleftrightarrow> to0 = PROCESSED \<or> to0 = REJECTED \<or> to0 = FAILED"
| "isValidTransition _ to0 \<longleftrightarrow> False"

text \<open>The second reading of the clock is that of \<^verbatim>\<open>processedAt\<close>.\<close>

definition TransitionTo :: "time \<Rightarrow> time \<Rightarrow> TransactionStatus \<Rightarrow> Transaction \<Rightarrow> gerr + Transaction" where
  "TransitionTo now now2 newStatus t =
     (if IsTerminal t then Inl (wager_err Wager_ErrInvalidStateTransition)
      else if \<not> isValidTransition (tx_status t) newStatus
        then Inl (wager_err Wager_ErrInvalidStateTransition)
      else
        let t' = t\<lparr>tx_status := newStatus, tx_updatedAt := now\<rparr>
        in Inr (if newStatus = PROCESSED then t'\<lparr>tx_processedAt := Some now2\<rparr> else t'))"

text \<open>\<^verbatim>\<open>tx.TransitionTo(s)\<close> as a statement: the error is dropped and the transaction kept.\<close>

definition TransitionTo_stmt :: "time \<Rightarrow> time \<Rightarrow> TransactionStatus \<Rightarrow> Transaction \<Rightarrow> Transaction" where
  "TransitionTo_stmt now now2 newStatus t =
     (case TransitionTo now now2 newStatus t of Inl _ \<Rightarrow> t | Inr t' \<Rightarrow> t')"

definition SetFailureCode :: "time \<Rightarrow> string \<Rightarrow> Transaction \<Rightarrow> Transaction" where
  "SetFailureCode now code t = t\<lparr>tx_failureCode := code, tx_updatedAt := now\<rparr>"

definition SetInternalReference :: "time \<Rightarrow> string \<Rightarrow> Transaction \<Rightarrow> Transaction" where
  "SetInternalReference now ref t = t\<lparr>tx_internalReference := ref, tx_updatedAt := now\<rparr>"

definition SetID :: "string \<Rightarrow> Transaction \<Rightarrow> Transaction" where
  "SetID i t = t\<lparr>tx_id := i\<rparr>"

definition seconds :: "int \<Rightarrow> time" where
  "seconds n = n * 10 ^ 9"

text \<open>The shift count is never negative: attempts start at 0 and are only incremented.\<close>

definition IncrementRefAttempts :: "time \<Rightarrow> Transaction \<Rightarrow> Transaction" where
  "IncrementRefAttempts now t =
     (let n = tx_refAttempts t + 1;
          backoff = push_bit (nat (min n 6)) 1
      in t\<lparr>tx_refAttempts := n, tx_refNextAttemptAt := Some (now + seconds backoff),
           tx_updatedAt := now\<rparr>)"

definition SetRefNextAttemptAt :: "time option \<Rightarrow> Transaction \<Rightarrow> Transaction" where
  "SetRefNextAttemptAt at0 t = t\<lparr>tx_refNextAttemptAt := at0\<rparr>"

definition SetResultBalance :: "Money \<Rightarrow> Transaction \<Rightarrow> Transaction" where
  "SetResultBalance b t = t\<lparr>tx_resultBalance := Some b\<rparr>"

section \<open>The contract of a status machine\<close>

text \<open>
  \<open>step o s\<close> asks for a move; the rank of a status bounds the moves still possible, and a status
  of rank 0 is final. \<open>run_steps\<close> applies a list of requests, ignoring the refused ones, and
  counts the moves.
\<close>

fun run_steps :: "('o \<Rightarrow> 's \<Rightarrow> 'e + 's) \<Rightarrow> 'o list \<Rightarrow> 's \<Rightarrow> 's \<times> nat" where
  "run_steps step [] s = (s, 0)"
| "run_steps step (r # rs) s =
     (case step r s of
        Inl _ \<Rightarrow> run_steps step rs s
      | Inr s' \<Rightarrow> (let (t, n) = run_steps step rs s' in (t, Suc n)))"

locale ranked_machine =
  fixes step :: "'o \<Rightarrow> 's \<Rightarrow> 'e + 's"
    and rank :: "'s \<Rightarrow> nat"
  assumes step_rank: "step r s = Inr s' \<Longrightarrow> rank s' < rank s"
begin

lemma run_steps_bounded: "run_steps step rs s = (t, n) \<Longrightarrow> n + rank t \<le> rank s"
proof (induction rs arbitrary: s t n)
  case Nil
  then show ?case by simp
next
  case (Cons r rs)
  show ?case
  proof (cases "step r s")
    case (Inl e)
    with Cons show ?thesis by simp
  next
    case (Inr s')
    with Cons.prems obtain m where "run_steps step rs s' = (t, m)" and "n = Suc m"
      by (auto split: prod.splits)
    with Cons.IH [of s' t m] step_rank [OF Inr] show ?thesis by simp
  qed
qed

lemma run_steps_final: "rank s = 0 \<Longrightarrow> run_steps step rs s = (s, 0)"
proof (induction rs)
  case Nil
  then show ?case by simp
next
  case (Cons r rs)
  then show ?case using step_rank [of r s] by (cases "step r s") auto
qed

end

section \<open>The transaction's status is such a machine\<close>

fun status_rank :: "TransactionStatus \<Rightarrow> nat" where
  "status_rank PENDING = 2"
| "status_rank PENDING_REFERENCE = 1"
| "status_rank _ = 0"

text \<open>Statuses are ordered by the moves between them.\<close>

instantiation TransactionStatus :: order
begin

definition less_TransactionStatus :: "TransactionStatus \<Rightarrow> TransactionStatus \<Rightarrow> bool" where
  "less_TransactionStatus = isValidTransition"

definition less_eq_TransactionStatus :: "TransactionStatus \<Rightarrow> TransactionStatus \<Rightarrow> bool" where
  "less_eq_TransactionStatus s s' \<longleftrightarrow> s = s' \<or> isValidTransition s s'"

instance
proof
  fix s s' s'' :: TransactionStatus
  show "s < s' \<longleftrightarrow> s \<le> s' \<and> \<not> s' \<le> s"
    by (cases s; cases s') (auto simp: less_TransactionStatus_def less_eq_TransactionStatus_def)
  show "s \<le> s" by (simp add: less_eq_TransactionStatus_def)
  show "s \<le> s' \<Longrightarrow> s' \<le> s'' \<Longrightarrow> s \<le> s''"
    by (cases s; cases s') (auto simp: less_eq_TransactionStatus_def)
  show "s \<le> s' \<Longrightarrow> s' \<le> s \<Longrightarrow> s = s'"
    by (cases s; cases s') (auto simp: less_eq_TransactionStatus_def)
qed

end

definition transition_step :: "time \<times> time \<times> TransactionStatus \<Rightarrow> Transaction \<Rightarrow> gerr + Transaction" where
  "transition_step = (\<lambda>(now, now2, s) t. TransitionTo now now2 s t)"

lemma TransitionTo_Inr:
  "TransitionTo now now2 s t = Inr t' \<longleftrightarrow>
     isValidTransition (tx_status t) s \<and>
     t' = (if s = PROCESSED then t\<lparr>tx_status := s, tx_updatedAt := now, tx_processedAt := Some now2\<rparr>
           else t\<lparr>tx_status := s, tx_updatedAt := now\<rparr>)"
  by (cases "tx_status t") (auto simp: TransitionTo_def IsTerminal_def terminal_status_def Let_def)

lemma isValidTransition_rank: "isValidTransition s s' \<Longrightarrow> status_rank s' < status_rank s"
  by (cases s; cases s') auto

interpretation txm: ranked_machine transition_step "\<lambda>t. status_rank (tx_status t)"
proof unfold_locales
  fix r t t'
  assume "transition_step r t = Inr t'"
  then have "isValidTransition (tx_status t) (tx_status t')"
    by (cases r) (auto simp: transition_step_def TransitionTo_Inr)
  then show "status_rank (tx_status t') < status_rank (tx_status t)" by (rule isValidTransition_rank)
qed

lemma terminal_rank: "terminal_status s \<longleftrightarrow> status_rank s = 0"
  by (cases s) (auto simp: terminal_status_def)

lemma TransactionType_of_string [simp]:
  "TransactionType_of s = OPENING \<longleftrightarrow> s = ''OPENING''"
  "TransactionType_string (TransactionType_of s) = s"
  by (auto simp: TransactionType_of_def)

text \<open>The pending transaction \<open>t\<close> after the statements that move it to a final status.\<close>

lemma TransitionTo_stmt_pending:
  "tx_status t = PENDING \<or> tx_status t = PENDING_REFERENCE \<Longrightarrow>
   TransitionTo_stmt n1 n2 PROCESSED t = t\<lparr>tx_status := PROCESSED, tx_updatedAt := n1, tx_processedAt := Some n2\<rparr>"
  "tx_status t = PENDING \<or> tx_status t = PENDING_REFERENCE \<Longrightarrow>
   TransitionTo_stmt n1 n2 REJECTED t = t\<lparr>tx_status := REJECTED, tx_updatedAt := n1\<rparr>"
  "tx_status t = PENDING \<Longrightarrow>
   TransitionTo_stmt n1 n2 PENDING_REFERENCE t = t\<lparr>tx_status := PENDING_REFERENCE, tx_updatedAt := n1\<rparr>"
  by (cases "tx_status t";
      simp add: TransitionTo_stmt_def TransitionTo_def IsTerminal_def terminal_status_def Let_def)+

text \<open>What a sequence of moves leaves as it was.\<close>

lemma TransitionTo_less: "TransitionTo now now2 s t = Inr t' \<Longrightarrow> tx_status t < tx_status t'"
  by (auto simp: TransitionTo_Inr less_TransactionStatus_def)

lemma run_transitions_frame:
  "run_steps transition_step rs t = (t', n) \<Longrightarrow> tx_status t \<le> tx_status t' \<and>
   t' = t\<lparr>tx_status := tx_status t', tx_updatedAt := tx_updatedAt t', tx_processedAt := tx_processedAt t'\<rparr>"
proof (induction rs arbitrary: t n)
  case Nil
  then show ?case by simp
next
  case (Cons r rs)
  obtain n1 n2 s where r: "r = (n1, n2, s)" by (cases r)
  show ?case
  proof (cases "TransitionTo n1 n2 s t")
    case (Inl e)
    with Cons r show ?thesis by (simp add: transition_step_def)
  next
    case (Inr u)
    with Cons.prems r obtain m where "run_steps transition_step rs u = (t', m)"
      by (auto simp: transition_step_def split: prod.splits)
    from Cons.IH [OF this] TransitionTo_less [OF Inr] Inr show ?thesis
      by (cases t; cases u; cases t') (auto simp: TransitionTo_Inr split: if_splits)
  qed
qed

section \<open>Properties\<close>

text \<open>
  C35: whatever sequence of status changes is requested, a transaction only moves up in the order
  of the statuses, at most twice (once from \<^verbatim>\<open>PENDING_REFERENCE\<close>), never leaves \<^verbatim>\<open>PROCESSED\<close>,
  \<^verbatim>\<open>REJECTED\<close> or \<^verbatim>\<open>FAILED\<close>, and the requests leave everything but the status and the time stamps as it was.
\<close>

theorem transition_machine:
  assumes "run_steps transition_step rs t = (t', n)"
  shows "tx_status t \<le> tx_status t' \<and> n + status_rank (tx_status t') \<le> status_rank (tx_status t) \<and>
    (IsTerminal t \<longrightarrow> t' = t \<and> n = 0) \<and>
    t' = t\<lparr>tx_status := tx_status t', tx_updatedAt := tx_updatedAt t', tx_processedAt := tx_processedAt t'\<rparr>"
  using txm.run_steps_bounded [OF assms] txm.run_steps_final [of t rs] run_transitions_frame [OF assms] assms
  by (auto simp: IsTerminal_def terminal_rank)

definition sample_bet :: Transaction where
  "sample_bet = projr (NewExternalTransaction 7 '''' ''prov'' ''ext-1'' ''key-1'' ''h'' ''w1'' ''p1'' ''r1'' ''g1''
     BET \<lparr>money_amount = 500, money_currency = BRL\<rparr> '''')"

theorem transition_machine_witness:
  "run_steps transition_step [(1, 2, PENDING_REFERENCE), (3, 4, PENDING), (5, 6, PROCESSED), (7, 8, REJECTED)] sample_bet =
     (sample_bet\<lparr>tx_status := PROCESSED, tx_updatedAt := 5, tx_processedAt := Some 6\<rparr>, 2) \<and>
   2 + status_rank PROCESSED \<le> status_rank (tx_status sample_bet)"
proof -
  have run: "run_steps transition_step [(1, 2, PENDING_REFERENCE), (3, 4, PENDING), (5, 6, PROCESSED), (7, 8, REJECTED)] sample_bet =
     (sample_bet\<lparr>tx_status := PROCESSED, tx_updatedAt := 5, tx_processedAt := Some 6\<rparr>, 2)"
    by (simp add: sample_bet_def NewExternalTransaction_def IsNegative_def IsZero_def transition_step_def
        TransitionTo_def IsTerminal_def terminal_status_def Let_def)
  from transition_machine [OF run] run show ?thesis by simp
qed

text \<open>
  What \<^verbatim>\<open>NewExternalTransaction\<close> accepts: one of the five external kinds with every identifier
  present, a zero amount for a \<^verbatim>\<open>LOSS\<close> and a positive one for the others; what it builds is
  pending and external.
\<close>

theorem NewExternalTransaction_accepts:
  "NewExternalTransaction now tid provider externalID idempotencyKey payloadHash walletID playerID
     roundID gameID kind amount externalReference = Inr t \<longleftrightarrow>
   TransactionType_Valid kind \<and> provider \<noteq> '''' \<and> externalID \<noteq> '''' \<and> idempotencyKey \<noteq> '''' \<and>
   walletID \<noteq> '''' \<and> playerID \<noteq> '''' \<and>
   (if kind = LOSS then cents amount = 0 else 0 < cents amount) \<and>
   t = RehydrateTransaction tid EXTERNAL externalID provider idempotencyKey payloadHash walletID playerID
     roundID gameID kind amount externalReference '''' PENDING '''' 0 None now now None"
  by (cases kind)
    (auto simp: NewExternalTransaction_def RehydrateTransaction_def IsNegative_cents IsZero_cents)

text \<open>
  The retry delay of \<^verbatim>\<open>IncrementRefAttempts\<close> doubles with every attempt, from 2 seconds at
  the first to 64 seconds at the sixth, and stays there.
\<close>

theorem IncrementRefAttempts_backoff:
  assumes "tx_refAttempts t = int n"
  shows "tx_refAttempts (IncrementRefAttempts now t) = int (Suc n) \<and>
    tx_refNextAttemptAt (IncrementRefAttempts now t) = Some (now + 2 ^ min (Suc n) 6 * 1000000000)"
proof -
  have "nat (min (int n + 1) 6) = min (Suc n) 6" by (simp add: min_def nat_add_distrib)
  then show ?thesis
    using assms by (simp add: IncrementRefAttempts_def Let_def seconds_def push_bit_eq_mult)
qed

theorem IncrementRefAttempts_backoff_witness:
  "tx_refNextAttemptAt (IncrementRefAttempts 0 sample_bet) = Some 2000000000 \<and>
   tx_refNextAttemptAt (IncrementRefAttempts 0 (sample_bet\<lparr>tx_refAttempts := 9\<rparr>)) = Some 64000000000"
proof -
  have "tx_refAttempts sample_bet = int 0"
    by (simp add: sample_bet_def NewExternalTransaction_def IsNegative_def IsZero_def)
  moreover have "tx_refAttempts (sample_bet\<lparr>tx_refAttempts := 9\<rparr>) = int 9" by simp
  ultimately show ?thesis
    using IncrementRefAttempts_backoff [of sample_bet 0 0]
      IncrementRefAttempts_backoff [of "sample_bet\<lparr>tx_refAttempts := 9\<rparr>" 9 0] by simp
qed

end
