(* ===== verification/Database.thy ===== *)
theory Database
  imports Wager_Transaction "HOL-Library.Product_Lexorder"
begin

text \<open>
  The database as the migrations define it (\<^verbatim>\<open>migrations/*.up.sql\<close>): one record per table row,
  nullable columns as options, and each SQL statement of \<^verbatim>\<open>internal/infra/db\<close> as a function on
  the tables that checks the schema's constraints and reports their violation the way the
  server does. The lemmas say what each statement needs to succeed and what it changes.

  Rows without an \<^verbatim>\<open>ORDER BY\<close> are listed in insertion order; the statements that pick a single
  row select on a key that is unique in every state the program reaches. The parser of the
  type \<^verbatim>\<open>uuid\<close>, the server's clock and the generated identifiers are components of \<open>sqlctx\<close>.
\<close>

section \<open>Tables\<close>

record wallet_row =
  wr_id :: string
  wr_player_id :: string
  wr_provider_id :: string
  wr_currency :: string
  wr_balance :: int64
  wr_version :: int64
  wr_created_at :: time
  wr_updated_at :: time

record tx_row =
  tr_id :: string
  tr_origin :: Origin
  tr_external_id :: "string option"
  tr_provider :: "string option"
  tr_idempotency_key :: "string option"
  tr_payload_hash :: "string option"
  tr_wallet_id :: string
  tr_player_id :: string
  tr_round_id :: "string option"
  tr_game_id :: "string option"
  tr_transaction_type :: TransactionType
  tr_amount :: int64
  tr_currency :: string
  tr_external_reference :: "string option"
  tr_internal_reference :: "string option"
  tr_status :: TransactionStatus
  tr_failure_code :: "string option"
  tr_ref_attempts :: int
  tr_ref_next_attempt_at :: "time option"
  tr_result_balance :: "int64 option"
  tr_created_at :: time
  tr_updated_at :: time
  tr_processed_at :: "time option"

record ledger_row =
  lr_id :: string
  lr_wallet_id :: string
  lr_transaction_id :: string
  lr_direction :: Direction
  lr_amount :: int64
  lr_currency :: string
  lr_balance_before :: int64
  lr_balance_after :: int64
  lr_created_at :: time

record inbox_row =
  ir_consumer_name :: string
  ir_message_id :: string
  ir_payload_hash :: string
  ir_received_at :: time
  ir_completed_at :: "time option"

record outbox_row =
  or_id :: string
  or_aggregate_type :: string
  or_aggregate_id :: string
  or_event_type :: string
  or_payload :: Event
  or_occurred_at :: time
  or_published_at :: "time option"
  or_attempts :: int
  or_next_attempt_at :: time
  or_last_error :: "string option"

record db =
  db_wallets :: "wallet_row list"
  db_txs :: "tx_row list"
  db_ledger :: "ledger_row list"
  db_inbox :: "inbox_row list"
  db_outbox :: "outbox_row list"

definition empty_db :: db where
  "empty_db = \<lparr>db_wallets = [], db_txs = [], db_ledger = [], db_inbox = [], db_outbox = []\<rparr>"

text \<open>
  What a statement reads besides the tables: \<^verbatim>\<open>now()\<close>, the value of \<^verbatim>\<open>gen_random_uuid()\<close> and the
  reading of a parameter as a \<^verbatim>\<open>uuid\<close> (its canonical text; \<open>None\<close> if it is none).
\<close>

record sqlctx =
  sc_now :: time
  sc_gen :: "db \<Rightarrow> string"
  sc_uuid :: "string \<Rightarrow> string option"

type_synonym 'a sql = "sqlctx \<Rightarrow> db \<Rightarrow> gerr + 'a \<times> db"

text \<open>\<^verbatim>\<open>timestamptz\<close> keeps microseconds.\<close>

definition pg_time :: "time \<Rightarrow> time" where
  "pg_time t = t div 1000 * 1000"

definition nullString :: "string \<Rightarrow> string option" where
  "nullString s = (if s = '''' then None else Some s)"

definition coalesce :: "string option \<Rightarrow> string" where
  "coalesce s = (case s of None \<Rightarrow> '''' | Some t \<Rightarrow> t)"

section \<open>Constraints\<close>

definition quoted :: "string \<Rightarrow> string" where
  "quoted s = CHR 0x22 # s @ [CHR 0x22]"

definition unique_violation :: "string \<Rightarrow> gerr" where
  "unique_violation name =
     PgError ''23505'' (''duplicate key value violates unique constraint '' @ quoted name)"

definition check_violation :: "string \<Rightarrow> string \<Rightarrow> gerr" where
  "check_violation table name =
     PgError ''23514'' (''new row for relation '' @ quoted table @ '' violates check constraint '' @ quoted name)"

definition fk_violation :: "string \<Rightarrow> string \<Rightarrow> gerr" where
  "fk_violation table name =
     PgError ''23503'' (''insert or update on table '' @ quoted table @ '' violates foreign key constraint '' @ quoted name)"

definition null_violation :: "string \<Rightarrow> string \<Rightarrow> gerr" where
  "null_violation table col =
     PgError ''23502'' (''null value in column '' @ quoted col @ '' of relation '' @ quoted table @ '' violates not-null constraint'')"

definition out_of_range :: "string \<Rightarrow> gerr" where
  "out_of_range ty = PgError ''22003'' (ty @ '' out of range'')"

definition invalid_uuid :: "string \<Rightarrow> gerr" where
  "invalid_uuid s = PgError ''22P02'' (''invalid input syntax for type uuid: '' @ quoted s)"

text \<open>\<^verbatim>\<open>currency = upper(currency) AND length(currency) = 3\<close>\<close>

definition currency_chk :: "string \<Rightarrow> bool" where
  "currency_chk c \<longleftrightarrow> length c = 3 \<and> list_all (\<lambda>x. \<not> ((97::nat) \<le> of_char x \<and> of_char x \<le> (122::nat))) c"

definition wallet_constraints :: "wallet_row \<Rightarrow> wallet_row list \<Rightarrow> gerr option" where
  "wallet_constraints r rs =
     (if \<not> currency_chk (wr_currency r) then Some (check_violation ''wallets'' ''wallets_currency_chk'')
      else if sint (wr_balance r) < 0 then Some (check_violation ''wallets'' ''wallets_balance_nonnegative_chk'')
      else if sint (wr_version r) < 1 then Some (check_violation ''wallets'' ''wallets_version_chk'')
      else if list_ex (\<lambda>x. wr_id x = wr_id r) rs then Some (unique_violation ''wallets_pkey'')
      else if list_ex (\<lambda>x. wr_player_id x = wr_player_id r \<and> wr_currency x = wr_currency r \<and>
             wr_provider_id x = wr_provider_id r) rs
        then Some (unique_violation ''wallets_player_id_currency_provider_id_key'')
      else None)"

definition opening_rules :: "tx_row \<Rightarrow> bool" where
  "opening_rules r \<longleftrightarrow>
     (if tr_transaction_type r = OPENING
      then tr_origin r = INTERNAL \<and> tr_external_id r = None \<and> tr_provider r = None \<and>
        tr_idempotency_key r = None \<and> tr_payload_hash r = None \<and> tr_round_id r = None \<and>
        tr_game_id r = None \<and> tr_external_reference r = None
      else tr_origin r = EXTERNAL)"

text \<open>The rows of \<^verbatim>\<open>wager_transactions_one_successful_reversal_uq\<close>.\<close>

definition reversal_of :: "tx_row \<Rightarrow> string option" where
  "reversal_of r =
     (if (tr_transaction_type r = REFUND \<or> tr_transaction_type r = ROLLBACK) \<and> tr_status r = PROCESSED
      then tr_internal_reference r else None)"

definition idempotency_of :: "tx_row \<Rightarrow> (string \<times> string) option" where
  "idempotency_of r =
     (case tr_provider r of
        None \<Rightarrow> None
      | Some p \<Rightarrow> (case tr_idempotency_key r of None \<Rightarrow> None | Some k \<Rightarrow> Some (p, k)))"

text \<open>\<open>clash f r rs\<close>: a partial unique index with key \<open>f\<close> already has the key of \<open>r\<close>.\<close>

definition clash :: "('r \<Rightarrow> 'k option) \<Rightarrow> 'r \<Rightarrow> 'r list \<Rightarrow> bool" where
  "clash f r rs \<longleftrightarrow> f r \<noteq> None \<and> list_ex (\<lambda>x. f x = f r) rs"

definition opening_of :: "tx_row \<Rightarrow> string option" where
  "opening_of r = (if tr_transaction_type r = OPENING then Some (tr_wallet_id r) else None)"

definition tx_constraints :: "tx_row \<Rightarrow> tx_row list \<Rightarrow> wallet_row list \<Rightarrow> gerr option" where
  "tx_constraints r rs ws =
     (if \<not> (TransactionType_Valid (tr_transaction_type r) \<or> tr_transaction_type r = OPENING)
        then Some (check_violation ''wager_transactions'' ''wager_transactions_type_chk'')
      else if sint (tr_amount r) < 0
        then Some (check_violation ''wager_transactions'' ''wager_transactions_amount_chk'')
      else if \<not> currency_chk (tr_currency r)
        then Some (check_violation ''wager_transactions'' ''wager_transactions_currency_chk'')
      else if \<not> opening_rules r
        then Some (check_violation ''wager_transactions'' ''wager_transactions_opening_rules_chk'')
      else if list_ex (\<lambda>x. tr_id x = tr_id r) rs then Some (unique_violation ''wager_transactions_pkey'')
      else if clash idempotency_of r rs then Some (unique_violation ''wager_transactions_idempotency_uq'')
      else if clash opening_of r rs then Some (unique_violation ''wager_transactions_one_opening_per_wallet_uq'')
      else if clash reversal_of r rs then Some (unique_violation ''wager_transactions_one_successful_reversal_uq'')
      else if \<not> list_ex (\<lambda>w. wr_id w = tr_wallet_id r) ws
        then Some (fk_violation ''wager_transactions'' ''wager_transactions_wallet_id_fkey'')
      else None)"

text \<open>
  The math check adds two columns of type \<^verbatim>\<open>bigint\<close>, which the server reports as out of range
  when the sum does not fit.
\<close>

definition ledger_math :: "ledger_row \<Rightarrow> bool" where
  "ledger_math r \<longleftrightarrow>
     (lr_direction r = CREDIT \<and> sint (lr_balance_after r) = sint (lr_balance_before r) + sint (lr_amount r)) \<or>
     (lr_direction r = DEBIT \<and> sint (lr_balance_after r) = sint (lr_balance_before r) - sint (lr_amount r))"

definition ledger_constraints :: "ledger_row \<Rightarrow> ledger_row list \<Rightarrow> tx_row list \<Rightarrow> wallet_row list \<Rightarrow> gerr option" where
  "ledger_constraints r rs ts ws =
     (if lr_direction r \<noteq> DEBIT \<and> lr_direction r \<noteq> CREDIT
        then Some (check_violation ''wallet_ledger_entries'' ''wallet_ledger_direction_chk'')
      else if sint (lr_amount r) \<le> 0
        then Some (check_violation ''wallet_ledger_entries'' ''wallet_ledger_amount_chk'')
      else if \<not> currency_chk (lr_currency r)
        then Some (check_violation ''wallet_ledger_entries'' ''wallet_ledger_currency_chk'')
      else if sint (lr_balance_before r) < 0
        then Some (check_violation ''wallet_ledger_entries'' ''wallet_ledger_balance_before_chk'')
      else if sint (lr_balance_after r) < 0
        then Some (check_violation ''wallet_ledger_entries'' ''wallet_ledger_balance_after_chk'')
      else if lr_direction r = CREDIT \<and> \<not> in_int64 (sint (lr_balance_before r) + sint (lr_amount r))
        then Some (out_of_range ''bigint'')
      else if \<not> ledger_math r
        then Some (check_violation ''wallet_ledger_entries'' ''wallet_ledger_math_chk'')
      else if list_ex (\<lambda>x. lr_id x = lr_id r) rs then Some (unique_violation ''wallet_ledger_entries_pkey'')
      else if list_ex (\<lambda>x. lr_wallet_id x = lr_wallet_id r \<and> lr_transaction_id x = lr_transaction_id r) rs
        then Some (unique_violation ''wallet_ledger_wallet_transaction_uq'')
      else if \<not> list_ex (\<lambda>w. wr_id w = lr_wallet_id r) ws
        then Some (fk_violation ''wallet_ledger_entries'' ''wallet_ledger_entries_wallet_id_fkey'')
      else if \<not> list_ex (\<lambda>t. tr_id t = lr_transaction_id r) ts
        then Some (fk_violation ''wallet_ledger_entries'' ''wallet_ledger_entries_transaction_id_fkey'')
      else None)"

definition outbox_constraints :: "outbox_row \<Rightarrow> outbox_row list \<Rightarrow> gerr option" where
  "outbox_constraints r rs =
     (if or_attempts r < 0 then Some (check_violation ''outbox_events'' ''outbox_attempts_chk'')
      else if list_ex (\<lambda>x. or_id x = or_id r) rs then Some (unique_violation ''outbox_events_pkey'')
      else None)"

section \<open>Generic statements\<close>

text \<open>\<^verbatim>\<open>$n\<close> read as a \<^verbatim>\<open>uuid\<close>.\<close>

definition as_uuid :: "string \<Rightarrow> (string \<Rightarrow> 'a sql) \<Rightarrow> 'a sql" where
  "as_uuid s k c d = (case sc_uuid c s of None \<Rightarrow> Inl (invalid_uuid s) | Some u \<Rightarrow> k u c d)"

text \<open>\<open>replace_id key u r\<close>: the row with identifier \<open>u\<close> replaced by \<open>r\<close>.\<close>

definition replace_id :: "('r \<Rightarrow> string) \<Rightarrow> string \<Rightarrow> 'r \<Rightarrow> 'r list \<Rightarrow> 'r list" where
  "replace_id key u r rs = map (\<lambda>x. if key x = u then r else x) rs"

text \<open>\<^verbatim>\<open>UPDATE wager_transactions SET ... WHERE id = u\<close>; the result is the number of rows.\<close>

definition update_tx :: "string \<Rightarrow> (sqlctx \<Rightarrow> tx_row \<Rightarrow> gerr + tx_row) \<Rightarrow> nat sql" where
  "update_tx u f c d =
     (case find (\<lambda>r. tr_id r = u) (db_txs d) of
        None \<Rightarrow> Inr (0, d)
      | Some r \<Rightarrow>
          (case f c r of
             Inl e \<Rightarrow> Inl e
           | Inr r' \<Rightarrow>
               (case tx_constraints r' (filter (\<lambda>x. tr_id x \<noteq> u) (db_txs d)) (db_wallets d) of
                  Some e \<Rightarrow> Inl e
                | None \<Rightarrow> Inr (1, d\<lparr>db_txs := replace_id tr_id u r' (db_txs d)\<rparr>))))"

definition insert_tx :: "tx_row \<Rightarrow> string sql" where
  "insert_tx r c d =
     (case tx_constraints r (db_txs d) (db_wallets d) of
        Some e \<Rightarrow> Inl e
      | None \<Rightarrow> Inr (tr_id r, d\<lparr>db_txs := db_txs d @ [r]\<rparr>))"

definition insert_ledger :: "ledger_row \<Rightarrow> string sql" where
  "insert_ledger r c d =
     (case ledger_constraints r (db_ledger d) (db_txs d) (db_wallets d) of
        Some e \<Rightarrow> Inl e
      | None \<Rightarrow> Inr (lr_id r, d\<lparr>db_ledger := db_ledger d @ [r]\<rparr>))"

definition insert_outbox :: "outbox_row \<Rightarrow> unit sql" where
  "insert_outbox r c d =
     (case outbox_constraints r (db_outbox d) of
        Some e \<Rightarrow> Inl e
      | None \<Rightarrow> Inr ((), d\<lparr>db_outbox := db_outbox d @ [r]\<rparr>))"

end
