(* ===== verification/Runtime.thy ===== *)
theory Runtime
  imports Database
begin

text \<open>
  The effects of the program: reading the clock, statements on the connection pool (each its own
  transaction), and the transactions of \<^verbatim>\<open>internal/infra/db/tx_manager.go\<close>. An effectful function
  is a state transformer on \<open>world\<close> that returns an error or a value, as a Go function does.

  The environment fixes what the program does not decide: the clocks, the identifiers that the
  server generates (\<open>env_gen\<close>, from the tables it sees), the reading of \<^verbatim>\<open>uuid\<close> parameters, the digest, and a schedule of failures. The
  schedule can make any database call fail with any error, before or after it took effect
  (a lost connection, an expired context, a conversion error, the crash of the server), and
  end the rows of a query early, so a statement proved for every environment holds under
  every such failure. \<open>env_zone\<close> is the process's time zone.

  A run of an operation here is not interrupted; \<open>Overlap\<close> interleaves the parts of requests. A
  transaction works on its own copy of the tables, taken when it begins; committing installs the
  copy. No handler writes in a transaction while another one of its own commits.

  The lemmas are weakest-precondition rules for the primitives, from which those of the
  repositories and services are derived.
\<close>

section \<open>Environment and world\<close>

record fault =
  flt_err :: gerr
  flt_applied :: bool
  flt_alive :: bool

record env =
  env_clock :: "nat \<Rightarrow> time"
  env_pg_now :: "nat \<Rightarrow> time"
  env_gen :: "nat \<Rightarrow> db \<Rightarrow> string"
  env_uuid :: "string \<Rightarrow> string option"
  env_sha256 :: "string \<Rightarrow> string"
  env_fault :: "nat \<Rightarrow> fault option"
  env_rows :: "nat \<Rightarrow> nat option"
  env_zone :: "time \<Rightarrow> int"

text \<open>
  What the code relies on: the canonical text of a \<^verbatim>\<open>uuid\<close> is not empty, has no surrounding white
  space and reads as itself, and the server generates canonical identifiers.
\<close>

definition env_ok :: "env \<Rightarrow> bool" where
  "env_ok E \<longleftrightarrow>
     (\<forall>s u. env_uuid E s = Some u \<longrightarrow> u \<noteq> '''' \<and> TrimSpace u = u \<and> env_uuid E u = Some u) \<and>
     (\<forall>n d. env_uuid E (env_gen E n d) = Some (env_gen E n d))"

definition no_faults :: "env \<Rightarrow> bool" where
  "no_faults E \<longleftrightarrow> (\<forall>n. env_fault E n = None \<and> env_rows E n = None)"

text \<open>The server's generated identifiers are not in use.\<close>

definition fresh_ids :: "env \<Rightarrow> bool" where
  "fresh_ids E \<longleftrightarrow> (\<forall>n d. env_gen E n d \<notin> set (map wr_id (db_wallets d) @ map tr_id (db_txs d) @
     map lr_id (db_ledger d) @ map or_id (db_outbox d)))"

definition calm :: "env \<Rightarrow> bool" where
  "calm E \<longleftrightarrow> no_faults E \<and> fresh_ids E"

datatype txst = NoTx | OpenTx db time | AbortedTx | ClosedTx

record metrics =
  mt_processed :: nat
  mt_rejected :: nat
  mt_duplicates :: nat
  mt_conflicts :: nat
  mt_retries :: nat
  mt_divergences :: nat
  mt_durations :: nat
  mt_dlq :: nat
  mt_pending :: nat

record world =
  w_db :: db
  w_txs :: "nat \<Rightarrow> txst"
  w_next :: nat
  w_step :: nat
  w_metrics :: metrics

definition init_world :: "db \<Rightarrow> world" where
  "init_world d = \<lparr>w_db = d, w_txs = (\<lambda>_. NoTx), w_next = 0, w_step = 0,
     w_metrics = \<lparr>mt_processed = 0, mt_rejected = 0, mt_duplicates = 0, mt_conflicts = 0,
       mt_retries = 0, mt_divergences = 0, mt_durations = 0, mt_dlq = 0, mt_pending = 0\<rparr>\<rparr>"

type_synonym 'a eff = "(world, 'a) state"
type_synonym 'a go = "(world, gerr + 'a) state"

section \<open>Control\<close>

abbreviation ret :: "'a \<Rightarrow> ('s, 'a) state" where
  "ret x \<equiv> State_Monad.return x"

abbreviation ok :: "'a \<Rightarrow> ('s, gerr + 'a) state" where
  "ok x \<equiv> State_Monad.return (Inr x)"

abbreviation fail :: "gerr \<Rightarrow> ('s, gerr + 'a) state" where
  "fail e \<equiv> State_Monad.return (Inl e)"

text \<open>\<^verbatim>\<open>x, err := m; if err != nil { return wrap(err) }; k(x)\<close>\<close>

definition bind_err ::
  "('s, gerr + 'a) state \<Rightarrow> (gerr \<Rightarrow> gerr) \<Rightarrow> ('a \<Rightarrow> ('s, gerr + 'b) state) \<Rightarrow> ('s, gerr + 'b) state" where
  "bind_err m wrap k = do { r \<leftarrow> m; (case r of Inl e \<Rightarrow> fail (wrap e) | Inr x \<Rightarrow> k x) }"

definition tick :: "nat eff" where
  "tick = State (\<lambda>w. (w_step w, w\<lparr>w_step := Suc (w_step w)\<rparr>))"

definition time_Now :: "env \<Rightarrow> time eff" where
  "time_Now E = do { n \<leftarrow> tick; ret (env_clock E n) }"

definition count_metric :: "(metrics \<Rightarrow> metrics) \<Rightarrow> unit eff" where
  "count_metric f = State (\<lambda>w. ((), w\<lparr>w_metrics := f (w_metrics w)\<rparr>))"

section \<open>The connection pool and transactions\<close>

definition stmt_ctx :: "env \<Rightarrow> time \<Rightarrow> nat \<Rightarrow> sqlctx" where
  "stmt_ctx E now n = \<lparr>sc_now = now, sc_gen = env_gen E n, sc_uuid = env_uuid E\<rparr>"

text \<open>A statement on the pool is a transaction of its own.\<close>

definition pool_stmt :: "env \<Rightarrow> 'a sql \<Rightarrow> 'a go" where
  "pool_stmt E f = do {
     n \<leftarrow> tick;
     State (\<lambda>w.
       case f (stmt_ctx E (env_pg_now E n) n) (w_db w) of
         Inl e \<Rightarrow> (case env_fault E n of Some flt \<Rightarrow> (Inl (flt_err flt), w) | None \<Rightarrow> (Inl e, w))
       | Inr (x, d) \<Rightarrow>
           (case env_fault E n of
              Some flt \<Rightarrow> (Inl (flt_err flt), if flt_applied flt then w\<lparr>w_db := d\<rparr> else w)
            | None \<Rightarrow> (Inr x, w\<lparr>w_db := d\<rparr>)))
   }"

text \<open>
  \<^verbatim>\<open>pool.Query\<close> and the loop over \<^verbatim>\<open>rows.Next()\<close>. The callers never ask \<^verbatim>\<open>rows.Err()\<close>: when the
  rows end early, they go on with those that arrived.
\<close>

definition pool_rows :: "env \<Rightarrow> 'a list sql \<Rightarrow> 'a list go" where
  "pool_rows E f = bind_err (pool_stmt E f) (\<lambda>e. e) (\<lambda>xs. do {
     n \<leftarrow> tick;
     ok (case env_rows E n of None \<Rightarrow> xs | Some k \<Rightarrow> take k xs)
   })"

text \<open>\<^verbatim>\<open>TxManager.Begin\<close>; the pool is never nil in the wired program.\<close>

definition TxManager_Begin :: "env \<Rightarrow> nat go" where
  "TxManager_Begin E = do {
     n \<leftarrow> tick;
     State (\<lambda>w.
       case env_fault E n of
         Some flt \<Rightarrow> (Inl (Errorf ''begin transaction'' (flt_err flt)), w)
       | None \<Rightarrow> (Inr (w_next w),
           w\<lparr>w_next := Suc (w_next w), w_txs := (w_txs w)(w_next w := OpenTx (w_db w) (env_pg_now E n))\<rparr>))
   }"

definition set_tx :: "nat \<Rightarrow> txst \<Rightarrow> world \<Rightarrow> world" where
  "set_tx t st w = w\<lparr>w_txs := (w_txs w)(t := st)\<rparr>"

text \<open>
  \<^verbatim>\<open>Exec\<close> and \<^verbatim>\<open>QueryRow\<close> of a transaction. A statement the server refuses aborts the transaction;
  a failure on the way may leave it alive, with or without the effect of the statement.
\<close>

definition tx_stmt :: "env \<Rightarrow> nat \<Rightarrow> 'a sql \<Rightarrow> 'a go" where
  "tx_stmt E t f = do {
     n \<leftarrow> tick;
     State (\<lambda>w.
       case w_txs w t of
         OpenTx d s \<Rightarrow>
           (case env_fault E n of
              Some flt \<Rightarrow>
                (Inl (flt_err flt),
                 if \<not> flt_alive flt then set_tx t AbortedTx w
                 else if \<not> flt_applied flt then w
                 else (case f (stmt_ctx E s n) d of
                         Inl _ \<Rightarrow> set_tx t AbortedTx w
                       | Inr (_, d') \<Rightarrow> set_tx t (OpenTx d' s) w))
            | None \<Rightarrow>
                (case f (stmt_ctx E s n) d of
                   Inl e \<Rightarrow> (Inl e, set_tx t AbortedTx w)
                 | Inr (x, d') \<Rightarrow> (Inr x, set_tx t (OpenTx d' s) w)))
       | AbortedTx \<Rightarrow>
           (Inl (PgError ''25P02''
              ''current transaction is aborted, commands ignored until end of transaction block''), w)
       | _ \<Rightarrow> (Inl (Sentinel ErrTxClosed), w))
   }"

definition tx_Commit :: "env \<Rightarrow> nat \<Rightarrow> unit go" where
  "tx_Commit E t = do {
     n \<leftarrow> tick;
     State (\<lambda>w.
       case w_txs w t of
         OpenTx d s \<Rightarrow>
           (case env_fault E n of
              Some flt \<Rightarrow>
                (Inl (flt_err flt), set_tx t ClosedTx (if flt_applied flt then w\<lparr>w_db := d\<rparr> else w))
            | None \<Rightarrow> (Inr (), set_tx t ClosedTx (w\<lparr>w_db := d\<rparr>)))
       | AbortedTx \<Rightarrow> (Inl (Sentinel ErrTxCommitRollback), set_tx t ClosedTx w)
       | _ \<Rightarrow> (Inl (Sentinel ErrTxClosed), w))
   }"

text \<open>Every caller drops the error of \<^verbatim>\<open>Rollback\<close>; the transaction is over in any case.\<close>

definition tx_Rollback :: "nat \<Rightarrow> unit eff" where
  "tx_Rollback t = State (\<lambda>w. ((), set_tx t ClosedTx w))"

text \<open>\<^verbatim>\<open>defer dbTx.Rollback(ctx)\<close>\<close>

definition defer_Rollback :: "nat \<Rightarrow> 'a go \<Rightarrow> 'a go" where
  "defer_Rollback t m = do { r \<leftarrow> m; _ \<leftarrow> tx_Rollback t; ret r }"

section \<open>Weakest preconditions\<close>

definition wp :: "('s, 'a) state \<Rightarrow> ('a \<Rightarrow> 's \<Rightarrow> bool) \<Rightarrow> 's \<Rightarrow> bool" where
  "wp m Q w \<longleftrightarrow> (case run_state m w of (x, w') \<Rightarrow> Q x w')"

lemma wp_run: "wp m Q w \<longleftrightarrow> Q (fst (run_state m w)) (snd (run_state m w))"
  by (simp add: wp_def split_beta)

lemma wp_ret [wp_rules]: "wp (ret x) Q = Q x"
  by (simp add: wp_def State_Monad.return_def fun_eq_iff)

lemma wp_bind [wp_rules]: "wp (m \<bind> f) Q = wp m (\<lambda>x. wp (f x) Q)"
  by (simp add: wp_def State_Monad.bind_def fun_eq_iff split: prod.splits)

lemma wp_State: "wp (State f) Q w \<longleftrightarrow> (case f w of (x, w') \<Rightarrow> Q x w')"
  by (simp add: wp_def)

lemma wp_mono: "wp m Q w \<Longrightarrow> (\<And>x w'. Q x w' \<Longrightarrow> Q' x w') \<Longrightarrow> wp m Q' w"
  by (simp add: wp_run)

lemma wp_conj: "wp m Q w \<Longrightarrow> wp m Q' w \<Longrightarrow> wp m (\<lambda>x w'. Q x w' \<and> Q' x w') w"
  by (simp add: wp_run)

lemma wp_if [wp_rules]: "wp (if b then m else m') Q = (if b then wp m Q else wp m' Q)"
  by simp

lemma wp_Let [wp_rules]: "wp (Let x f) Q = (let y = x in wp (f y) Q)"
  by simp

lemma wp_sum [wp_rules]:
  "wp (case r of Inl e \<Rightarrow> f e | Inr x \<Rightarrow> g x) Q = (case r of Inl e \<Rightarrow> wp (f e) Q | Inr x \<Rightarrow> wp (g x) Q)"
  by (cases r) simp_all

lemma wp_option [wp_rules]:
  "wp (case r of None \<Rightarrow> f | Some x \<Rightarrow> g x) Q = (case r of None \<Rightarrow> wp f Q | Some x \<Rightarrow> wp (g x) Q)"
  by (cases r) simp_all

lemma wp_bind_err [wp_rules]:
  "wp (bind_err m wrap k) Q = wp m (\<lambda>r. case r of Inl e \<Rightarrow> Q (Inl (wrap e)) | Inr x \<Rightarrow> wp (k x) Q)"
  unfolding bind_err_def wp_bind
  by (rule arg_cong [where f = "wp m"]) (auto simp: fun_eq_iff wp_ret split: sum.split)

text \<open>
  Reading the clock, counting and rolling back change neither the database nor another
  transaction. \<open>quiet w w'\<close>: nothing but the step counter and the metrics changed.
\<close>

definition quiet :: "world \<Rightarrow> world \<Rightarrow> bool" where
  "quiet w w' \<longleftrightarrow> w_db w' = w_db w \<and> w_txs w' = w_txs w"

lemma wp_time_Now: "(\<And>t w'. quiet w w' \<Longrightarrow> Q t w') \<Longrightarrow> wp (time_Now E) Q w"
  by (simp add: time_Now_def wp_rules tick_def wp_State quiet_def)

lemma wp_count_metric: "(\<And>w'. quiet w w' \<Longrightarrow> Q () w') \<Longrightarrow> wp (count_metric f) Q w"
  by (simp add: count_metric_def wp_State quiet_def)

lemma wp_Rollback [wp_rules]: "wp (tx_Rollback t) Q = (\<lambda>w. Q () (set_tx t ClosedTx w))"
  by (simp add: tx_Rollback_def wp_State fun_eq_iff)

lemma wp_defer_Rollback [wp_rules]:
  "wp (defer_Rollback t m) Q = wp m (\<lambda>r w'. Q r (set_tx t ClosedTx w'))"
  by (simp add: defer_Rollback_def wp_rules)

lemma set_tx_simps [simp]:
  "w_db (set_tx t st w) = w_db w" "w_txs (set_tx t st w) = (w_txs w)(t := st)"
  by (simp_all add: set_tx_def)

text \<open>
  \<open>blamed E P\<close>: an error has a cause, the failure schedule, an identifier generated twice or the
  refusal \<open>P\<close> of the server.
\<close>

definition blamed :: "env \<Rightarrow> bool \<Rightarrow> bool" where
  "blamed E P \<longleftrightarrow> \<not> calm E \<or> P"

lemma wp_pool_stmt:
  assumes "\<And>e w' n. w_txs w' = w_txs w \<Longrightarrow>
      w_db w' = w_db w \<or> (\<exists>x. f (stmt_ctx E (env_pg_now E n) n) (w_db w) = Inr (x, w_db w')) \<Longrightarrow>
      blamed E (f (stmt_ctx E (env_pg_now E n) n) (w_db w) = Inl e) \<Longrightarrow> Q (Inl e) w'"
    and "\<And>x w' n. w_txs w' = w_txs w \<Longrightarrow>
      f (stmt_ctx E (env_pg_now E n) n) (w_db w) = Inr (x, w_db w') \<Longrightarrow> Q (Inr x) w'"
  shows "wp (pool_stmt E f) Q w"
proof -
  let ?n = "w_step w"
  let ?r = "f (stmt_ctx E (env_pg_now E ?n) ?n) (w_db w)"
  let ?w = "w\<lparr>w_step := Suc ?n\<rparr>"
  have bl: "env_fault E ?n \<noteq> None \<Longrightarrow> \<not> calm E"
    by (auto simp: calm_def no_faults_def)
  have e: "blamed E (?r = Inl e) \<Longrightarrow> Q (Inl e) ?w" for e
    by (rule assms(1) [where n = ?n]) auto
  have a: "?r = Inr (x, d) \<Longrightarrow> blamed E (?r = Inl e) \<Longrightarrow> Q (Inl e) (?w\<lparr>w_db := d\<rparr>)" for x d e
    by (rule assms(1) [where n = ?n]) auto
  have r: "?r = Inr (x, d) \<Longrightarrow> Q (Inr x) (?w\<lparr>w_db := d\<rparr>)" for x d
    by (rule assms(2) [where n = ?n]) auto
  show ?thesis
    unfolding pool_stmt_def wp_bind tick_def wp_State
    using e a r bl
    by (cases ?r; cases "env_fault E ?n") (auto simp: blamed_def split: prod.splits)
qed

lemma wp_Begin:
  assumes "\<And>e w'. quiet w w' \<Longrightarrow> \<not> calm E \<Longrightarrow> Q (Inl e) w'"
    and "\<And>t w' s. w_db w' = w_db w \<Longrightarrow> w_txs w' t = OpenTx (w_db w) s \<Longrightarrow> Q (Inr t) w'"
  shows "wp (TxManager_Begin E) Q w"
proof -
  let ?w = "w\<lparr>w_step := Suc (w_step w)\<rparr>"
  have "env_fault E (w_step w) = Some flt \<Longrightarrow> Q (Inl e) ?w" for flt e
    by (rule assms(1)) (auto simp: quiet_def calm_def no_faults_def)
  then show ?thesis
    unfolding TxManager_Begin_def wp_bind tick_def wp_State
    by (cases "env_fault E (w_step w)") (auto intro: assms(2))
qed

text \<open>The states in which a failed statement \<open>f\<close> can leave its transaction.\<close>

definition left_tx :: "env \<Rightarrow> 'a sql \<Rightarrow> db \<Rightarrow> time \<Rightarrow> txst \<Rightarrow> bool" where
  "left_tx E f d s st \<longleftrightarrow> st = AbortedTx \<or> st = OpenTx d s \<or>
     (\<exists>n x d'. f (stmt_ctx E s n) d = Inr (x, d') \<and> st = OpenTx d' s)"

lemma wp_tx_stmt:
  assumes "w_txs w t = OpenTx d s"
    and "\<And>e w' n. w_db w' = w_db w \<Longrightarrow> left_tx E f d s (w_txs w' t) \<Longrightarrow>
      blamed E (f (stmt_ctx E s n) d = Inl e) \<Longrightarrow> Q (Inl e) w'"
    and "\<And>x d' w' n. w_db w' = w_db w \<Longrightarrow> f (stmt_ctx E s n) d = Inr (x, d') \<Longrightarrow>
      w_txs w' t = OpenTx d' s \<Longrightarrow> Q (Inr x) w'"
  shows "wp (tx_stmt E t f) Q w"
proof -
  let ?n = "w_step w"
  let ?r = "f (stmt_ctx E s ?n) d"
  let ?w = "w\<lparr>w_step := Suc ?n\<rparr>"
  have bl: "env_fault E ?n \<noteq> None \<Longrightarrow> \<not> calm E"
    by (auto simp: calm_def no_faults_def)
  have e: "left_tx E f d s (w_txs w' t) \<Longrightarrow> w_db w' = w_db w \<Longrightarrow> blamed E (?r = Inl e) \<Longrightarrow> Q (Inl e) w'" for w' e
    by (rule assms(2) [where n = ?n])
  have r: "?r = Inr (x, d') \<Longrightarrow> Q (Inr x) (set_tx t (OpenTx d' s) ?w)" for x d'
    by (rule assms(3) [where n = ?n]) auto
  show ?thesis
    unfolding tx_stmt_def wp_bind tick_def wp_State
    using r bl assms(1)
    by (cases ?r; cases "env_fault E ?n")
      (auto simp: blamed_def left_tx_def split: prod.splits intro!: e)
qed

lemma wp_Commit:
  assumes "w_txs w t = OpenTx d s"
    and "\<And>e w'. w_db w' = w_db w \<or> w_db w' = d \<Longrightarrow> \<not> calm E \<Longrightarrow> Q (Inl e) w'"
    and "\<And>w'. w_db w' = d \<Longrightarrow> Q (Inr ()) w'"
  shows "wp (tx_Commit E t) Q w"
proof -
  have "env_fault E (w_step w) \<noteq> None \<Longrightarrow> \<not> calm E"
    by (auto simp: calm_def no_faults_def)
  then show ?thesis
    unfolding tx_Commit_def wp_bind tick_def wp_State
    using assms(1) by (cases "env_fault E (w_step w)") (auto intro!: assms(2,3))
qed

text \<open>Committing a transaction that is not open changes nothing.\<close>

lemma wp_Commit_dead:
  assumes "\<And>d s. w_txs w t \<noteq> OpenTx d s"
    and "\<And>e w'. w_db w' = w_db w \<Longrightarrow> Q (Inl e) w'"
  shows "wp (tx_Commit E t) Q w"
  unfolding tx_Commit_def wp_bind tick_def wp_State
  using assms(1) by (cases "w_txs w t") (auto intro!: assms(2))

end
