(* ===== verification/Wallet_Repository.thy ===== *)
theory Wallet_Repository
  imports Runtime
begin

text \<open>
  \<^verbatim>\<open>internal/infra/db/wallet_repository.go\<close> and \<^verbatim>\<open>ledger_repository.go\<close>: each query as a function on
  the tables (\<open>sql_...\<close>) and each repository method as the effectful function around it. The
  lemmas characterise the successful statements and the rows that can be read back.
\<close>

section \<open>Wallet statements\<close>

text \<open>\<^verbatim>\<open>SELECT ... FROM wallets WHERE id = $1\<close>, also \<^verbatim>\<open>FOR UPDATE\<close>\<close>

definition sql_select_wallet :: "string \<Rightarrow> wallet_row option sql" where
  "sql_select_wallet i = as_uuid i (\<lambda>u c d. Inr (find (\<lambda>r. wr_id r = u) (db_wallets d), d))"

definition sql_select_wallet_by_player :: "string \<Rightarrow> Currency \<Rightarrow> string \<Rightarrow> wallet_row option sql" where
  "sql_select_wallet_by_player playerID cur providerID = as_uuid playerID (\<lambda>u c d.
     Inr (find (\<lambda>r. wr_player_id r = u \<and> wr_currency r = cur \<and> wr_provider_id r = providerID) (db_wallets d), d))"

text \<open>\<^verbatim>\<open>INSERT INTO wallets ... ON CONFLICT (player_id, currency, provider_id) DO NOTHING\<close>\<close>

definition sql_insert_wallet_or_skip :: "Wallet \<Rightarrow> unit sql" where
  "sql_insert_wallet_or_skip w = as_uuid (wal_id w) (\<lambda>u. as_uuid (wal_playerID w) (\<lambda>p c d.
     let r = \<lparr>wr_id = u, wr_player_id = p, wr_provider_id = wal_providerID w, wr_currency = wal_currency w,
              wr_balance = money_amount (wal_balance w), wr_version = wal_version w,
              wr_created_at = pg_time (wal_createdAt w), wr_updated_at = pg_time (wal_updatedAt w)\<rparr>
     in case wallet_constraints r (db_wallets d) of
          None \<Rightarrow> Inr ((), d\<lparr>db_wallets := db_wallets d @ [r]\<rparr>)
        | Some e \<Rightarrow>
            if e = unique_violation ''wallets_player_id_currency_provider_id_key'' then Inr ((), d) else Inl e))"

text \<open>\<^verbatim>\<open>UPDATE wallets SET balance, version = version + 1 ... WHERE id = $2 AND version = $3\<close>\<close>

definition sql_update_balance :: "int64 \<Rightarrow> string \<Rightarrow> int64 \<Rightarrow> nat sql" where
  "sql_update_balance amount i version = as_uuid i (\<lambda>u c d.
     case find (\<lambda>r. wr_id r = u \<and> wr_version r = version) (db_wallets d) of
       None \<Rightarrow> Inr (0, d)
     | Some r \<Rightarrow>
         if sint (wr_version r) = MaxInt64 then Inl (out_of_range ''bigint'')
         else
           let r' = r\<lparr>wr_balance := amount, wr_version := wr_version r + 1, wr_updated_at := sc_now c\<rparr>
           in (case wallet_constraints r' (filter (\<lambda>x. wr_id x \<noteq> u) (db_wallets d)) of
                 Some e \<Rightarrow> Inl e
               | None \<Rightarrow> Inr (1, d\<lparr>db_wallets := replace_id wr_id u r' (db_wallets d)\<rparr>)))"

definition sql_insert_wallet :: "string \<Rightarrow> string \<Rightarrow> Currency \<Rightarrow> int64 \<Rightarrow> string sql" where
  "sql_insert_wallet playerID providerID cur balance = as_uuid playerID (\<lambda>p c d.
     let r = \<lparr>wr_id = sc_gen c d, wr_player_id = p, wr_provider_id = providerID, wr_currency = cur,
              wr_balance = balance, wr_version = 1, wr_created_at = sc_now c, wr_updated_at = sc_now c\<rparr>
     in case wallet_constraints r (db_wallets d) of
          Some e \<Rightarrow> Inl e
        | None \<Rightarrow> Inr (wr_id r, d\<lparr>db_wallets := db_wallets d @ [r]\<rparr>))"

definition opening_row :: "string \<Rightarrow> string \<Rightarrow> string \<Rightarrow> int64 \<Rightarrow> Currency \<Rightarrow> time \<Rightarrow> tx_row" where
  "opening_row i wid pid amount cur now =
     \<lparr>tr_id = i, tr_origin = INTERNAL, tr_external_id = None, tr_provider = None,
      tr_idempotency_key = None, tr_payload_hash = None, tr_wallet_id = wid, tr_player_id = pid,
      tr_round_id = None, tr_game_id = None, tr_transaction_type = OPENING, tr_amount = amount,
      tr_currency = cur, tr_external_reference = None, tr_internal_reference = None,
      tr_status = PROCESSED, tr_failure_code = None, tr_ref_attempts = 0,
      tr_ref_next_attempt_at = None, tr_result_balance = None, tr_created_at = now,
      tr_updated_at = now, tr_processed_at = Some now\<rparr>"

definition sql_insert_opening :: "string \<Rightarrow> string \<Rightarrow> int64 \<Rightarrow> Currency \<Rightarrow> string sql" where
  "sql_insert_opening walletID playerID amount cur = as_uuid walletID (\<lambda>wid. as_uuid playerID (\<lambda>pid c d.
     insert_tx (opening_row (sc_gen c d) wid pid amount cur (sc_now c)) c d))"

text \<open>\<^verbatim>\<open>INSERT INTO wallet_ledger_entries (...) VALUES (..., now()) RETURNING id\<close>\<close>

definition sql_insert_ledger :: "string \<Rightarrow> string \<Rightarrow> Direction \<Rightarrow> int64 \<Rightarrow> Currency \<Rightarrow> int64 \<Rightarrow> int64 \<Rightarrow> string sql" where
  "sql_insert_ledger walletID transactionID dir amount cur b0 b1 =
     as_uuid walletID (\<lambda>wid. as_uuid transactionID (\<lambda>tid c d.
       insert_ledger \<lparr>lr_id = sc_gen c d, lr_wallet_id = wid, lr_transaction_id = tid, lr_direction = dir,
         lr_amount = amount, lr_currency = cur, lr_balance_before = b0, lr_balance_after = b1,
         lr_created_at = sc_now c\<rparr> c d))"

text \<open>\<^verbatim>\<open>INSERT INTO outbox_events (...) VALUES ($1, $2, $3, $4, now(), 0, now())\<close>; a nil payload is NULL\<close>

definition sql_insert_outbox :: "string \<Rightarrow> string \<Rightarrow> string \<Rightarrow> payload \<Rightarrow> unit sql" where
  "sql_insert_outbox aggregateType aggregateID eventType p = as_uuid aggregateID (\<lambda>u c d.
     case p of
       None \<Rightarrow> Inl (null_violation ''outbox_events'' ''payload'')
     | Some ev \<Rightarrow>
         insert_outbox \<lparr>or_id = sc_gen c d, or_aggregate_type = aggregateType, or_aggregate_id = u,
           or_event_type = eventType, or_payload = ev, or_occurred_at = sc_now c, or_published_at = None,
           or_attempts = 0, or_next_attempt_at = sc_now c, or_last_error = None\<rparr> c d)"

section \<open>Wallet repository\<close>

text \<open>The end of the three finders: the amount, then \<^verbatim>\<open>wallet.RehydrateWallet\<close>.\<close>

definition wallet_of_row :: "wallet_row \<Rightarrow> gerr + Wallet" where
  "wallet_of_row r =
     (case NewMoney (wr_balance r) (wr_currency r) of
        Inl err \<Rightarrow> Inl (Errorf ''parse wallet balance'' (money_err err))
      | Inr bal \<Rightarrow> RehydrateWallet (wr_id r) (wr_player_id r) (wr_provider_id r) (wr_currency r) bal
          (wr_version r) (wr_created_at r) (wr_updated_at r))"

definition scanned_wallet :: "wallet_row option \<Rightarrow> gerr + Wallet" where
  "scanned_wallet x =
     (case x of None \<Rightarrow> Inl (wallet_err Wallet_ErrWalletNotFound) | Some r \<Rightarrow> wallet_of_row r)"

definition WalletRepo_Create :: "env \<Rightarrow> Wallet \<Rightarrow> unit go" where
  "WalletRepo_Create E w = bind_err (pool_stmt E (sql_insert_wallet_or_skip w)) (Errorf ''insert wallet'') ok"

definition WalletRepo_FindByID :: "env \<Rightarrow> string \<Rightarrow> Wallet go" where
  "WalletRepo_FindByID E i =
     bind_err (pool_stmt E (sql_select_wallet i)) (Errorf ''scan wallet'') (\<lambda>x. ret (scanned_wallet x))"

definition WalletRepo_FindByPlayerAndCurrencyAndProvider :: "env \<Rightarrow> string \<Rightarrow> Currency \<Rightarrow> string \<Rightarrow> Wallet go" where
  "WalletRepo_FindByPlayerAndCurrencyAndProvider E playerID cur providerID =
     bind_err (pool_stmt E (sql_select_wallet_by_player playerID cur providerID)) (Errorf ''scan wallet'')
       (\<lambda>x. ret (scanned_wallet x))"

definition WalletRepo_UpdateBalance :: "env \<Rightarrow> string \<Rightarrow> Money \<Rightarrow> int64 \<Rightarrow> int64 go" where
  "WalletRepo_UpdateBalance E i newBalance expectedVersion =
     bind_err (pool_stmt E (sql_update_balance (money_amount newBalance) i expectedVersion))
       (Errorf ''update wallet balance'')
       (\<lambda>n. if n = 0 then fail (wallet_err Wallet_ErrConcurrentUpdate) else ok (expectedVersion + 1))"

definition WalletRepo_FindByIDForUpdate :: "env \<Rightarrow> nat \<Rightarrow> string \<Rightarrow> Wallet go" where
  "WalletRepo_FindByIDForUpdate E t i =
     bind_err (tx_stmt E t (sql_select_wallet i)) (Errorf ''scan wallet for update'') (\<lambda>x. ret (scanned_wallet x))"

definition WalletRepo_UpdateBalanceTx :: "env \<Rightarrow> nat \<Rightarrow> string \<Rightarrow> Money \<Rightarrow> int64 \<Rightarrow> int64 go" where
  "WalletRepo_UpdateBalanceTx E t i newBalance expectedVersion =
     bind_err (tx_stmt E t (sql_update_balance (money_amount newBalance) i expectedVersion))
       (Errorf ''update wallet balance'')
       (\<lambda>n. if n = 0 then fail (wallet_err Wallet_ErrConcurrentUpdate) else ok (expectedVersion + 1))"

definition WalletRepo_CreateWalletTx :: "env \<Rightarrow> nat \<Rightarrow> string \<Rightarrow> string \<Rightarrow> Currency \<Rightarrow> Money \<Rightarrow> string go" where
  "WalletRepo_CreateWalletTx E t playerID providerID cur balance =
     bind_err (tx_stmt E t (sql_insert_wallet playerID providerID cur (money_amount balance)))
       (Errorf ''insert wallet'') ok"

definition WalletRepo_CreateOpeningTx :: "env \<Rightarrow> nat \<Rightarrow> string \<Rightarrow> string \<Rightarrow> Money \<Rightarrow> Currency \<Rightarrow> string go" where
  "WalletRepo_CreateOpeningTx E t walletID playerID amount cur =
     bind_err (tx_stmt E t (sql_insert_opening walletID playerID (money_amount amount) cur))
       (Errorf ''insert opening transaction'') ok"

definition WalletRepo_CreateLedgerEntryTx :: "env \<Rightarrow> nat \<Rightarrow> LedgerEntry \<Rightarrow> string go" where
  "WalletRepo_CreateLedgerEntryTx E t entry =
     bind_err (tx_stmt E t (sql_insert_ledger (le_walletID entry) (le_transactionID entry) (le_direction entry)
         (money_amount (le_amount entry)) (le_currency entry) (money_amount (le_balanceBefore entry))
         (money_amount (le_balanceAfter entry))))
       (Errorf ''insert ledger entry'') ok"

definition WalletRepo_CreateOutboxEventTx :: "env \<Rightarrow> nat \<Rightarrow> string \<Rightarrow> string \<Rightarrow> string \<Rightarrow> payload \<Rightarrow> unit go" where
  "WalletRepo_CreateOutboxEventTx E t aggregateType aggregateID eventType p =
     bind_err (tx_stmt E t (sql_insert_outbox aggregateType aggregateID eventType p))
       (Errorf ''insert outbox event'') ok"

section \<open>Lemmas\<close>

lemma as_uuid_Inr:
  "as_uuid s k c d = Inr y \<longleftrightarrow> (\<exists>u. sc_uuid c s = Some u \<and> k u c d = Inr y)"
  by (auto simp: as_uuid_def split: option.splits)

lemma stmt_ctx_simps [simp]:
  "sc_now (stmt_ctx E s n) = s" "sc_gen (stmt_ctx E s n) = env_gen E n" "sc_uuid (stmt_ctx E s n) = env_uuid E"
  by (simp_all add: stmt_ctx_def)

lemma scanned_wallet_Inr:
  "scanned_wallet x = Inr w \<Longrightarrow> \<exists>r. x = Some r \<and> wr_currency r = BRL \<and> wal_id w = TrimSpace (wr_id r) \<and>
     wal_playerID w = TrimSpace (wr_player_id r) \<and> wal_providerID w = TrimSpace (wr_provider_id r) \<and>
     wal_currency w = BRL \<and> wal_balance w = \<lparr>money_amount = wr_balance r, money_currency = BRL\<rparr> \<and>
     wal_version w = wr_version r \<and> 0 \<le> sint (wr_balance r) \<and> wallet_ok w"
  by (auto simp: scanned_wallet_def wallet_of_row_def NewMoney_def Currency_Valid_def RehydrateWallet_def
      Let_def IsNegative_def wallet_ok_def cents_def split: option.splits if_splits)

text \<open>Rows of a wallet that the repository can read.\<close>

definition readable_wallet :: "wallet_row \<Rightarrow> bool" where
  "readable_wallet r \<longleftrightarrow> TrimSpace (wr_id r) \<noteq> '''' \<and> TrimSpace (wr_player_id r) \<noteq> '''' \<and>
     TrimSpace (wr_provider_id r) \<noteq> '''' \<and> wr_currency r = BRL \<and> 0 \<le> sint (wr_balance r) \<and>
     0 < sint (wr_version r) \<and> wr_created_at r \<noteq> zero_time \<and> wr_updated_at r \<noteq> zero_time \<and>
     wr_created_at r \<le> wr_updated_at r"

definition wallet_of :: "wallet_row \<Rightarrow> Wallet" where
  "wallet_of r = \<lparr>wal_id = TrimSpace (wr_id r), wal_playerID = TrimSpace (wr_player_id r),
     wal_providerID = TrimSpace (wr_provider_id r), wal_currency = BRL,
     wal_balance = \<lparr>money_amount = wr_balance r, money_currency = BRL\<rparr>, wal_version = wr_version r,
     wal_createdAt = wr_created_at r, wal_updatedAt = wr_updated_at r\<rparr>"

lemma wallet_of_row_Inr: "wallet_of_row r = Inr w \<longleftrightarrow> readable_wallet r \<and> w = wallet_of r"
  by (auto simp: wallet_of_row_def NewMoney_def Currency_Valid_def RehydrateWallet_def Let_def IsNegative_def
      readable_wallet_def wallet_of_def split: if_splits)

lemma sql_select_wallet_Inr:
  "sql_select_wallet i c d = Inr (x, d') \<longleftrightarrow>
     d' = d \<and> (\<exists>u. sc_uuid c i = Some u \<and> x = find (\<lambda>r. wr_id r = u) (db_wallets d))"
  by (auto simp: sql_select_wallet_def as_uuid_Inr)

lemma sql_update_balance_Inr:
  "sql_update_balance a i v c d = Inr (n, d') \<longleftrightarrow>
     (\<exists>u. sc_uuid c i = Some u \<and>
       (case find (\<lambda>r. wr_id r = u \<and> wr_version r = v) (db_wallets d) of
          None \<Rightarrow> n = 0 \<and> d' = d
        | Some r \<Rightarrow> n = 1 \<and> sint (wr_version r) \<noteq> MaxInt64 \<and>
            wallet_constraints (r\<lparr>wr_balance := a, wr_version := wr_version r + 1, wr_updated_at := sc_now c\<rparr>)
              (filter (\<lambda>x. wr_id x \<noteq> u) (db_wallets d)) = None \<and>
            d' = d\<lparr>db_wallets := replace_id wr_id u
              (r\<lparr>wr_balance := a, wr_version := wr_version r + 1, wr_updated_at := sc_now c\<rparr>) (db_wallets d)\<rparr>))"
proof (cases "sc_uuid c i")
  case None
  then show ?thesis by (simp add: sql_update_balance_def as_uuid_def)
next
  case (Some u)
  then show ?thesis
    by (cases "find (\<lambda>r. wr_id r = u \<and> wr_version r = v) (db_wallets d)")
      (auto simp: sql_update_balance_def as_uuid_def Let_def split: option.splits)
qed

lemma insert_tx_Inr:
  "insert_tx r c d = Inr (i, d') \<longleftrightarrow>
     i = tr_id r \<and> tx_constraints r (db_txs d) (db_wallets d) = None \<and> d' = d\<lparr>db_txs := db_txs d @ [r]\<rparr>"
  by (auto simp: insert_tx_def split: option.splits)

lemma insert_ledger_Inr:
  "insert_ledger r c d = Inr (i, d') \<longleftrightarrow>
     i = lr_id r \<and> ledger_constraints r (db_ledger d) (db_txs d) (db_wallets d) = None \<and>
     d' = d\<lparr>db_ledger := db_ledger d @ [r]\<rparr>"
  by (auto simp: insert_ledger_def split: option.splits)

lemma insert_outbox_Inr:
  "insert_outbox r c d = Inr (i, d') \<longleftrightarrow>
     outbox_constraints r (db_outbox d) = None \<and> d' = d\<lparr>db_outbox := db_outbox d @ [r]\<rparr>"
  by (auto simp: insert_outbox_def split: option.splits)

end
