(* ===== verification/Go_Time.thy ===== *)
theory Go_Time
  imports Prelude
begin

text \<open>
  The layout \<^verbatim>\<open>time.RFC3339Nano\<close> of the package \<^verbatim>\<open>time\<close>, which the ledger's page cursor uses:
  \<open>rfc3339_Format\<close> prints an instant in a zone given by its offset in seconds, \<open>rfc3339_Parse\<close>
  reads one. \<^verbatim>\<open>time.Parse\<close> also reads a comma before the fraction and an hour of one digit; every
  form it reads has the colons of the time of day.
\<close>

text \<open>The date of a day counted from 1970-01-01 (years of 400-year eras starting in March).\<close>

definition civil_of_days :: "int \<Rightarrow> int \<times> int \<times> int" where
  "civil_of_days z =
     (let z' = z + 719468; era = z' div 146097; doe = z' mod 146097;
          yoe = (doe - doe div 1460 + doe div 36524 - doe div 146096) div 365;
          doy = doe - (365 * yoe + yoe div 4 - yoe div 100);
          mp = (5 * doy + 2) div 153;
          day = doy - (153 * mp + 2) div 5 + 1;
          month = (if mp < 10 then mp + 3 else mp - 9);
          year = yoe + era * 400 + (if month \<le> 2 then 1 else 0)
      in (year, month, day))"

definition days_of_civil :: "int \<Rightarrow> int \<Rightarrow> int \<Rightarrow> int" where
  "days_of_civil year month day =
     (let y = (if month \<le> 2 then year - 1 else year); era = y div 400; yoe = y mod 400;
          mp = (if 2 < month then month - 3 else month + 9);
          doy = (153 * mp + 2) div 5 + day - 1;
          doe = yoe * 365 + yoe div 4 - yoe div 100 + doy
      in era * 146097 + doe - 719468)"

definition pad :: "nat \<Rightarrow> int \<Rightarrow> string" where
  "pad k n = (let s = nat_to_dec (nat n) in replicate (k - length s) CHR ''0'' @ s)"

text \<open>\<^verbatim>\<open>.999999999\<close>: no fraction if it is zero, else without trailing zeros.\<close>

definition fraction :: "int \<Rightarrow> string" where
  "fraction ns =
     (if ns = 0 then ''''
      else ''.'' @ rev (dropWhile (\<lambda>c. c = CHR ''0'') (rev (pad 9 ns))))"

definition zone_text :: "int \<Rightarrow> string" where
  "zone_text offset =
     (if offset = 0 then ''Z''
      else (let m = \<bar>offset\<bar> div 60 in
        (if offset < 0 then ''-'' else ''+'') @ pad 2 (m div 60) @ '':'' @ pad 2 (m mod 60)))"

definition rfc3339_Format :: "int \<Rightarrow> time \<Rightarrow> string" where
  "rfc3339_Format offset t =
     (let l = t + offset * 10 ^ 9; sec = l div 10 ^ 9; ns = l mod 10 ^ 9;
          (y, m, d) = civil_of_days (sec div 86400); s = sec mod 86400
      in pad 4 y @ ''-'' @ pad 2 m @ ''-'' @ pad 2 d @ ''T'' @ pad 2 (s div 3600) @ '':'' @
         pad 2 (s div 60 mod 60) @ '':'' @ pad 2 (s mod 60) @ fraction ns @ zone_text offset)"

definition num_at :: "nat \<Rightarrow> nat \<Rightarrow> string \<Rightarrow> int option" where
  "num_at i k s =
     (let t = take k (drop i s) in
      if length t = k \<and> list_all is_digit t then Some (int (dec_to_nat t)) else None)"

definition is_leap :: "int \<Rightarrow> bool" where
  "is_leap y \<longleftrightarrow> y mod 4 = 0 \<and> (y mod 100 \<noteq> 0 \<or> y mod 400 = 0)"

definition days_in :: "int \<Rightarrow> int \<Rightarrow> int" where
  "days_in y m = (if m = 2 then (if is_leap y then 29 else 28)
     else if m \<in> {4, 6, 9, 11} then 30 else 31)"

definition parse_zone :: "string \<Rightarrow> int option" where
  "parse_zone s =
     (if s = ''Z'' then Some 0
      else if length s = 6 \<and> (s ! 0 = CHR ''+'' \<or> s ! 0 = CHR ''-'') \<and> s ! 3 = CHR '':'' then
        (case (num_at 1 2 s, num_at 4 2 s) of
           (Some h, Some m) \<Rightarrow>
             if h \<le> 24 \<and> m < 60 then Some ((if s ! 0 = CHR ''-'' then - 1 else 1) * (h * 3600 + m * 60)) else None
         | _ \<Rightarrow> None)
      else None)"

text \<open>Nanoseconds and zone after the seconds.\<close>

definition parse_tail :: "string \<Rightarrow> (int \<times> int) option" where
  "parse_tail s =
     (case s of
        c # r \<Rightarrow>
          if c = CHR ''.'' \<and> takeWhile is_digit r \<noteq> [] then
            (let ds = takeWhile is_digit r in
             map_option (\<lambda>z. (int (dec_to_nat (take 9 (ds @ ''00000000''))), z)) (parse_zone (dropWhile is_digit r)))
          else map_option (\<lambda>z. (0, z)) (parse_zone s)
      | [] \<Rightarrow> None)"

definition rfc3339_Parse :: "string \<Rightarrow> time option" where
  "rfc3339_Parse s =
     (if 19 \<le> length s \<and> s ! 4 = CHR ''-'' \<and> s ! 7 = CHR ''-'' \<and> s ! 10 = CHR ''T'' \<and>
         s ! 13 = CHR '':'' \<and> s ! 16 = CHR '':'' then
        (case (num_at 0 4 s, num_at 5 2 s, num_at 8 2 s, num_at 11 2 s, num_at 14 2 s, num_at 17 2 s, parse_tail (drop 19 s)) of
           (Some y, Some mo, Some da, Some h, Some mi, Some se, Some (ns, z)) \<Rightarrow>
             if 1 \<le> mo \<and> mo \<le> 12 \<and> 1 \<le> da \<and> da \<le> days_in y mo \<and> h < 24 \<and> mi < 60 \<and> se < 60
             then Some ((days_of_civil y mo da * 86400 + h * 3600 + mi * 60 + se - z) * 10 ^ 9 + ns)
             else None
         | _ \<Rightarrow> None)
      else None)"

text \<open>\<^verbatim>\<open>strings.SplitN(s, sep, 2)\<close>\<close>

definition split_first :: "char \<Rightarrow> string \<Rightarrow> string list" where
  "split_first sep s =
     (if sep \<in> set s then [takeWhile (\<lambda>c. c \<noteq> sep) s, tl (dropWhile (\<lambda>c. c \<noteq> sep) s)] else [s])"

lemma rfc3339_Parse_colon: "rfc3339_Parse s = Some t \<Longrightarrow> CHR '':'' \<in> set s"
proof -
  assume "rfc3339_Parse s = Some t"
  then have "19 \<le> length s" and "s ! 13 = CHR '':''"
    by (auto simp: rfc3339_Parse_def split: if_splits)
  then show ?thesis using nth_mem [of 13 s] by simp
qed

text \<open>What stands before the first colon is never a time.\<close>

lemma split_first_not_a_time: "split_first CHR '':'' s = [a, b] \<Longrightarrow> rfc3339_Parse a = None"
  using rfc3339_Parse_colon [of a]
  by (cases "rfc3339_Parse a") (auto simp: split_first_def dest: set_takeWhileD split: if_splits)

end
