(* ===== verification/Ledger_Repository.thy ===== *)
theory Ledger_Repository
  imports Wallet_Repository Go_Time
begin

text \<open>
  \<^verbatim>\<open>internal/infra/db/ledger_repository.go\<close>: appending an entry, reading a wallet's entries page
  by page, and their signed sum. The lemmas say what the first page and the sum return, and
  that no page after the first can be read.
\<close>

section \<open>Statements\<close>

definition sql_insert_ledger_entry :: "LedgerEntry \<Rightarrow> unit sql" where
  "sql_insert_ledger_entry e =
     as_uuid (le_id e) (\<lambda>i. as_uuid (le_walletID e) (\<lambda>wid. as_uuid (le_transactionID e) (\<lambda>tid c d.
       map_sum (\<lambda>x. x) (\<lambda>(_, d'). ((), d'))
         (insert_ledger \<lparr>lr_id = i, lr_wallet_id = wid, lr_transaction_id = tid, lr_direction = le_direction e,
           lr_amount = money_amount (le_amount e), lr_currency = le_currency e,
           lr_balance_before = money_amount (le_balanceBefore e),
           lr_balance_after = money_amount (le_balanceAfter e), lr_created_at = pg_time (le_createdAt e)\<rparr> c d))))"

definition ledger_key :: "ledger_row \<Rightarrow> time \<times> string" where
  "ledger_key r = (lr_created_at r, lr_id r)"

definition ledger_of :: "string \<Rightarrow> db \<Rightarrow> ledger_row list" where
  "ledger_of u d = filter (\<lambda>r. lr_wallet_id r = u) (db_ledger d)"

text \<open>\<^verbatim>\<open>ORDER BY created_at ASC, id ASC LIMIT n\<close>\<close>

definition sql_select_ledger :: "string \<Rightarrow> int \<Rightarrow> ledger_row list sql" where
  "sql_select_ledger walletID n = as_uuid walletID (\<lambda>u c d.
     Inr (take (nat n) (sort_key ledger_key (ledger_of u d)), d))"

definition sql_select_ledger_after :: "string \<Rightarrow> time \<Rightarrow> string \<Rightarrow> int \<Rightarrow> ledger_row list sql" where
  "sql_select_ledger_after walletID cursorTime cursorID n =
     as_uuid walletID (\<lambda>u. as_uuid cursorID (\<lambda>i c d.
       Inr (take (nat n) (sort_key ledger_key
         (filter (\<lambda>r. (pg_time cursorTime, i) < ledger_key r) (ledger_of u d))), d)))"

definition ledger_sum :: "ledger_row list \<Rightarrow> int" where
  "ledger_sum rs =
     sum_list (map (\<lambda>r. if lr_direction r = CREDIT then sint (lr_amount r) else 0) rs) -
     sum_list (map (\<lambda>r. if lr_direction r = DEBIT then sint (lr_amount r) else 0) rs)"

text \<open>The sum is a \<^verbatim>\<open>numeric\<close>; scanning it into an \<open>int64\<close> fails out of range.\<close>

definition sql_sum_ledger :: "string \<Rightarrow> int64 sql" where
  "sql_sum_ledger walletID = as_uuid walletID (\<lambda>u c d.
     let s = ledger_sum (ledger_of u d)
     in if in_int64 s then Inr (of_int s, d) else Inl (Text ''can't scan into dest[0]''))"

section \<open>Repository\<close>

definition LedgerRepo_Create :: "env \<Rightarrow> LedgerEntry \<Rightarrow> unit go" where
  "LedgerRepo_Create E e =
     bind_err (pool_stmt E (sql_insert_ledger_entry e)) (Errorf ''insert ledger entry'') ok"

text \<open>\<^verbatim>\<open>bal, _ := money.NewMoney(...)\<close>\<close>

definition money_or_zero :: "int64 \<Rightarrow> Currency \<Rightarrow> Money" where
  "money_or_zero a c = (case NewMoney a c of Inl _ \<Rightarrow> no_money | Inr m \<Rightarrow> m)"

definition entry_of_row :: "ledger_row \<Rightarrow> gerr + LedgerEntry" where
  "entry_of_row r =
     (case RehydrateLedgerEntry (lr_id r) (lr_wallet_id r) (lr_transaction_id r) (lr_direction r)
         (money_or_zero (lr_amount r) (lr_currency r)) (money_or_zero (lr_balance_before r) (lr_currency r))
         (money_or_zero (lr_balance_after r) (lr_currency r)) (lr_created_at r) of
        Inl err \<Rightarrow> Inl (Errorf ''rehydrate ledger entry'' err)
      | Inr e \<Rightarrow> Inr e)"

fun entries_of_rows :: "ledger_row list \<Rightarrow> gerr + LedgerEntry list" where
  "entries_of_rows [] = Inr []"
| "entries_of_rows (r # rs) =
     (case entry_of_row r of
        Inl err \<Rightarrow> Inl err
      | Inr e \<Rightarrow> (case entries_of_rows rs of Inl err \<Rightarrow> Inl err | Inr es \<Rightarrow> Inr (e # es)))"

text \<open>The part after the query: the page and the cursor of the next one.\<close>

definition ledger_page :: "env \<Rightarrow> int \<Rightarrow> LedgerEntry list \<Rightarrow> LedgerEntry list \<times> string" where
  "ledger_page E limit entries =
     (if limit < int (length entries) then
        (let page = take (nat limit) entries; l = last page
         in (page, rfc3339_Format (env_zone E (le_createdAt l)) (le_createdAt l) @ '':'' @ le_id l))
      else (entries, ''''))"

text \<open>
  In the branch for a cursor the error of the query is assigned to a variable of that branch and
  never looked at; the rows are then empty.
\<close>

definition LedgerRepo_FindByWalletID :: "env \<Rightarrow> string \<Rightarrow> string \<Rightarrow> int \<Rightarrow> (LedgerEntry list \<times> string) go" where
  "LedgerRepo_FindByWalletID E walletID cursor limit0 =
     (let limit = (if limit0 \<le> 0 then 50 else limit0);
          scan = (\<lambda>rows. case entries_of_rows rows of
                     Inl err \<Rightarrow> fail err
                   | Inr entries \<Rightarrow> ok (ledger_page E limit entries))
      in if cursor = '''' then
           bind_err (pool_rows E (sql_select_ledger walletID (limit + 1))) (Errorf ''query ledger entries'') scan
         else
           (case split_first CHR '':'' cursor of
              [timeText, cursorID] \<Rightarrow>
                (case rfc3339_Parse timeText of
                   None \<Rightarrow> fail (Errorf ''parse cursor time'' (Text ''parsing time''))
                 | Some cursorTime \<Rightarrow> do {
                     rows \<leftarrow> pool_rows E (sql_select_ledger_after walletID cursorTime cursorID (limit + 1));
                     scan (case rows of Inl _ \<Rightarrow> [] | Inr rs \<Rightarrow> rs)
                   })
            | _ \<Rightarrow> fail (Text ''invalid cursor format'')))"

definition LedgerRepo_SumByWalletID :: "env \<Rightarrow> string \<Rightarrow> int64 go" where
  "LedgerRepo_SumByWalletID E walletID =
     bind_err (pool_stmt E (sql_sum_ledger walletID)) (Errorf ''sum ledger entries'') ok"

section \<open>Lemmas\<close>

lemma ledger_sum_simps [simp]:
  "ledger_sum [] = 0"
  "ledger_sum (r # rs) = ledger_sum rs + signed (lr_direction r) (sint (lr_amount r))"
  "ledger_sum (rs @ rs') = ledger_sum rs + ledger_sum rs'"
  by (cases "lr_direction r"; simp add: ledger_sum_def signed_def)+

lemma cursor_page_fails:
  "cursor \<noteq> '''' \<Longrightarrow> \<exists>e. LedgerRepo_FindByWalletID E walletID cursor limit = fail e"
  by (auto simp: LedgerRepo_FindByWalletID_def Let_def split_first_not_a_time split: list.splits)

end
