(* ===== verification/Transaction_Repository.thy ===== *)
theory Transaction_Repository
  imports Wallet_Repository
begin

text \<open>
  \<^verbatim>\<open>internal/infra/db/wager_transaction_repository.go\<close> and \<^verbatim>\<open>inbox_outbox_repository.go\<close>: the
  statements on \<^verbatim>\<open>wager_transactions\<close>, \<^verbatim>\<open>inbox_messages\<close> and \<^verbatim>\<open>outbox_events\<close> and the methods around
  them. The lemmas characterise successful statements and show that reading back a row that
  was written from a transaction gives the transaction again.
\<close>

section \<open>Statements on wager\_transactions\<close>

definition sql_select_tx :: "(tx_row \<Rightarrow> bool) \<Rightarrow> tx_row option sql" where
  "sql_select_tx p c d = Inr (find p (db_txs d), d)"

definition sql_select_tx_by_id :: "string \<Rightarrow> tx_row option sql" where
  "sql_select_tx_by_id i = as_uuid i (\<lambda>u. sql_select_tx (\<lambda>r. tr_id r = u))"

definition sql_select_tx_by_external :: "string \<Rightarrow> string \<Rightarrow> tx_row option sql" where
  "sql_select_tx_by_external provider externalID =
     sql_select_tx (\<lambda>r. tr_provider r = Some provider \<and> tr_external_id r = Some externalID)"

definition sql_select_tx_by_key :: "string \<Rightarrow> string \<Rightarrow> tx_row option sql" where
  "sql_select_tx_by_key provider key =
     sql_select_tx (\<lambda>r. tr_provider r = Some provider \<and> tr_idempotency_key r = Some key)"

definition set_status :: "TransactionStatus \<Rightarrow> string option \<Rightarrow> time \<Rightarrow> tx_row \<Rightarrow> tx_row" where
  "set_status st fc now r =
     r\<lparr>tr_status := st, tr_failure_code := fc, tr_updated_at := now,
       tr_processed_at := (if st = PROCESSED then Some now else tr_processed_at r)\<rparr>"

definition sql_update_status :: "TransactionStatus \<Rightarrow> string option \<Rightarrow> string \<Rightarrow> nat sql" where
  "sql_update_status st fc i = as_uuid i (\<lambda>u. update_tx u (\<lambda>c r. Inr (set_status st fc (sc_now c) r)))"

definition set_reference :: "string \<Rightarrow> time \<Rightarrow> tx_row \<Rightarrow> tx_row" where
  "set_reference ref now r = r\<lparr>tr_internal_reference := Some ref, tr_updated_at := now\<rparr>"

definition sql_set_internal_reference :: "string \<Rightarrow> string \<Rightarrow> nat sql" where
  "sql_set_internal_reference ref i = as_uuid i (\<lambda>u. update_tx u (\<lambda>c r. Inr (set_reference ref (sc_now c) r)))"

text \<open>
  \<^verbatim>\<open>ref_next_attempt_at = now() + (2 ^ least(ref_attempts + 1, 6) || ' seconds')::interval\<close>; the
  attempts are an \<^verbatim>\<open>integer\<close>.
\<close>

definition next_attempt :: "time \<Rightarrow> tx_row \<Rightarrow> tx_row" where
  "next_attempt now r =
     r\<lparr>tr_ref_attempts := tr_ref_attempts r + 1,
       tr_ref_next_attempt_at := Some (now + seconds (2 ^ nat (min (tr_ref_attempts r + 1) 6))),
       tr_updated_at := now\<rparr>"

definition sql_increment_ref_attempts :: "string \<Rightarrow> nat sql" where
  "sql_increment_ref_attempts i = as_uuid i (\<lambda>u. update_tx u (\<lambda>c r.
     if tr_ref_attempts r = 2 ^ 31 - 1 then Inl (out_of_range ''integer'') else Inr (next_attempt (sc_now c) r)))"

text \<open>\<^verbatim>\<open>WHERE status = 'PENDING' ORDER BY created_at ASC LIMIT $1\<close>\<close>

definition sql_select_pending :: "int \<Rightarrow> tx_row list sql" where
  "sql_select_pending n c d =
     Inr (take (nat n) (sort_key tr_created_at (filter (\<lambda>r. tr_status r = PENDING) (db_txs d))), d)"

definition due_reference :: "time \<Rightarrow> tx_row \<Rightarrow> bool" where
  "due_reference now r \<longleftrightarrow> tr_status r = PENDING_REFERENCE \<and>
     (case tr_ref_next_attempt_at r of None \<Rightarrow> True | Some t \<Rightarrow> t \<le> now)"

definition sql_select_pending_references :: "int \<Rightarrow> tx_row list sql" where
  "sql_select_pending_references n c d =
     Inr (take (nat n) (sort_key tr_created_at (filter (due_reference (sc_now c)) (db_txs d))), d)"

definition sql_count_reversals :: "string \<Rightarrow> nat sql" where
  "sql_count_reversals ref c d = Inr (length (filter (\<lambda>r. reversal_of r = Some ref) (db_txs d)), d)"

definition sql_external_exists :: "string \<Rightarrow> string \<Rightarrow> string option \<Rightarrow> bool sql" where
  "sql_external_exists provider externalID key c d =
     Inr (list_ex (\<lambda>r. tr_provider r = Some provider \<and> tr_external_id r = Some externalID \<and>
       tr_idempotency_key r \<noteq> key) (db_txs d), d)"

definition sql_select_status :: "string \<Rightarrow> TransactionStatus option sql" where
  "sql_select_status i = as_uuid i (\<lambda>u c d.
     Inr (map_option tr_status (find (\<lambda>r. tr_id r = u) (db_txs d)), d))"

definition row_of_tx :: "string \<Rightarrow> string \<Rightarrow> string \<Rightarrow> Transaction \<Rightarrow> tx_row" where
  "row_of_tx i wid pid t =
     \<lparr>tr_id = i, tr_origin = tx_origin t, tr_external_id = nullString (tx_externalID t),
      tr_provider = nullString (tx_provider t), tr_idempotency_key = nullString (tx_idempotencyKey t),
      tr_payload_hash = nullString (tx_payloadHash t), tr_wallet_id = wid, tr_player_id = pid,
      tr_round_id = nullString (tx_roundID t), tr_game_id = nullString (tx_gameID t),
      tr_transaction_type = tx_transactionType t, tr_amount = money_amount (tx_amount t),
      tr_currency = money_currency (tx_amount t),
      tr_external_reference = nullString (tx_externalReference t),
      tr_internal_reference = nullString (tx_internalReference t), tr_status = tx_status t,
      tr_failure_code = nullString (tx_failureCode t), tr_ref_attempts = 0,
      tr_ref_next_attempt_at = None, tr_result_balance = map_option money_amount (tx_resultBalance t),
      tr_created_at = pg_time (tx_createdAt t), tr_updated_at = pg_time (tx_updatedAt t),
      tr_processed_at = map_option pg_time (tx_processedAt t)\<rparr>"

definition sql_insert_tx :: "Transaction \<Rightarrow> string sql" where
  "sql_insert_tx t = as_uuid (tx_walletID t) (\<lambda>wid. as_uuid (tx_playerID t) (\<lambda>pid c d.
     insert_tx (row_of_tx (sc_gen c d) wid pid t) c d))"

section \<open>Transaction repository\<close>

text \<open>\<^verbatim>\<open>scanTransaction\<close>\<close>

definition tx_of_row :: "tx_row \<Rightarrow> gerr + Transaction" where
  "tx_of_row r =
     (case NewMoney (tr_amount r) (tr_currency r) of
        Inl err \<Rightarrow> Inl (Errorf ''parse transaction amount'' (money_err err))
      | Inr bal \<Rightarrow>
          let t = RehydrateTransaction (tr_id r) (tr_origin r) (coalesce (tr_external_id r))
                (coalesce (tr_provider r)) (coalesce (tr_idempotency_key r)) (coalesce (tr_payload_hash r))
                (tr_wallet_id r) (tr_player_id r) (coalesce (tr_round_id r)) (coalesce (tr_game_id r))
                (tr_transaction_type r) bal (coalesce (tr_external_reference r))
                (coalesce (tr_internal_reference r)) (tr_status r) (coalesce (tr_failure_code r))
                (tr_ref_attempts r) (tr_ref_next_attempt_at r) (tr_created_at r) (tr_updated_at r)
                (tr_processed_at r)
          in case tr_result_balance r of
               None \<Rightarrow> Inr t
             | Some b \<Rightarrow>
                 (case NewMoney b (tr_currency r) of
                    Inl err \<Rightarrow> Inl (Errorf ''parse result balance'' (money_err err))
                  | Inr rb \<Rightarrow> Inr (SetResultBalance rb t)))"

definition scanTransaction :: "tx_row option \<Rightarrow> gerr + Transaction" where
  "scanTransaction x =
     (case x of None \<Rightarrow> Inl (wager_err Wager_ErrTransactionNotFound) | Some r \<Rightarrow> tx_of_row r)"

text \<open>\<^verbatim>\<open>scanTransactions\<close>\<close>

fun scanTransactions :: "tx_row list \<Rightarrow> gerr + Transaction list" where
  "scanTransactions [] = Inr []"
| "scanTransactions (r # rs) =
     (case tx_of_row r of
        Inl err \<Rightarrow> Inl err
      | Inr t \<Rightarrow> (case scanTransactions rs of Inl err \<Rightarrow> Inl err | Inr ts \<Rightarrow> Inr (t # ts)))"

definition TxRepo_FindByID :: "env \<Rightarrow> string \<Rightarrow> Transaction go" where
  "TxRepo_FindByID E i =
     bind_err (pool_stmt E (sql_select_tx_by_id i)) (Errorf ''scan transaction'') (\<lambda>x. ret (scanTransaction x))"

definition TxRepo_FindByProviderAndExternalID :: "env \<Rightarrow> string \<Rightarrow> string \<Rightarrow> Transaction go" where
  "TxRepo_FindByProviderAndExternalID E providerID externalID =
     bind_err (pool_stmt E (sql_select_tx_by_external providerID externalID)) (Errorf ''scan transaction'')
       (\<lambda>x. ret (scanTransaction x))"

definition TxRepo_FindByIdempotencyKey :: "env \<Rightarrow> string \<Rightarrow> string \<Rightarrow> Transaction go" where
  "TxRepo_FindByIdempotencyKey E provider key =
     bind_err (pool_stmt E (sql_select_tx_by_key provider key)) (Errorf ''scan transaction'')
       (\<lambda>x. ret (scanTransaction x))"

definition TxRepo_UpdateStatus :: "env \<Rightarrow> string \<Rightarrow> TransactionStatus \<Rightarrow> string \<Rightarrow> unit go" where
  "TxRepo_UpdateStatus E i st failureCode =
     bind_err (pool_stmt E (sql_update_status st (nullString failureCode) i))
       (Errorf ''update transaction status'') (\<lambda>_. ok ())"

definition TxRepo_SetInternalReference :: "env \<Rightarrow> string \<Rightarrow> string \<Rightarrow> unit go" where
  "TxRepo_SetInternalReference E i ref =
     bind_err (pool_stmt E (sql_set_internal_reference ref i)) (Errorf ''set internal reference'') (\<lambda>_. ok ())"

definition TxRepo_SetInternalReferenceTx :: "env \<Rightarrow> nat \<Rightarrow> string \<Rightarrow> string \<Rightarrow> unit go" where
  "TxRepo_SetInternalReferenceTx E t i ref =
     bind_err (tx_stmt E t (sql_set_internal_reference ref i)) (Errorf ''set internal reference'') (\<lambda>_. ok ())"

definition limit_or_10 :: "int \<Rightarrow> int" where
  "limit_or_10 limit = (if limit \<le> 0 then 10 else limit)"

definition TxRepo_FindPending :: "env \<Rightarrow> int \<Rightarrow> Transaction list go" where
  "TxRepo_FindPending E limit =
     bind_err (pool_rows E (sql_select_pending (limit_or_10 limit)))
       (Errorf ''query pending transactions'') (\<lambda>rs. ret (scanTransactions rs))"

definition TxRepo_FindPendingReferences :: "env \<Rightarrow> int \<Rightarrow> Transaction list go" where
  "TxRepo_FindPendingReferences E limit =
     bind_err (pool_rows E (sql_select_pending_references (limit_or_10 limit)))
       (Errorf ''query pending reference transactions'') (\<lambda>rs. ret (scanTransactions rs))"

definition TxRepo_HasSuccessfulReversal :: "env \<Rightarrow> string \<Rightarrow> bool go" where
  "TxRepo_HasSuccessfulReversal E ref =
     bind_err (pool_stmt E (sql_count_reversals ref)) (Errorf ''check successful reversal'') (\<lambda>n. ok (0 < n))"

definition TxRepo_IncrementRefAttempts :: "env \<Rightarrow> string \<Rightarrow> unit go" where
  "TxRepo_IncrementRefAttempts E i =
     bind_err (pool_stmt E (sql_increment_ref_attempts i)) (Errorf ''increment ref attempts'') (\<lambda>_. ok ())"

definition TxRepo_IncrementRefAttemptsTx :: "env \<Rightarrow> nat \<Rightarrow> string \<Rightarrow> unit go" where
  "TxRepo_IncrementRefAttemptsTx E t i =
     bind_err (tx_stmt E t (sql_increment_ref_attempts i)) (Errorf ''increment ref attempts'') (\<lambda>_. ok ())"

definition TxRepo_ExternalTransactionExists :: "env \<Rightarrow> string \<Rightarrow> string \<Rightarrow> string \<Rightarrow> bool go" where
  "TxRepo_ExternalTransactionExists E provider externalID key =
     bind_err (pool_stmt E (sql_external_exists provider externalID (nullString key)))
       (Errorf ''check external transaction exists'') ok"

text \<open>An error of this query, also a missing row, counts as not claimed.\<close>

definition TxRepo_ClaimPendingReferenceTx :: "env \<Rightarrow> nat \<Rightarrow> string \<Rightarrow> bool go" where
  "TxRepo_ClaimPendingReferenceTx E t i = do {
     r \<leftarrow> tx_stmt E t (sql_select_status i);
     (case r of
        Inr (Some status) \<Rightarrow> ok (status = PENDING_REFERENCE)
      | _ \<Rightarrow> ok False)
   }"

definition TxRepo_CreateTransactionTx :: "env \<Rightarrow> nat \<Rightarrow> Transaction \<Rightarrow> string go" where
  "TxRepo_CreateTransactionTx E t tx =
     bind_err (tx_stmt E t (sql_insert_tx tx)) (Errorf ''insert transaction'') ok"

definition TxRepo_UpdateStatusTx :: "env \<Rightarrow> nat \<Rightarrow> string \<Rightarrow> TransactionStatus \<Rightarrow> string \<Rightarrow> unit go" where
  "TxRepo_UpdateStatusTx E t i st failureCode =
     bind_err (tx_stmt E t (sql_update_status st (nullString failureCode) i))
       (Errorf ''update transaction status'') (\<lambda>_. ok ())"

definition TxRepo_CreateOutboxEventTx :: "env \<Rightarrow> nat \<Rightarrow> string \<Rightarrow> string \<Rightarrow> string \<Rightarrow> payload \<Rightarrow> unit go" where
  "TxRepo_CreateOutboxEventTx E t aggregateType aggregateID eventType p =
     bind_err (tx_stmt E t (sql_insert_outbox aggregateType aggregateID eventType p))
       (Errorf ''insert outbox event'') ok"

definition TxRepo_CreateWalletLedgerEntryTx ::
  "env \<Rightarrow> nat \<Rightarrow> string \<Rightarrow> string \<Rightarrow> Direction \<Rightarrow> int64 \<Rightarrow> Currency \<Rightarrow> int64 \<Rightarrow> int64 \<Rightarrow> string go" where
  "TxRepo_CreateWalletLedgerEntryTx E t walletID transactionID dir amount cur b0 b1 =
     bind_err (tx_stmt E t (sql_insert_ledger walletID transactionID dir amount cur b0 b1))
       (Errorf ''insert ledger entry'') ok"

section \<open>Inbox\<close>

text \<open>\<^verbatim>\<open>INSERT INTO inbox_messages ... ON CONFLICT (consumer_name, message_id) DO NOTHING\<close>\<close>

definition sql_insert_inbox :: "string \<Rightarrow> string \<Rightarrow> string \<Rightarrow> nat sql" where
  "sql_insert_inbox consumer messageID payloadHash c d =
     (if list_ex (\<lambda>r. ir_consumer_name r = consumer \<and> ir_message_id r = messageID) (db_inbox d)
      then Inr (0, d)
      else Inr (1, d\<lparr>db_inbox := db_inbox d @ [\<lparr>ir_consumer_name = consumer, ir_message_id = messageID,
             ir_payload_hash = payloadHash, ir_received_at = sc_now c, ir_completed_at = None\<rparr>]\<rparr>))"

definition sql_complete_inbox :: "string \<Rightarrow> string \<Rightarrow> unit sql" where
  "sql_complete_inbox consumer messageID c d =
     Inr ((), d\<lparr>db_inbox := map (\<lambda>r.
       if ir_consumer_name r = consumer \<and> ir_message_id r = messageID \<and> ir_completed_at r = None
       then r\<lparr>ir_completed_at := Some (sc_now c)\<rparr> else r) (db_inbox d)\<rparr>)"

definition InboxRepo_RecordReceived :: "env \<Rightarrow> string \<Rightarrow> string \<Rightarrow> string \<Rightarrow> bool go" where
  "InboxRepo_RecordReceived E consumer messageID payloadHash =
     bind_err (pool_stmt E (sql_insert_inbox consumer messageID payloadHash)) (Errorf ''insert inbox message'')
       (\<lambda>n. ok (0 < n))"

definition InboxRepo_MarkCompleted :: "env \<Rightarrow> string \<Rightarrow> string \<Rightarrow> unit go" where
  "InboxRepo_MarkCompleted E consumer messageID =
     bind_err (pool_stmt E (sql_complete_inbox consumer messageID)) (Errorf ''mark inbox completed'') ok"

definition InboxRepo_RecordReceivedTx :: "env \<Rightarrow> nat \<Rightarrow> string \<Rightarrow> string \<Rightarrow> string \<Rightarrow> bool go" where
  "InboxRepo_RecordReceivedTx E t consumer messageID payloadHash =
     bind_err (tx_stmt E t (sql_insert_inbox consumer messageID payloadHash)) (Errorf ''insert inbox message'')
       (\<lambda>n. ok (0 < n))"

definition InboxRepo_MarkCompletedTx :: "env \<Rightarrow> nat \<Rightarrow> string \<Rightarrow> string \<Rightarrow> unit go" where
  "InboxRepo_MarkCompletedTx E t consumer messageID =
     bind_err (tx_stmt E t (sql_complete_inbox consumer messageID)) (Errorf ''mark inbox completed'') ok"

section \<open>Outbox\<close>

record OutboxEvent =
  oe_ID :: string
  oe_AggregateType :: string
  oe_AggregateID :: string
  oe_EventType :: string
  oe_Payload :: payload
  oe_Attempts :: int

definition sql_insert_outbox_id :: "OutboxEvent \<Rightarrow> unit sql" where
  "sql_insert_outbox_id ev = as_uuid (oe_ID ev) (\<lambda>i. as_uuid (oe_AggregateID ev) (\<lambda>u c d.
     case oe_Payload ev of
       None \<Rightarrow> Inl (null_violation ''outbox_events'' ''payload'')
     | Some p \<Rightarrow>
         insert_outbox \<lparr>or_id = i, or_aggregate_type = oe_AggregateType ev, or_aggregate_id = u,
           or_event_type = oe_EventType ev, or_payload = p, or_occurred_at = sc_now c, or_published_at = None,
           or_attempts = 0, or_next_attempt_at = sc_now c, or_last_error = None\<rparr> c d))"

definition due_event :: "time \<Rightarrow> outbox_row \<Rightarrow> bool" where
  "due_event now r \<longleftrightarrow> or_published_at r = None \<and> or_next_attempt_at r \<le> now"

definition sql_select_outbox :: "int \<Rightarrow> outbox_row list sql" where
  "sql_select_outbox n c d =
     Inr (take (nat n) (sort_key or_next_attempt_at (filter (due_event (sc_now c)) (db_outbox d))), d)"

definition update_outbox :: "string \<Rightarrow> (outbox_row \<Rightarrow> outbox_row) \<Rightarrow> db \<Rightarrow> db" where
  "update_outbox u f d = d\<lparr>db_outbox := map (\<lambda>r. if or_id r = u then f r else r) (db_outbox d)\<rparr>"

definition sql_publish_outbox :: "string \<Rightarrow> unit sql" where
  "sql_publish_outbox i = as_uuid i (\<lambda>u c d.
     Inr ((), update_outbox u (\<lambda>r. r\<lparr>or_published_at := Some (sc_now c)\<rparr>) d))"

definition sql_retry_outbox :: "string \<Rightarrow> int \<Rightarrow> string \<Rightarrow> unit sql" where
  "sql_retry_outbox lastError delay i = as_uuid i (\<lambda>u c d.
     if list_ex (\<lambda>r. or_id r = u \<and> or_attempts r = 2 ^ 31 - 1) (db_outbox d) then Inl (out_of_range ''integer'')
     else Inr ((), update_outbox u (\<lambda>r. r\<lparr>or_attempts := or_attempts r + 1, or_last_error := Some lastError,
       or_next_attempt_at := sc_now c + delay\<rparr>) d))"

definition sql_select_attempts :: "string \<Rightarrow> int option sql" where
  "sql_select_attempts i = as_uuid i (\<lambda>u c d.
     Inr (map_option or_attempts (find (\<lambda>r. or_id r = u) (db_outbox d)), d))"

text \<open>The loop of \<^verbatim>\<open>CreateEvents\<close> stops at the first error; the events before it stay.\<close>

fun OutboxRepo_CreateEvents :: "env \<Rightarrow> OutboxEvent list \<Rightarrow> unit go" where
  "OutboxRepo_CreateEvents E [] = ok ()"
| "OutboxRepo_CreateEvents E (ev # evs) =
     bind_err (pool_stmt E (sql_insert_outbox_id ev)) (Errorf ''insert outbox event'')
       (\<lambda>_. OutboxRepo_CreateEvents E evs)"

definition event_of_row :: "outbox_row \<Rightarrow> OutboxEvent" where
  "event_of_row r = \<lparr>oe_ID = or_id r, oe_AggregateType = or_aggregate_type r, oe_AggregateID = or_aggregate_id r,
     oe_EventType = or_event_type r, oe_Payload = Some (or_payload r), oe_Attempts = or_attempts r\<rparr>"

definition OutboxRepo_FindPending :: "env \<Rightarrow> int \<Rightarrow> OutboxEvent list go" where
  "OutboxRepo_FindPending E limit =
     bind_err (pool_rows E (sql_select_outbox (limit_or_10 limit)))
       (Errorf ''query pending outbox events'') (\<lambda>rs. ok (map event_of_row rs))"

definition OutboxRepo_MarkPublished :: "env \<Rightarrow> string \<Rightarrow> unit go" where
  "OutboxRepo_MarkPublished E i =
     bind_err (pool_stmt E (sql_publish_outbox i)) (Errorf ''mark outbox published'') ok"

text \<open>\<^verbatim>\<open>getAttempts\<close> drops the error, also that of a missing row: 0 attempts.\<close>

definition OutboxRepo_getAttempts :: "env \<Rightarrow> string \<Rightarrow> int eff" where
  "OutboxRepo_getAttempts E i = do {
     r \<leftarrow> pool_stmt E (sql_select_attempts i);
     ret (case r of Inr (Some n) \<Rightarrow> n | _ \<Rightarrow> 0)
   }"

definition OutboxRepo_IncrementAttempts :: "env \<Rightarrow> string \<Rightarrow> string \<Rightarrow> unit go" where
  "OutboxRepo_IncrementAttempts E i lastError = do {
     attempts \<leftarrow> OutboxRepo_getAttempts E i;
     bind_err (pool_stmt E (sql_retry_outbox lastError (seconds (push_bit (nat (min attempts 5)) 1)) i))
       (Errorf ''increment outbox attempts'') ok
   }"

section \<open>Lemmas\<close>

lemma coalesce_nullString [simp]: "coalesce (nullString s) = s"
  by (simp add: coalesce_def nullString_def)

lemma nullString_Some: "nullString s = Some t \<longleftrightarrow> s = t \<and> t \<noteq> ''''"
  by (auto simp: nullString_def)

lemma update_tx_Inr:
  "update_tx u f c d = Inr (n, d') \<longleftrightarrow>
     (find (\<lambda>r. tr_id r = u) (db_txs d) = None \<and> n = 0 \<and> d' = d) \<or>
     (\<exists>r r'. find (\<lambda>r. tr_id r = u) (db_txs d) = Some r \<and> f c r = Inr r' \<and> n = 1 \<and>
       tx_constraints r' (filter (\<lambda>x. tr_id x \<noteq> u) (db_txs d)) (db_wallets d) = None \<and>
       d' = d\<lparr>db_txs := replace_id tr_id u r' (db_txs d)\<rparr>)"
  by (cases "find (\<lambda>r. tr_id r = u) (db_txs d)") (auto simp: update_tx_def split: sum.splits option.splits)

text \<open>\<^verbatim>\<open>SELECT\<close> statements leave the tables as they are.\<close>

lemma select_only:
  "sql_select_tx_by_id i c d = Inr (a1, d') \<Longrightarrow> d' = d"
  "sql_select_tx_by_external p e c d = Inr (a1, d') \<Longrightarrow> d' = d"
  "sql_select_tx_by_key p e c d = Inr (a1, d') \<Longrightarrow> d' = d"
  "sql_count_reversals p c d = Inr (a2, d') \<Longrightarrow> d' = d"
  "sql_external_exists p e k c d = Inr (a3, d') \<Longrightarrow> d' = d"
  "sql_select_status i c d = Inr (a4, d') \<Longrightarrow> d' = d"
  "sql_select_wallet i c d = Inr (a5, d') \<Longrightarrow> d' = d"
  "sql_select_wallet_by_player i cu pr c d = Inr (a5, d') \<Longrightarrow> d' = d"
  by (auto simp: sql_select_tx_by_id_def sql_select_tx_by_external_def sql_select_tx_by_key_def sql_select_tx_def
      sql_count_reversals_def sql_external_exists_def sql_select_status_def sql_select_wallet_def
      sql_select_wallet_by_player_def as_uuid_Inr)

lemma tx_of_row_Inr:
  "tx_of_row r = Inr t \<Longrightarrow> tr_currency r = BRL \<and>
     t = RehydrateTransaction (tr_id r) (tr_origin r) (coalesce (tr_external_id r))
       (coalesce (tr_provider r)) (coalesce (tr_idempotency_key r)) (coalesce (tr_payload_hash r))
       (tr_wallet_id r) (tr_player_id r) (coalesce (tr_round_id r)) (coalesce (tr_game_id r))
       (tr_transaction_type r) \<lparr>money_amount = tr_amount r, money_currency = BRL\<rparr>
       (coalesce (tr_external_reference r)) (coalesce (tr_internal_reference r)) (tr_status r)
       (coalesce (tr_failure_code r)) (tr_ref_attempts r) (tr_ref_next_attempt_at r) (tr_created_at r)
       (tr_updated_at r) (tr_processed_at r)
       \<lparr>tx_resultBalance := map_option (\<lambda>b. \<lparr>money_amount = b, money_currency = BRL\<rparr>) (tr_result_balance r)\<rparr>"
  by (auto simp: tx_of_row_def NewMoney_def Currency_Valid_def Let_def SetResultBalance_def
      RehydrateTransaction_def split: if_splits option.splits)

lemma tx_of_row_BRL: "tr_currency r = BRL \<Longrightarrow> \<exists>t. tx_of_row r = Inr t"
  by (auto simp: tx_of_row_def NewMoney_def Currency_Valid_def Let_def split: option.splits)

section \<open>Properties\<close>

text \<open>
  C36: a transaction written by \<^verbatim>\<open>CreateTransactionTx\<close> is read back by \<^verbatim>\<open>scanTransaction\<close> as it was,
  but for the identifiers the server assigned or normalised, the retry columns, which start
  afresh, and time stamps cut to the microsecond.
\<close>

theorem transaction_row_roundtrip:
  assumes "money_currency (tx_amount t) = BRL"
    and "\<And>b. tx_resultBalance t = Some b \<Longrightarrow> money_currency b = BRL"
  shows "scanTransaction (Some (row_of_tx i wid pid t)) =
    Inr (t\<lparr>tx_id := i, tx_walletID := wid, tx_playerID := pid, tx_refAttempts := 0, tx_refNextAttemptAt := None,
      tx_createdAt := pg_time (tx_createdAt t), tx_updatedAt := pg_time (tx_updatedAt t),
      tx_processedAt := map_option pg_time (tx_processedAt t)\<rparr>)"
proof (cases "tx_resultBalance t")
  case None
  then show ?thesis
    using assms(1)
    by (cases t) (auto simp: scanTransaction_def tx_of_row_def row_of_tx_def NewMoney_def Currency_Valid_def Let_def
        RehydrateTransaction_def)
next
  case (Some b)
  then show ?thesis
    using assms(1) assms(2) [OF Some]
    by (cases t; cases b) (auto simp: scanTransaction_def tx_of_row_def row_of_tx_def NewMoney_def Currency_Valid_def Let_def
        RehydrateTransaction_def SetResultBalance_def)
qed

theorem transaction_row_roundtrip_witness:
  "scanTransaction (Some (row_of_tx ''i1'' ''w1'' ''p1'' sample_bet)) =
     Inr (sample_bet\<lparr>tx_id := ''i1'', tx_createdAt := 0, tx_updatedAt := 0\<rparr>)"
proof -
  have s: "sample_bet = projr (NewExternalTransaction 7 '''' ''prov'' ''ext-1'' ''key-1'' ''h'' ''w1'' ''p1'' ''r1'' ''g1''
     BET \<lparr>money_amount = 500, money_currency = BRL\<rparr> '''')"
    by (rule sample_bet_def)
  have "scanTransaction (Some (row_of_tx ''i1'' ''w1'' ''p1'' sample_bet)) =
    Inr (sample_bet\<lparr>tx_id := ''i1'', tx_walletID := ''w1'', tx_playerID := ''p1'', tx_refAttempts := 0,
      tx_refNextAttemptAt := None, tx_createdAt := pg_time (tx_createdAt sample_bet),
      tx_updatedAt := pg_time (tx_updatedAt sample_bet),
      tx_processedAt := map_option pg_time (tx_processedAt sample_bet)\<rparr>)"
    by (rule transaction_row_roundtrip)
      (auto simp: s NewExternalTransaction_def IsNegative_def IsZero_def)
  then show ?thesis
    by (simp add: s NewExternalTransaction_def IsNegative_def IsZero_def pg_time_def)
qed

end
