(* ===== verification/Ledger_Machine.thy ===== *)
theory Ledger_Machine
  imports Ledger_Repository Transaction_Repository
begin

text \<open>
  What the services promise about the database, apart from how they do it: the relation
  \<open>db_step\<close> lists the changes of the tables that the program makes atomically (open a wallet,
  book a movement with its transaction, record a transaction without a movement, settle,
  dismiss or postpone a parked one, and the upkeep of inbox and outbox). The invariants of the
  tables are proved here once, by cases on \<open>db_step\<close>; the services refine it.
\<close>

section \<open>Changes of the tables\<close>

definition with_balance :: "wallet_row \<Rightarrow> int64 \<Rightarrow> time \<Rightarrow> wallet_row" where
  "with_balance r b now = r\<lparr>wr_balance := b, wr_version := wr_version r + 1, wr_updated_at := now\<rparr>"

definition add_wallet :: "wallet_row \<Rightarrow> db \<Rightarrow> db" where
  "add_wallet r d = d\<lparr>db_wallets := db_wallets d @ [r]\<rparr>"

definition set_wallet :: "string \<Rightarrow> wallet_row \<Rightarrow> db \<Rightarrow> db" where
  "set_wallet u r d = d\<lparr>db_wallets := replace_id wr_id u r (db_wallets d)\<rparr>"

definition add_tx :: "tx_row \<Rightarrow> db \<Rightarrow> db" where
  "add_tx r d = d\<lparr>db_txs := db_txs d @ [r]\<rparr>"

definition set_tx_row :: "tx_row \<Rightarrow> db \<Rightarrow> db" where
  "set_tx_row r d = d\<lparr>db_txs := replace_id tr_id (tr_id r) r (db_txs d)\<rparr>"

definition add_ledger :: "ledger_row \<Rightarrow> db \<Rightarrow> db" where
  "add_ledger r d = d\<lparr>db_ledger := db_ledger d @ [r]\<rparr>"

definition add_events :: "outbox_row list \<Rightarrow> db \<Rightarrow> db" where
  "add_events evs d = d\<lparr>db_outbox := db_outbox d @ evs\<rparr>"

definition set_inbox :: "inbox_row list \<Rightarrow> db \<Rightarrow> db" where
  "set_inbox ib d = d\<lparr>db_inbox := ib\<rparr>"

lemmas table_defs = add_wallet_def set_wallet_def add_tx_def set_tx_row_def add_ledger_def add_events_def set_inbox_def

section \<open>Conditions of the changes\<close>

definition unique_on :: "('r \<Rightarrow> 'k option) \<Rightarrow> 'r list \<Rightarrow> bool" where
  "unique_on f rs \<longleftrightarrow> distinct (List.map_filter f rs)"

definition external_of :: "tx_row \<Rightarrow> (string \<times> string) option" where
  "external_of r =
     (case tr_provider r of
        None \<Rightarrow> None
      | Some p \<Rightarrow> (case tr_external_id r of None \<Rightarrow> None | Some e \<Rightarrow> Some (p, e)))"

text \<open>The direction in which a reversal of a transaction moves the balance; \<open>None\<close> is an invalid reference.\<close>

definition reversal_direction :: "TransactionType \<Rightarrow> TransactionType \<Rightarrow> Direction option" where
  "reversal_direction kind refKind =
     (case kind of
        REFUND \<Rightarrow> Some CREDIT
      | ROLLBACK \<Rightarrow> (case refKind of BET \<Rightarrow> Some CREDIT | WIN \<Rightarrow> Some DEBIT | REFUND \<Rightarrow> Some DEBIT | _ \<Rightarrow> None)
      | _ \<Rightarrow> None)"

text \<open>
  \<open>movement r ref dir\<close>: the movement that the processed transaction \<open>r\<close> makes; a reversal has the
  processed transaction \<open>ref\<close> as its reference, of the same wallet and amount.
\<close>

definition reverses :: "tx_row \<Rightarrow> tx_row \<Rightarrow> Direction \<Rightarrow> bool" where
  "reverses r ref dir \<longleftrightarrow>
     tr_internal_reference r = Some (tr_id ref) \<and> tr_status ref = PROCESSED \<and>
     tr_wallet_id ref = tr_wallet_id r \<and> tr_amount ref = tr_amount r \<and> tr_provider ref = tr_provider r \<and>
     reversal_direction (tr_transaction_type r) (tr_transaction_type ref) = Some dir"

definition movement :: "tx_row list \<Rightarrow> tx_row \<Rightarrow> Direction \<Rightarrow> bool" where
  "movement ts r dir \<longleftrightarrow>
     (case tr_transaction_type r of
        OPENING \<Rightarrow> dir = CREDIT
      | BET \<Rightarrow> dir = DEBIT
      | WIN \<Rightarrow> dir = CREDIT
      | REFUND \<Rightarrow> (\<exists>ref \<in> set ts. reverses r ref dir)
      | ROLLBACK \<Rightarrow> (\<exists>ref \<in> set ts. reverses r ref dir)
      | _ \<Rightarrow> False)"

text \<open>\<open>entry_for wr r dir l\<close>: the ledger row \<open>l\<close> books \<open>r\<close> on the wallet \<open>wr\<close>.\<close>

definition entry_for :: "wallet_row \<Rightarrow> tx_row \<Rightarrow> Direction \<Rightarrow> ledger_row \<Rightarrow> bool" where
  "entry_for wr r dir l \<longleftrightarrow>
     lr_wallet_id l = wr_id wr \<and> tr_wallet_id r = wr_id wr \<and> lr_transaction_id l = tr_id r \<and>
     lr_direction l = dir \<and> lr_amount l = tr_amount r \<and> lr_balance_before l = wr_balance wr"

definition announced :: "string \<Rightarrow> tx_row \<Rightarrow> outbox_row list \<Rightarrow> bool" where
  "announced eventType r evs \<longleftrightarrow>
     list_ex (\<lambda>e. or_event_type e = eventType \<and> or_aggregate_id e = tr_id r) evs"

definition status_event :: "TransactionStatus \<Rightarrow> string" where
  "status_event st =
     (case st of
        PROCESSED \<Rightarrow> ''WagerTransactionProcessed''
      | PENDING_REFERENCE \<Rightarrow> ''WagerTransactionPendingReference''
      | _ \<Rightarrow> ''WagerTransactionRejected'')"

text \<open>
  A parked transaction knows its reference by provider and external identifier, and the
  reference belongs to the same wallet.
\<close>

definition parked_behind :: "tx_row \<Rightarrow> tx_row \<Rightarrow> bool" where
  "parked_behind r ref \<longleftrightarrow>
     tr_provider r \<noteq> None \<and> tr_external_reference r \<noteq> None \<and>
     tr_provider ref = tr_provider r \<and> tr_external_id ref = tr_external_reference r \<and>
     tr_wallet_id ref = tr_wallet_id r"

definition external_row :: "db \<Rightarrow> string \<Rightarrow> string \<Rightarrow> tx_row option" where
  "external_row d p e = find (\<lambda>r. tr_provider r = Some p \<and> tr_external_id r = Some e) (db_txs d)"

definition reference_of :: "db \<Rightarrow> tx_row \<Rightarrow> tx_row option" where
  "reference_of d r =
     (if tr_provider r = None \<or> tr_external_reference r = None then None
      else find (\<lambda>x. tr_provider x = tr_provider r \<and> tr_external_id x = tr_external_reference r) (db_txs d))"

definition settled :: "string \<Rightarrow> time \<Rightarrow> tx_row \<Rightarrow> tx_row" where
  "settled ref now r = set_reference ref now (set_status PROCESSED None now r)"

text \<open>Changes of an event that keep what it announces.\<close>

definition same_event :: "outbox_row \<Rightarrow> outbox_row \<Rightarrow> bool" where
  "same_event r r' \<longleftrightarrow> or_id r' = or_id r \<and> or_aggregate_type r' = or_aggregate_type r \<and>
     or_aggregate_id r' = or_aggregate_id r \<and> or_event_type r' = or_event_type r \<and> or_payload r' = or_payload r"

section \<open>The atomic changes\<close>

text \<open>
  \<open>U\<close> holds of the canonical texts of identifiers. \<open>sep\<close> says that requests do not overlap: then the
  check for a known external identifier and the booking see the same tables.
\<close>

inductive db_step :: "bool \<Rightarrow> (string \<Rightarrow> bool) \<Rightarrow> db \<Rightarrow> db \<Rightarrow> bool" for sep U where
  open_empty: "U (wr_id wr) \<Longrightarrow> wallet_constraints wr (db_wallets d) = None \<Longrightarrow> wr_balance wr = 0 \<Longrightarrow> db_step sep U d (add_wallet wr d)"
| open_funded: "U (wr_id wr) \<Longrightarrow> U (tr_id r) \<Longrightarrow> wallet_constraints wr (db_wallets d) = None \<Longrightarrow> 0 < sint (wr_balance wr) \<Longrightarrow>
    tr_transaction_type r = OPENING \<Longrightarrow> tr_status r = PROCESSED \<Longrightarrow> tr_ref_attempts r = 0 \<Longrightarrow>
    tr_amount r = wr_balance wr \<Longrightarrow> tr_currency r = BRL \<Longrightarrow> tx_constraints r (db_txs d) (db_wallets d @ [wr]) = None \<Longrightarrow>
    entry_for (wr\<lparr>wr_balance := 0\<rparr>) r CREDIT l \<Longrightarrow>
    ledger_constraints l (db_ledger d) (db_txs d @ [r]) (db_wallets d @ [wr]) = None \<Longrightarrow>
    announced (status_event PROCESSED) r evs \<Longrightarrow>
    db_step sep U d (add_events evs (add_ledger l (add_tx r (add_wallet wr d))))"
| book: "U (tr_id r) \<Longrightarrow> wr \<in> set (db_wallets d) \<Longrightarrow> tr_status r = PROCESSED \<Longrightarrow> tr_ref_attempts r = 0 \<Longrightarrow>
    tr_transaction_type r \<noteq> OPENING \<Longrightarrow> tr_currency r = BRL \<Longrightarrow> movement (db_txs d) r dir \<Longrightarrow>
    sep \<longrightarrow> list_all (\<lambda>x. external_of x \<noteq> external_of r) (db_txs d) \<Longrightarrow>
    tx_constraints r (db_txs d) (db_wallets d) = None \<Longrightarrow> entry_for wr r dir l \<Longrightarrow>
    ledger_constraints l (db_ledger d) (db_txs d @ [r]) (db_wallets d) = None \<Longrightarrow>
    announced (status_event PROCESSED) r evs \<Longrightarrow>
    db_step sep U d (set_inbox ib (add_events evs (add_ledger l (add_tx r
      (set_wallet (wr_id wr) (with_balance wr (lr_balance_after l) now) d)))))"
| record_only: "U (tr_id r) \<Longrightarrow> tr_status r = REJECTED \<or> tr_status r = PROCESSED \<and> tr_transaction_type r = LOSS \<or>
      tr_status r = PENDING_REFERENCE \<and> (\<exists>ref. reference_of d r = Some ref \<and> parked_behind r ref \<and>
        (tr_status ref = PENDING \<or> tr_status ref = PENDING_REFERENCE)) \<Longrightarrow>
    tr_ref_attempts r = 0 \<Longrightarrow> tr_transaction_type r \<noteq> OPENING \<Longrightarrow> tr_currency r = BRL \<Longrightarrow>
    sep \<longrightarrow> list_all (\<lambda>x. external_of x \<noteq> external_of r) (db_txs d) \<Longrightarrow>
    tx_constraints r (db_txs d) (db_wallets d) = None \<Longrightarrow>
    announced (status_event (tr_status r)) r evs \<Longrightarrow>
    db_step sep U d (set_inbox ib (add_events evs (add_tx r d)))"
| settle: "r \<in> set (db_txs d) \<Longrightarrow> tr_status r = PENDING_REFERENCE \<Longrightarrow> wr \<in> set (db_wallets d) \<Longrightarrow>
    r' = settled ref now r \<Longrightarrow> movement (db_txs d) r' dir \<Longrightarrow>
    list_all (\<lambda>x. reversal_of x \<noteq> Some ref) (db_txs d) \<Longrightarrow> entry_for wr r' dir l \<Longrightarrow>
    ledger_constraints l (db_ledger d) (db_txs d) (db_wallets d) = None \<Longrightarrow>
    announced (status_event PROCESSED) r' evs \<Longrightarrow>
    db_step sep U d (add_events evs (add_ledger l (set_tx_row r'
      (set_wallet (wr_id wr) (with_balance wr (lr_balance_after l) now) d))))"
| dismiss: "r \<in> set (db_txs d) \<Longrightarrow> tr_status r = PENDING_REFERENCE \<Longrightarrow>
    r' = set_status REJECTED fc now r \<Longrightarrow> announced (status_event REJECTED) r' evs \<Longrightarrow>
    db_step sep U d (add_events evs (set_tx_row r' d))"
| postpone: "r \<in> set (db_txs d) \<Longrightarrow> tr_status r = PENDING_REFERENCE \<Longrightarrow> tr_ref_attempts r < 10 \<Longrightarrow>
    db_step sep U d (set_tx_row (next_attempt now r) d)"
| outbox_upkeep: "list_all2 same_event (db_outbox d) evs \<Longrightarrow> db_step sep U d (d\<lparr>db_outbox := evs\<rparr>)"
| inbox_upkeep: "db_step sep U d (set_inbox ib d)"

abbreviation db_steps :: "bool \<Rightarrow> (string \<Rightarrow> bool) \<Rightarrow> db \<Rightarrow> db \<Rightarrow> bool" where
  "db_steps sep U \<equiv> (db_step sep U)\<^sup>*\<^sup>*"

section \<open>Invariants\<close>

fun chained :: "int \<Rightarrow> ledger_row list \<Rightarrow> bool" where
  "chained b [] \<longleftrightarrow> True"
| "chained b (r # rs) \<longleftrightarrow> sint (lr_balance_before r) = b \<and> ledger_math r \<and> chained (sint (lr_balance_after r)) rs"

text \<open>The ledger of every wallet is a chain from 0 to the wallet's balance.\<close>

definition ledger_inv :: "db \<Rightarrow> bool" where
  "ledger_inv d \<longleftrightarrow>
     (\<forall>w \<in> set (db_wallets d). 0 \<le> sint (wr_balance w) \<and> chained 0 (ledger_of (wr_id w) d) \<and>
        sint (wr_balance w) = ledger_sum (ledger_of (wr_id w) d)) \<and>
     (\<forall>l \<in> set (db_ledger d). \<exists>w \<in> set (db_wallets d). wr_id w = lr_wallet_id l)"

definition owner_of :: "wallet_row \<Rightarrow> string \<times> string \<times> string" where
  "owner_of w = (wr_player_id w, wr_currency w, wr_provider_id w)"

definition keys_inv :: "db \<Rightarrow> bool" where
  "keys_inv d \<longleftrightarrow> distinct (map wr_id (db_wallets d)) \<and> distinct (map owner_of (db_wallets d)) \<and>
     distinct (map tr_id (db_txs d)) \<and>
     unique_on idempotency_of (db_txs d) \<and>
     unique_on opening_of (db_txs d) \<and> unique_on reversal_of (db_txs d)"

text \<open>No index keeps external identifiers apart; the service looks before it inserts.\<close>

definition external_inv :: "db \<Rightarrow> bool" where
  "external_inv d \<longleftrightarrow> unique_on external_of (db_txs d)"

text \<open>
  Every transaction but a \<^verbatim>\<open>LOSS\<close> that is processed has exactly one ledger entry, in the right
  direction and of its amount, and every entry comes from such a transaction.
\<close>

definition booked :: "db \<Rightarrow> tx_row \<Rightarrow> ledger_row \<Rightarrow> bool" where
  "booked d r l \<longleftrightarrow> lr_transaction_id l = tr_id r \<and> lr_wallet_id l = tr_wallet_id r \<and> lr_amount l = tr_amount r \<and>
     tr_status r = PROCESSED \<and> movement (db_txs d) r (lr_direction l)"

definition booking_inv :: "db \<Rightarrow> bool" where
  "booking_inv d \<longleftrightarrow>
     (\<forall>l \<in> set (db_ledger d). \<exists>r \<in> set (db_txs d). booked d r l) \<and>
     (\<forall>r \<in> set (db_txs d). tr_status r = PROCESSED \<and> tr_transaction_type r \<noteq> LOSS \<longrightarrow>
        (\<exists>l \<in> set (db_ledger d). booked d r l)) \<and>
     distinct (map lr_transaction_id (db_ledger d))"

definition outbox_inv :: "db \<Rightarrow> bool" where
  "outbox_inv d \<longleftrightarrow>
     (\<forall>r \<in> set (db_txs d). tr_status r \<noteq> PENDING \<longrightarrow> announced (status_event (tr_status r)) r (db_outbox d))"

definition attempts_inv :: "db \<Rightarrow> bool" where
  "attempts_inv d \<longleftrightarrow> (\<forall>r \<in> set (db_txs d). 0 \<le> tr_ref_attempts r \<and> tr_ref_attempts r \<le> 10)"

definition currency_inv :: "db \<Rightarrow> bool" where
  "currency_inv d \<longleftrightarrow> (\<forall>r \<in> set (db_txs d). tr_currency r = BRL)"

definition parked_inv :: "db \<Rightarrow> bool" where
  "parked_inv d \<longleftrightarrow> (\<forall>r \<in> set (db_txs d). tr_status r = PENDING_REFERENCE \<longrightarrow>
     (\<exists>ref. reference_of d r = Some ref \<and> parked_behind r ref))"

definition ids_inv :: "(string \<Rightarrow> bool) \<Rightarrow> db \<Rightarrow> bool" where
  "ids_inv U d \<longleftrightarrow> (\<forall>w \<in> set (db_wallets d). U (wr_id w)) \<and> (\<forall>r \<in> set (db_txs d). U (tr_id r)) \<and>
     set (map tr_wallet_id (db_txs d)) \<subseteq> set (map wr_id (db_wallets d))"

definition db_inv :: "bool \<Rightarrow> (string \<Rightarrow> bool) \<Rightarrow> db \<Rightarrow> bool" where
  "db_inv sep U d \<longleftrightarrow> ids_inv U d \<and> keys_inv d \<and> ledger_inv d \<and> booking_inv d \<and> outbox_inv d \<and> attempts_inv d \<and> parked_inv d \<and>
     currency_inv d \<and> (sep \<longrightarrow> external_inv d)"

text \<open>No transaction waits: the tables hold only processed and rejected ones.\<close>

definition nothing_pending :: "db \<Rightarrow> bool" where
  "nothing_pending d \<longleftrightarrow> (\<forall>r \<in> set (db_txs d). tr_status r = PROCESSED \<or> tr_status r = REJECTED)"

text \<open>
  What a change keeps of the past: the ledger only grows at its end, no wallet and no
  transaction disappears, and a transaction that is processed, rejected or failed stays as it is.
\<close>

definition history_kept :: "db \<Rightarrow> db \<Rightarrow> bool" where
  "history_kept d d' \<longleftrightarrow>
     prefix (db_ledger d) (db_ledger d') \<and>
     set (map wr_id (db_wallets d)) \<subseteq> set (map wr_id (db_wallets d')) \<and>
     set (map tr_id (db_txs d)) \<subseteq> set (map tr_id (db_txs d')) \<and>
     (\<forall>r \<in> set (db_txs d). terminal_status (tr_status r) \<longrightarrow> r \<in> set (db_txs d'))"

section \<open>Lemmas on tables\<close>

lemma set_replace_id:
  "key r = u \<Longrightarrow> set (replace_id key u r rs) =
     (if u \<in> key ` set rs then insert r {x \<in> set rs. key x \<noteq> u} else set rs)"
  by (induction rs) (auto simp: replace_id_def)

lemma map_replace_id: "key r = u \<Longrightarrow> map key (replace_id key u r rs) = map key rs"
  by (induction rs) (auto simp: replace_id_def)

lemma unique_on_iff:
  assumes "distinct (map key rs)"
  shows "unique_on f rs \<longleftrightarrow> (\<forall>x \<in> set rs. \<forall>y \<in> set rs. f x \<noteq> None \<longrightarrow> f x = f y \<longrightarrow> key x = key y)"
  using assms
proof (induction rs)
  case Nil
  then show ?case by (simp add: unique_on_def)
next
  case (Cons r rs)
  have k: "key x \<noteq> key r" if "x \<in> set rs" for x
    using Cons.prems that by (auto simp: image_iff)
  have IH: "unique_on f rs \<longleftrightarrow> (\<forall>x \<in> set rs. \<forall>y \<in> set rs. f x \<noteq> None \<longrightarrow> f x = f y \<longrightarrow> key x = key y)"
    using Cons by simp
  have hd: "unique_on f (r # rs) \<longleftrightarrow> (f r \<noteq> None \<longrightarrow> (\<forall>x \<in> set rs. f x \<noteq> f r)) \<and> unique_on f rs"
    by (cases "f r") (force simp: unique_on_def map_filter_def image_iff)+
  show ?case unfolding hd IH using k by (auto dest: sym)
qed

lemma unique_on_add:
  "unique_on f (rs @ [r]) \<longleftrightarrow> unique_on f rs \<and> \<not> clash f r rs"
proof (cases "f r")
  case None
  then show ?thesis by (simp add: unique_on_def clash_def map_filter_def)
next
  case (Some k)
  then have "k \<in> set (List.map_filter f rs) \<longleftrightarrow> (\<exists>x \<in> set rs. f x = Some k)"
    by (force simp: map_filter_def image_iff)
  then show ?thesis
    using Some by (auto simp: unique_on_def clash_def map_filter_def list_ex_iff)
qed

lemma tx_constraints_None:
  "tx_constraints r rs ws = None \<longleftrightarrow>
     (TransactionType_Valid (tr_transaction_type r) \<or> tr_transaction_type r = OPENING) \<and> 0 \<le> sint (tr_amount r) \<and>
     currency_chk (tr_currency r) \<and> opening_rules r \<and> (\<forall>x \<in> set rs. tr_id x \<noteq> tr_id r) \<and>
     \<not> clash idempotency_of r rs \<and> \<not> clash opening_of r rs \<and> \<not> clash reversal_of r rs \<and>
     (\<exists>w \<in> set ws. wr_id w = tr_wallet_id r)"
  by (auto simp: tx_constraints_def list_ex_iff)

lemma ledger_constraints_None:
  "ledger_constraints l ls ts ws = None \<longleftrightarrow>
     (lr_direction l = DEBIT \<or> lr_direction l = CREDIT) \<and> 0 < sint (lr_amount l) \<and> currency_chk (lr_currency l) \<and>
     0 \<le> sint (lr_balance_before l) \<and> 0 \<le> sint (lr_balance_after l) \<and> ledger_math l \<and>
     (\<forall>x \<in> set ls. lr_id x \<noteq> lr_id l) \<and>
     (\<forall>x \<in> set ls. lr_wallet_id x = lr_wallet_id l \<longrightarrow> lr_transaction_id x \<noteq> lr_transaction_id l) \<and>
     (\<exists>w \<in> set ws. wr_id w = lr_wallet_id l) \<and> (\<exists>t \<in> set ts. tr_id t = lr_transaction_id l)"
proof -
  have "lr_direction l = CREDIT \<Longrightarrow> ledger_math l \<Longrightarrow> in_int64 (sint (lr_balance_before l) + sint (lr_amount l))"
    using in_int64_sint [of "lr_balance_after l"] by (simp add: ledger_math_def)
  then show ?thesis by (auto simp: ledger_constraints_def list_ex_iff)
qed

lemma wallet_constraints_None:
  "wallet_constraints r rs = None \<longleftrightarrow>
     currency_chk (wr_currency r) \<and> 0 \<le> sint (wr_balance r) \<and> 1 \<le> sint (wr_version r) \<and>
     (\<forall>x \<in> set rs. wr_id x \<noteq> wr_id r) \<and>
     (\<forall>x \<in> set rs. \<not> (wr_player_id x = wr_player_id r \<and> wr_currency x = wr_currency r \<and> wr_provider_id x = wr_provider_id r))"
  by (auto simp: wallet_constraints_def list_ex_iff)

lemma ledger_math_signed:
  "ledger_math l \<longleftrightarrow> (lr_direction l = DEBIT \<or> lr_direction l = CREDIT) \<and>
     sint (lr_balance_after l) = sint (lr_balance_before l) + signed (lr_direction l) (sint (lr_amount l))"
  by (auto simp: ledger_math_def signed_def)

lemma chained_append:
  "chained b (rs @ [l]) \<longleftrightarrow>
     chained b rs \<and> sint (lr_balance_before l) = b + ledger_sum rs \<and> ledger_math l"
proof (induction rs arbitrary: b)
  case Nil
  then show ?case by simp
next
  case (Cons r rs)
  then show ?case using ledger_math_signed [of r] by (auto simp: algebra_simps)
qed

lemma row_unique:
  "distinct (map key rs) \<Longrightarrow> x \<in> set rs \<Longrightarrow> y \<in> set rs \<Longrightarrow> key x = key y \<Longrightarrow> x = y"
  by (metis distinct_map inj_onD)

lemma settled_simps [simp]:
  "tr_id (settled ref now r) = tr_id r" "tr_status (settled ref now r) = PROCESSED"
  "tr_internal_reference (settled ref now r) = Some ref" "tr_wallet_id (settled ref now r) = tr_wallet_id r"
  "tr_amount (settled ref now r) = tr_amount r" "tr_provider (settled ref now r) = tr_provider r"
  "tr_transaction_type (settled ref now r) = tr_transaction_type r"
  "tr_external_id (settled ref now r) = tr_external_id r"
  "tr_external_reference (settled ref now r) = tr_external_reference r"
  "tr_ref_attempts (settled ref now r) = tr_ref_attempts r"
  "tr_idempotency_key (settled ref now r) = tr_idempotency_key r" "tr_currency (settled ref now r) = tr_currency r"
  by (simp_all add: settled_def set_reference_def set_status_def)

lemma set_status_simps [simp]:
  "tr_id (set_status st fc now r) = tr_id r" "tr_status (set_status st fc now r) = st"
  "tr_internal_reference (set_status st fc now r) = tr_internal_reference r"
  "tr_wallet_id (set_status st fc now r) = tr_wallet_id r" "tr_amount (set_status st fc now r) = tr_amount r"
  "tr_provider (set_status st fc now r) = tr_provider r"
  "tr_transaction_type (set_status st fc now r) = tr_transaction_type r"
  "tr_external_id (set_status st fc now r) = tr_external_id r"
  "tr_external_reference (set_status st fc now r) = tr_external_reference r"
  "tr_ref_attempts (set_status st fc now r) = tr_ref_attempts r"
  "tr_idempotency_key (set_status st fc now r) = tr_idempotency_key r" "tr_currency (set_status st fc now r) = tr_currency r"
  by (simp_all add: set_status_def)

lemma next_attempt_simps [simp]:
  "tr_id (next_attempt now r) = tr_id r" "tr_status (next_attempt now r) = tr_status r"
  "tr_internal_reference (next_attempt now r) = tr_internal_reference r"
  "tr_wallet_id (next_attempt now r) = tr_wallet_id r" "tr_amount (next_attempt now r) = tr_amount r"
  "tr_provider (next_attempt now r) = tr_provider r"
  "tr_transaction_type (next_attempt now r) = tr_transaction_type r"
  "tr_external_id (next_attempt now r) = tr_external_id r"
  "tr_external_reference (next_attempt now r) = tr_external_reference r"
  "tr_ref_attempts (next_attempt now r) = tr_ref_attempts r + 1"
  "tr_idempotency_key (next_attempt now r) = tr_idempotency_key r" "tr_currency (next_attempt now r) = tr_currency r"
  by (simp_all add: next_attempt_def)

lemma with_balance_simps [simp]:
  "wr_id (with_balance r b now) = wr_id r" "wr_balance (with_balance r b now) = b"
  by (simp_all add: with_balance_def)

lemma table_simps [simp]:
  "db_wallets (add_wallet wr d) = db_wallets d @ [wr]" "db_wallets (add_tx r d) = db_wallets d"
  "db_wallets (add_ledger l d) = db_wallets d" "db_wallets (add_events evs d) = db_wallets d"
  "db_wallets (set_inbox ib d) = db_wallets d" "db_wallets (set_tx_row r d) = db_wallets d"
  "db_wallets (set_wallet u wr d) = replace_id wr_id u wr (db_wallets d)"
  "db_txs (add_wallet wr d) = db_txs d" "db_txs (add_tx r d) = db_txs d @ [r]"
  "db_txs (add_ledger l d) = db_txs d" "db_txs (add_events evs d) = db_txs d"
  "db_txs (set_inbox ib d) = db_txs d" "db_txs (set_tx_row r d) = replace_id tr_id (tr_id r) r (db_txs d)"
  "db_txs (set_wallet u wr d) = db_txs d"
  "db_ledger (add_wallet wr d) = db_ledger d" "db_ledger (add_tx r d) = db_ledger d"
  "db_ledger (add_ledger l d) = db_ledger d @ [l]" "db_ledger (add_events evs d) = db_ledger d"
  "db_ledger (set_inbox ib d) = db_ledger d" "db_ledger (set_tx_row r d) = db_ledger d"
  "db_ledger (set_wallet u wr d) = db_ledger d"
  "db_outbox (add_wallet wr d) = db_outbox d" "db_outbox (add_tx r d) = db_outbox d"
  "db_outbox (add_ledger l d) = db_outbox d" "db_outbox (add_events evs d) = db_outbox d @ evs"
  "db_outbox (set_inbox ib d) = db_outbox d" "db_outbox (set_tx_row r d) = db_outbox d"
  "db_outbox (set_wallet u wr d) = db_outbox d"
  by (simp_all add: table_defs)

lemma ledger_of_simps [simp]:
  "ledger_of u (add_wallet wr d) = ledger_of u d" "ledger_of u (add_tx r d) = ledger_of u d"
  "ledger_of u (add_ledger l d) = ledger_of u d @ (if lr_wallet_id l = u then [l] else [])"
  "ledger_of u (add_events evs d) = ledger_of u d" "ledger_of u (set_inbox ib d) = ledger_of u d"
  "ledger_of u (set_tx_row r d) = ledger_of u d" "ledger_of u (set_wallet v wr d) = ledger_of u d"
  "ledger_of u (d\<lparr>db_outbox := evs\<rparr>) = ledger_of u d"
  by (simp_all add: ledger_of_def)

section \<open>Preservation\<close>

text \<open>Replacing a row by one with the same keys, or by one whose new key is not taken.\<close>

lemma unique_on_replace:
  assumes "distinct (map tr_id rs)" and "unique_on f rs" and "r \<in> set rs" and "tr_id r' = tr_id r"
    and "f r' = f r \<or> f r' = None \<or> (\<forall>x \<in> set rs. f x \<noteq> f r')"
  shows "unique_on f (replace_id tr_id (tr_id r) r' rs)"
proof -
  have d: "distinct (map tr_id (replace_id tr_id (tr_id r) r' rs))"
    using assms(1,4) by (simp add: map_replace_id)
  have u: "x = y" if "x \<in> set rs" "y \<in> set rs" "f x \<noteq> None" "f x = f y" for x y
    using assms(1,2) that row_unique [OF assms(1)] unique_on_iff [OF assms(1), of f] by metis
  show ?thesis
    unfolding unique_on_iff [OF d]
    using assms(3-5) u by (auto simp: set_replace_id) metis+
qed

lemma set_tx_row_keys:
  assumes "keys_inv d" and "r \<in> set (db_txs d)" and "tr_id r' = tr_id r" and "idempotency_of r' = idempotency_of r"
    and "opening_of r' = opening_of r"
    and "reversal_of r' = reversal_of r \<or> reversal_of r' = None \<or> (\<forall>x \<in> set (db_txs d). reversal_of x \<noteq> reversal_of r')"
  shows "keys_inv (set_tx_row r' d)"
  using assms by (auto simp: keys_inv_def map_replace_id intro!: unique_on_replace [where r = r])

lemma movement_mono:
  "movement ts r dir \<Longrightarrow> (\<And>x. x \<in> set ts \<Longrightarrow> tr_status x = PROCESSED \<Longrightarrow> x \<in> set ts') \<Longrightarrow> movement ts' r dir"
  by (auto simp: movement_def reverses_def split: TransactionType.splits)

lemma processed_kept:
  "x \<in> set (db_txs d) \<Longrightarrow> tr_status x = PROCESSED \<Longrightarrow> tr_status r = PENDING_REFERENCE \<Longrightarrow> r \<in> set (db_txs d) \<Longrightarrow>
   distinct (map tr_id (db_txs d)) \<Longrightarrow> tr_id r' = tr_id r \<Longrightarrow> x \<in> set (db_txs (set_tx_row r' d))"
  using row_unique [of tr_id "db_txs d" x r] by (auto simp: set_replace_id)

lemma clash_list_all: "list_all (\<lambda>x. f x \<noteq> f r) rs \<Longrightarrow> \<not> clash f r rs"
  by (auto simp: clash_def list_all_iff list_ex_iff)

lemma key_simps [simp]:
  "idempotency_of (settled ref now r) = idempotency_of r" "external_of (settled ref now r) = external_of r"
  "opening_of (settled ref now r) = opening_of r"
  "idempotency_of (set_status st fc now r) = idempotency_of r" "external_of (set_status st fc now r) = external_of r"
  "opening_of (set_status st fc now r) = opening_of r"
  "idempotency_of (next_attempt now r) = idempotency_of r" "external_of (next_attempt now r) = external_of r"
  "opening_of (next_attempt now r) = opening_of r" "reversal_of (next_attempt now r) = reversal_of r"
  "reversal_of (set_status REJECTED fc now r) = None"
  by (simp_all add: idempotency_of_def external_of_def opening_of_def reversal_of_def split: option.split)

lemma keys_inv_frame:
  "keys_inv (add_ledger l d) = keys_inv d" "keys_inv (add_events evs d) = keys_inv d"
  "keys_inv (set_inbox ib d) = keys_inv d" "keys_inv (d\<lparr>db_outbox := evs\<rparr>) = keys_inv d"
  by (simp_all add: keys_inv_def)

lemma map_replace_same:
  "distinct (map key rs) \<Longrightarrow> r \<in> set rs \<Longrightarrow> f r' = f r \<Longrightarrow> map f (replace_id key (key r) r' rs) = map f rs"
  using row_unique [of key rs _ r] by (auto simp: replace_id_def)

lemma keys_inv_set_wallet:
  "wr \<in> set (db_wallets d) \<Longrightarrow> keys_inv d \<Longrightarrow>
   keys_inv (set_wallet (wr_id wr) (with_balance wr b now) d)"
  using map_replace_same [of wr_id "db_wallets d" wr owner_of "with_balance wr b now"]
  by (simp add: keys_inv_def map_replace_id) (simp add: with_balance_def owner_of_def)

lemma keys_inv_add_wallet: "keys_inv d \<Longrightarrow> wallet_constraints wr (db_wallets d) = None \<Longrightarrow> keys_inv (add_wallet wr d)"
  by (auto simp: keys_inv_def wallet_constraints_None owner_of_def)

lemma keys_inv_add_tx:
  "keys_inv d \<Longrightarrow> tx_constraints r (db_txs d) ws = None \<Longrightarrow> keys_inv (add_tx r d)"
  by (auto simp: keys_inv_def tx_constraints_None unique_on_add)

lemma external_opening: "opening_rules r \<Longrightarrow> tr_transaction_type r = OPENING \<Longrightarrow> external_of r = None"
  by (simp add: opening_rules_def external_of_def)

lemma settled_reversal:
  "movement ts (settled ref now r) dir \<Longrightarrow> list_all (\<lambda>x. reversal_of x \<noteq> Some ref) rs \<Longrightarrow>
   reversal_of (settled ref now r) = None \<or> (\<forall>x \<in> set rs. reversal_of x \<noteq> reversal_of (settled ref now r))"
  by (auto simp: reversal_of_def list_all_iff)

lemma keys_inv_step: "db_step sep U d d' \<Longrightarrow> keys_inv d \<Longrightarrow> keys_inv d'"
proof (induction rule: db_step.induct)
  case (open_empty wr d)
  then show ?case by (intro keys_inv_add_wallet)
next
  case (open_funded wr r d l evs)
  then show ?case
    unfolding keys_inv_frame using open_funded by (intro keys_inv_add_tx) (auto intro: keys_inv_add_wallet)
next
  case (book r wr d dir l evs ib now)
  then have "keys_inv (set_wallet (wr_id wr) (with_balance wr (lr_balance_after l) now) d)"
    by (intro keys_inv_set_wallet)
  with book show ?case
    unfolding keys_inv_frame by (intro keys_inv_add_tx) (auto dest: clash_list_all)
next
  case (record_only r d evs ib)
  then show ?case
    unfolding keys_inv_frame by (intro keys_inv_add_tx) (auto dest: clash_list_all)
next
  case (settle r d wr r' ref now dir l evs)
  then have "keys_inv (set_wallet (wr_id wr) (with_balance wr (lr_balance_after l) now) d)"
    by (intro keys_inv_set_wallet)
  with settle show ?case
    unfolding keys_inv_frame
    using settled_reversal [of "db_txs d" ref now r dir "db_txs d"]
    by (intro set_tx_row_keys [where r = r]) auto
next
  case (dismiss r d r' fc now evs)
  then show ?case
    unfolding keys_inv_frame by (intro set_tx_row_keys [where r = r]) auto
next
  case (postpone r d now)
  then show ?case by (intro set_tx_row_keys [where r = r]) auto
next
  case (outbox_upkeep d evs)
  then show ?case by (simp add: keys_inv_frame)
next
  case (inbox_upkeep d ib)
  then show ?case by (simp add: keys_inv_frame)
qed

lemma external_inv_set_tx:
  assumes "external_inv d" and "distinct (map tr_id (db_txs d))" and "r \<in> set (db_txs d)" and "tr_id r' = tr_id r"
    and "external_of r' = external_of r"
  shows "external_inv (set_tx_row r' d)"
  using assms by (auto simp: external_inv_def intro!: unique_on_replace [where r = r])

lemma external_inv_step:
  assumes "db_step True U d d'" and "distinct (map tr_id (db_txs d))" and "external_inv d"
  shows "external_inv d'"
  using assms
proof (induction rule: db_step.induct)
  case (open_funded wr r d l evs)
  then show ?case by (simp add: external_inv_def unique_on_add clash_def external_opening tx_constraints_None)
next
  case (book r wr d dir l evs ib now)
  then show ?case by (simp add: external_inv_def unique_on_add clash_list_all)
next
  case (record_only r d evs ib)
  then show ?case by (simp add: external_inv_def unique_on_add clash_list_all)
next
  case (settle r d wr r' ref now dir l evs)
  then have "external_inv (set_tx_row r' d)" by (intro external_inv_set_tx [where r = r]) simp_all
  then show ?case by (simp add: external_inv_def)
next
  case (dismiss r d r' fc now evs)
  then have "external_inv (set_tx_row r' d)" by (intro external_inv_set_tx [where r = r]) simp_all
  then show ?case by (simp add: external_inv_def)
next
  case (postpone r d now)
  then show ?case by (intro external_inv_set_tx [where r = r]) simp_all
qed (simp_all add: external_inv_def)

lemma ledger_inv_frame:
  "ledger_inv (add_events evs d) = ledger_inv d" "ledger_inv (set_inbox ib d) = ledger_inv d"
  "ledger_inv (d\<lparr>db_outbox := evs\<rparr>) = ledger_inv d" "ledger_inv (add_tx r d) = ledger_inv d"
  "ledger_inv (set_tx_row r d) = ledger_inv d" "ledger_inv (add_ledger l (add_tx r d)) = ledger_inv (add_ledger l d)"
  "ledger_inv (add_ledger l (set_tx_row r d)) = ledger_inv (add_ledger l d)"
  by (simp_all add: ledger_inv_def)

lemma new_wallet_no_ledger:
  "ledger_inv d \<Longrightarrow> wallet_constraints wr (db_wallets d) = None \<Longrightarrow> ledger_of (wr_id wr) d = []"
  by (auto simp: ledger_inv_def wallet_constraints_None ledger_of_def filter_empty_conv)

lemma ledger_inv_open_funded:
  assumes "ledger_inv d" and "wallet_constraints wr (db_wallets d) = None"
    and "entry_for (wr\<lparr>wr_balance := 0\<rparr>) r CREDIT l" and "tr_amount r = wr_balance wr" and "ledger_math l"
  shows "ledger_inv (add_ledger l (add_wallet wr d))"
  using assms new_wallet_no_ledger [OF assms(1,2)]
  by (auto simp: ledger_inv_def entry_for_def wallet_constraints_None ledger_math_signed signed_def)

lemma ledger_inv_book:
  assumes "ledger_inv d" and "keys_inv d" and "wr \<in> set (db_wallets d)" and "entry_for wr r dir l"
    and "ledger_constraints l ls ts ws = None"
  shows "ledger_inv (add_ledger l (set_wallet (wr_id wr) (with_balance wr (lr_balance_after l) now) d))"
proof -
  have w: "0 \<le> sint (wr_balance w)" "chained 0 (ledger_of (wr_id w) d)"
      "sint (wr_balance w) = ledger_sum (ledger_of (wr_id w) d)" if "w \<in> set (db_wallets d)" for w
    using assms(1) that by (auto simp: ledger_inv_def)
  have l: "lr_wallet_id l = wr_id wr" "lr_balance_before l = wr_balance wr" "ledger_math l" "0 \<le> sint (lr_balance_after l)"
    using assms(4,5) by (auto simp: entry_for_def ledger_constraints_None)
  have bal: "sint (lr_balance_after l) = ledger_sum (ledger_of (wr_id wr) d @ [l])"
    using l w(3) [OF assms(3)] by (simp add: ledger_math_signed)
  have ch: "chained 0 (ledger_of (wr_id wr) d @ [l])"
    using l w [OF assms(3)] by (simp add: chained_append)
  have "\<exists>w \<in> set (db_wallets d). wr_id w = lr_wallet_id x" if "x \<in> set (db_ledger d)" for x
    using assms(1) that by (auto simp: ledger_inv_def)
  then show ?thesis
    using w l(1,4) bal ch assms(3)
    by (auto simp: ledger_inv_def set_replace_id) metis
qed

lemma ledger_inv_step: "db_step sep U d d' \<Longrightarrow> keys_inv d \<Longrightarrow> ledger_inv d \<Longrightarrow> ledger_inv d'"
proof (induction rule: db_step.induct)
  case (open_empty wr d)
  then have "ledger_of (wr_id wr) d = []" by (blast intro: new_wallet_no_ledger)
  then show ?case using open_empty by (auto simp: ledger_inv_def)
next
  case (open_funded wr r d l evs)
  then show ?case
    unfolding ledger_inv_frame by (intro ledger_inv_open_funded) (auto simp: ledger_constraints_None)
next
  case (book r wr d dir l evs ib now)
  then show ?case unfolding ledger_inv_frame by (intro ledger_inv_book)
next
  case (settle r d wr r' ref now dir l evs)
  then show ?case unfolding ledger_inv_frame by (intro ledger_inv_book)
qed (simp_all add: ledger_inv_frame)

lemma booking_inv_frame:
  "booking_inv (add_events evs d) = booking_inv d" "booking_inv (set_inbox ib d) = booking_inv d"
  "booking_inv (d\<lparr>db_outbox := evs\<rparr>) = booking_inv d" "booking_inv (set_wallet u wr d) = booking_inv d"
  "booking_inv (add_wallet wr d) = booking_inv d"
  "booking_inv (add_ledger l (add_tx r (set_wallet u wr d))) = booking_inv (add_ledger l (add_tx r d))"
  "booking_inv (add_ledger l (add_tx r (add_wallet wr d))) = booking_inv (add_ledger l (add_tx r d))"
  "booking_inv (add_ledger l (set_tx_row r (set_wallet u wr d))) = booking_inv (add_ledger l (set_tx_row r d))"
  by (simp_all add: booking_inv_def booked_def)

lemma booked_mono:
  "booked d r l \<Longrightarrow> (\<And>x. x \<in> set (db_txs d) \<Longrightarrow> tr_status x = PROCESSED \<Longrightarrow> x \<in> set (db_txs d')) \<Longrightarrow> booked d' r l"
  unfolding booked_def using movement_mono by metis

lemma booking_inv_book:
  assumes "booking_inv d" and "tx_constraints r (db_txs d) ws = None" and "tr_status r = PROCESSED"
    and "movement (db_txs d) r dir" and "entry_for wr r dir l"
  shows "booking_inv (add_ledger l (add_tx r d))"
proof -
  let ?d = "add_ledger l (add_tx r d)"
  have keep: "booked d x y \<Longrightarrow> booked ?d x y" for x y
    by (erule booked_mono) simp
  have new: "booked ?d r l"
    using assms(3-5) by (auto simp: booked_def entry_for_def intro: movement_mono)
  have fresh: "lr_transaction_id x \<noteq> lr_transaction_id l" if "x \<in> set (db_ledger d)" for x
    using assms that by (auto simp: booking_inv_def booked_def entry_for_def tx_constraints_None)
  show ?thesis
    using assms(1) keep new fresh by (auto simp: booking_inv_def) blast+
qed

lemma booking_inv_add_tx:
  assumes "booking_inv d" and "tr_status r \<noteq> PROCESSED \<or> tr_transaction_type r = LOSS"
  shows "booking_inv (add_tx r d)"
proof -
  have keep: "booked d x y \<Longrightarrow> booked (add_tx r d) x y" for x y
    by (erule booked_mono) simp
  then show ?thesis using assms by (auto simp: booking_inv_def) blast+
qed

lemma booking_inv_set_tx:
  assumes "booking_inv d" and "distinct (map tr_id (db_txs d))" and "r \<in> set (db_txs d)"
    and "tr_status r = PENDING_REFERENCE" and "tr_id r' = tr_id r" and "tr_status r' \<noteq> PROCESSED"
  shows "booking_inv (set_tx_row r' d)"
proof -
  have kept: "x \<in> set (db_txs d) \<Longrightarrow> tr_status x = PROCESSED \<Longrightarrow> x \<in> set (db_txs (set_tx_row r' d))" for x
    using assms by (intro processed_kept)
  have keep: "booked d x y \<Longrightarrow> booked (set_tx_row r' d) x y" for x y
    by (erule booked_mono) (rule kept)
  have old: "\<exists>x \<in> set (db_txs (set_tx_row r' d)). booked (set_tx_row r' d) x l" if "l \<in> set (db_ledger d)" for l
    using assms(1) that keep kept unfolding booking_inv_def by (metis booked_def)
  have "\<exists>l \<in> set (db_ledger d). booked (set_tx_row r' d) x l"
    if "x \<in> set (db_txs (set_tx_row r' d))" "tr_status x = PROCESSED" "tr_transaction_type x \<noteq> LOSS" for x
  proof -
    have "x \<in> set (db_txs d)" using that assms(3,5,6) by (auto simp: set_replace_id split: if_splits)
    then show ?thesis using assms(1) that keep unfolding booking_inv_def by metis
  qed
  then show ?thesis using assms(1) old by (auto simp: booking_inv_def)
qed

lemma booking_inv_settle:
  assumes "booking_inv d" and "distinct (map tr_id (db_txs d))" and "r \<in> set (db_txs d)"
    and "tr_status r = PENDING_REFERENCE" and "r' = settled ref now r" and "movement (db_txs d) r' dir"
    and "entry_for wr r' dir l"
  shows "booking_inv (add_ledger l (set_tx_row r' d))"
proof -
  let ?d = "add_ledger l (set_tx_row r' d)"
  have kept: "x \<in> set (db_txs d) \<Longrightarrow> tr_status x = PROCESSED \<Longrightarrow> x \<in> set (db_txs ?d)" for x
    using processed_kept [of x d r r'] assms by simp
  have keep: "booked d x y \<Longrightarrow> booked ?d x y" for x y
    by (erule booked_mono) (rule kept)
  have old: "\<exists>x \<in> set (db_txs ?d). booked ?d x y" if "y \<in> set (db_ledger d)" for y
    using assms(1) that keep kept unfolding booking_inv_def by (metis booked_def)
  have mem: "r' \<in> set (db_txs ?d)" using assms(3,5) by (simp add: set_replace_id)
  have new: "booked ?d r' l"
    using assms(5-7) kept by (auto simp: booked_def entry_for_def intro: movement_mono)
  have fresh: "lr_transaction_id x \<noteq> lr_transaction_id l" if "x \<in> set (db_ledger d)" for x
  proof
    assume eq: "lr_transaction_id x = lr_transaction_id l"
    obtain y where y: "y \<in> set (db_txs d)" "booked d y x"
      using assms(1) \<open>x \<in> set (db_ledger d)\<close> by (auto simp: booking_inv_def)
    then have "tr_id y = tr_id r" using eq assms(5,7) by (simp add: booked_def entry_for_def)
    then have "y = r" using row_unique [OF assms(2) y(1) assms(3)] by simp
    then show False using y(2) assms(4) by (simp add: booked_def)
  qed
  have "\<exists>y \<in> set (db_ledger ?d). booked ?d x y"
    if "x \<in> set (db_txs ?d)" "tr_status x = PROCESSED" "tr_transaction_type x \<noteq> LOSS" for x
  proof (cases "x = r'")
    case True
    then show ?thesis using new by auto
  next
    case False
    then have "x \<in> set (db_txs d)" using that assms(3,5) by (auto simp: set_replace_id split: if_splits)
    then show ?thesis using assms(1) that keep unfolding booking_inv_def by fastforce
  qed
  moreover have "lr_transaction_id l \<notin> lr_transaction_id ` set (db_ledger d)"
    using fresh by force
  ultimately show ?thesis using assms(1) old mem new by (auto simp: booking_inv_def)
qed

lemma booking_inv_step: "db_step sep U d d' \<Longrightarrow> keys_inv d \<Longrightarrow> booking_inv d \<Longrightarrow> booking_inv d'"
proof (induction rule: db_step.induct)
  case (open_funded wr r d l evs)
  then show ?case
    unfolding booking_inv_frame by (intro booking_inv_book) (auto simp: movement_def)
next
  case (book r wr d dir l evs ib now)
  then show ?case unfolding booking_inv_frame by (intro booking_inv_book)
next
  case (record_only r d evs ib)
  then show ?case unfolding booking_inv_frame by (intro booking_inv_add_tx) auto
next
  case (settle r d wr r' ref now dir l evs)
  then show ?case
    unfolding booking_inv_frame by (intro booking_inv_settle [where r = r]) (auto simp: keys_inv_def)
next
  case (dismiss r d r' fc now evs)
  then show ?case
    unfolding booking_inv_frame by (intro booking_inv_set_tx [where r = r]) (auto simp: keys_inv_def)
next
  case (postpone r d now)
  then show ?case by (intro booking_inv_set_tx [where r = r]) (auto simp: keys_inv_def)
qed (simp_all add: booking_inv_frame)

lemma announced_append [simp]: "announced e r (evs @ evs') \<longleftrightarrow> announced e r evs \<or> announced e r evs'"
  by (auto simp: announced_def)

lemma announced_cong: "tr_id r' = tr_id r \<Longrightarrow> announced e r' evs = announced e r evs"
  by (simp add: announced_def)

lemma announced_upkeep: "list_all2 same_event evs evs' \<Longrightarrow> announced e r evs \<Longrightarrow> announced e r evs'"
  by (induction rule: list_all2_induct) (auto simp: announced_def same_event_def)

lemma outbox_inv_step: "db_step sep U d d' \<Longrightarrow> outbox_inv d \<Longrightarrow> outbox_inv d'"
proof (induction rule: db_step.induct)
  case (settle r d wr r' ref now dir l evs)
  then show ?case by (auto simp: outbox_inv_def set_replace_id split: if_splits)
next
  case (dismiss r d r' fc now evs)
  then show ?case by (auto simp: outbox_inv_def set_replace_id split: if_splits)
next
  case (postpone r d now)
  then show ?case
    by (auto simp: outbox_inv_def set_replace_id announced_cong [of "next_attempt now r" r] split: if_splits)
next
  case (outbox_upkeep d evs)
  then show ?case by (auto simp: outbox_inv_def intro: announced_upkeep)
qed (auto simp: outbox_inv_def)

lemma attempts_inv_step: "db_step sep U d d' \<Longrightarrow> attempts_inv d \<Longrightarrow> attempts_inv d'"
  by (induction rule: db_step.induct) (auto simp: attempts_inv_def set_replace_id split: if_splits)

lemma currency_inv_step: "db_step sep U d d' \<Longrightarrow> currency_inv d \<Longrightarrow> currency_inv d'"
  by (induction rule: db_step.induct) (auto simp: currency_inv_def set_replace_id split: if_splits)

lemma parked_mono:
  "parked_behind r ref \<Longrightarrow> tr_provider ref' = tr_provider ref \<Longrightarrow> tr_external_id ref' = tr_external_id ref \<Longrightarrow>
   tr_wallet_id ref' = tr_wallet_id ref \<Longrightarrow> parked_behind r ref'"
  by (simp add: parked_behind_def)

lemma find_mem: "find P xs = Some x \<Longrightarrow> x \<in> set xs"
  by (induction xs) (auto split: if_splits)

lemma find_append: "find P (xs @ ys) = (case find P xs of None \<Rightarrow> find P ys | Some x \<Rightarrow> Some x)"
  by (induction xs) simp_all

lemma find_replace:
  "distinct (map key rs) \<Longrightarrow> r \<in> set rs \<Longrightarrow> key r' = key r \<Longrightarrow> P r' = P r \<Longrightarrow>
   find P (replace_id key (key r) r' rs) = map_option (\<lambda>x. if key x = key r then r' else x) (find P rs)"
proof (induction rs)
  case (Cons x rs)
  then show ?case
  proof (cases "key x = key r")
    case True
    then have "x = r" using row_unique [OF Cons.prems(1), of x r] Cons.prems(2) by simp
    have ne: "key y \<noteq> key r" if "y \<in> set rs" for y using Cons.prems(1) True that by (auto simp: image_iff)
    then have "replace_id key (key r) r' rs = rs" by (simp add: replace_id_def map_idI)
    moreover have "map_option (\<lambda>y. if key y = key r then r' else y) (find P rs) = find P rs"
      using ne [OF find_mem] by (cases "find P rs") simp_all
    moreover note \<open>x = r\<close>
    ultimately show ?thesis using Cons.prems(4) by (simp add: replace_id_def)
  next
    case False
    then show ?thesis using Cons by (auto simp: replace_id_def)
  qed
qed simp

lemma reference_of_add: "reference_of d x = Some ref \<Longrightarrow> reference_of (add_tx r d) x = Some ref"
  by (auto simp: reference_of_def find_append split: if_splits)

lemma reference_of_set_tx:
  assumes "reference_of d x = Some ref" and "distinct (map tr_id (db_txs d))" and "r \<in> set (db_txs d)" and "tr_id r' = tr_id r"
    and "tr_provider r' = tr_provider r" "tr_external_id r' = tr_external_id r"
  shows "reference_of (set_tx_row r' d) x = Some (if tr_id ref = tr_id r then r' else ref)"
proof -
  let ?P = "\<lambda>y. tr_provider y = tr_provider x \<and> tr_external_id y = tr_external_reference x"
  have "tr_provider x \<noteq> None \<and> tr_external_reference x \<noteq> None" "find ?P (db_txs d) = Some ref"
    using assms(1) by (simp_all add: reference_of_def split: if_splits)
  moreover have "find ?P (replace_id tr_id (tr_id r) r' (db_txs d)) = map_option (\<lambda>y. if tr_id y = tr_id r then r' else y) (find ?P (db_txs d))"
    using assms(2-6) by (intro find_replace) simp_all
  ultimately show ?thesis by (simp add: reference_of_def assms(4))
qed

lemma reference_of_mem: "reference_of d x = Some ref \<Longrightarrow> ref \<in> set (db_txs d)"
  by (auto simp: reference_of_def split: if_splits intro: find_mem)

lemma parked_inv_set_tx:
  assumes "parked_inv d" and "distinct (map tr_id (db_txs d))" and "r \<in> set (db_txs d)" and "tr_id r' = tr_id r"
    and "tr_provider r' = tr_provider r" "tr_external_id r' = tr_external_id r" "tr_wallet_id r' = tr_wallet_id r"
    and "tr_external_reference r' = tr_external_reference r" "tr_status r = PENDING_REFERENCE"
  shows "parked_inv (set_tx_row r' d)"
proof -
  have keep: "\<exists>ref'. reference_of (set_tx_row r' d) x = Some ref' \<and> parked_behind x ref'"
    if ref: "reference_of d x = Some ref" "parked_behind x ref" for x ref
  proof -
    have "ref = r" if "tr_id ref = tr_id r" using row_unique [OF assms(2) reference_of_mem [OF ref(1)] assms(3) that] .
    then have "parked_behind x (if tr_id ref = tr_id r then r' else ref)"
      using ref(2) parked_mono [OF _ assms(5-7)] by (auto split: if_splits)
    then show ?thesis using reference_of_set_tx [OF ref(1) assms(2-6)] by blast
  qed
  have "parked_behind r' = parked_behind r" "reference_of e r' = reference_of e r" for e
    using assms by (auto simp: parked_behind_def reference_of_def fun_eq_iff)
  moreover have "x = r' \<or> x \<in> set (db_txs d)" if "x \<in> set (db_txs (set_tx_row r' d))" for x
    using that assms(3,4) by (auto simp: set_replace_id split: if_splits)
  ultimately show ?thesis
    using assms(1,3,9) keep unfolding parked_inv_def by metis
qed

lemma parked_inv_add:
  "parked_inv d \<Longrightarrow> tr_status r = PENDING_REFERENCE \<longrightarrow> (\<exists>ref. reference_of d r = Some ref \<and> parked_behind r ref) \<Longrightarrow>
   parked_inv (add_tx r d)"
  unfolding parked_inv_def by (auto intro: reference_of_add)

lemma parked_inv_frame:
  "parked_inv (add_events evs d) = parked_inv d" "parked_inv (set_inbox ib d) = parked_inv d"
  "parked_inv (d\<lparr>db_outbox := evs\<rparr>) = parked_inv d" "parked_inv (set_wallet u wr d) = parked_inv d"
  "parked_inv (add_wallet wr d) = parked_inv d" "parked_inv (add_ledger l d) = parked_inv d"
  "parked_inv (add_tx r (set_wallet u wr d)) = parked_inv (add_tx r d)"
  "parked_inv (add_tx r (add_wallet wr d)) = parked_inv (add_tx r d)"
  "parked_inv (set_tx_row r (set_wallet u wr d)) = parked_inv (set_tx_row r d)"
  by (simp_all add: parked_inv_def reference_of_def)

lemma parked_inv_step: "db_step sep U d d' \<Longrightarrow> keys_inv d \<Longrightarrow> parked_inv d \<Longrightarrow> parked_inv d'"
proof (induction rule: db_step.induct)
  case (record_only r d evs ib)
  then show ?case unfolding parked_inv_frame by (intro parked_inv_add) auto
next
  case (settle r d wr r' ref now dir l evs)
  then show ?case
    unfolding parked_inv_frame by (intro parked_inv_set_tx [where r = r]) (auto simp: keys_inv_def)
next
  case (dismiss r d r' fc now evs)
  then show ?case
    unfolding parked_inv_frame by (intro parked_inv_set_tx [where r = r]) (auto simp: keys_inv_def)
next
  case (postpone r d now)
  then show ?case by (intro parked_inv_set_tx [where r = r]) (auto simp: keys_inv_def)
qed (simp_all add: parked_inv_frame parked_inv_add)

lemma ids_inv_set_tx:
  "ids_inv U d \<Longrightarrow> r \<in> set (db_txs d) \<Longrightarrow> tr_id r' = tr_id r \<Longrightarrow> tr_wallet_id r' = tr_wallet_id r \<Longrightarrow>
   ids_inv U (set_tx_row r' d)"
  by (auto simp: ids_inv_def set_replace_id split: if_splits)

lemma ids_inv_set_wallet: "ids_inv U d \<Longrightarrow> wr \<in> set (db_wallets d) \<Longrightarrow>
    ids_inv U (set_wallet (wr_id wr) (with_balance wr b now) d)"
  using map_replace_id [of wr_id "with_balance wr b now" "wr_id wr" "db_wallets d"]
  by (simp add: ids_inv_def del: set_map) (auto simp: set_replace_id)

lemma ids_inv_add_tx: "ids_inv U d \<Longrightarrow> U (tr_id r) \<Longrightarrow> tr_wallet_id r \<in> set (map wr_id (db_wallets d)) \<Longrightarrow>
    ids_inv U (add_tx r d)"
  by (auto simp: ids_inv_def)

lemma ids_inv_frame:
  "ids_inv U (add_ledger l d) = ids_inv U d" "ids_inv U (add_events evs d) = ids_inv U d"
  "ids_inv U (set_inbox ib d) = ids_inv U d" "ids_inv U (d\<lparr>db_outbox := evs\<rparr>) = ids_inv U d"
  "ids_inv U d \<Longrightarrow> U (wr_id wr) \<Longrightarrow> ids_inv U (add_wallet wr d)"
  by (auto simp: ids_inv_def)

lemma wallet_ids_set_wallet [simp]:
  "wr_id ` set (db_wallets (set_wallet (wr_id wr) (with_balance wr b now) d)) = wr_id ` set (db_wallets d)"
  using map_replace_id [of wr_id "with_balance wr b now" "wr_id wr" "db_wallets d"]
  by (metis list.set_map table_simps(7) with_balance_simps(1))

lemma ids_inv_step: "db_step sep U d d' \<Longrightarrow> ids_inv U d \<Longrightarrow> ids_inv U d'"
proof (induction rule: db_step.induct)
  case (open_funded wr r d l evs)
  then show ?case
    unfolding ids_inv_frame by (intro ids_inv_add_tx ids_inv_frame) (simp_all add: entry_for_def)
next
  case (book r wr d dir l evs ib now)
  then show ?case
    unfolding ids_inv_frame
    by (intro ids_inv_add_tx ids_inv_set_wallet) (auto simp: entry_for_def simp del: table_simps(7))
next
  case (record_only r d evs ib)
  then have "tr_wallet_id r \<in> set (map wr_id (db_wallets d))"
    by (force simp: tx_constraints_None)
  then show ?case
    unfolding ids_inv_frame by (intro ids_inv_add_tx record_only)
next
  case (settle r d wr r' ref now dir l evs)
  then show ?case
    unfolding ids_inv_frame by (intro ids_inv_set_tx [where r = r] ids_inv_set_wallet) auto
next
  case (dismiss r d r' fc now evs)
  then show ?case unfolding ids_inv_frame by (intro ids_inv_set_tx [where r = r]) auto
next
  case (postpone r d now)
  then show ?case by (intro ids_inv_set_tx [where r = r]) auto
qed (auto simp: ids_inv_frame)

lemma db_inv_step: "db_step sep U d d' \<Longrightarrow> db_inv sep U d \<Longrightarrow> db_inv sep U d'"
  unfolding db_inv_def
  by (simp add: ids_inv_step [of sep U] keys_inv_step [of sep U] ledger_inv_step [of sep U] booking_inv_step [of sep U]
      outbox_inv_step [of sep U] attempts_inv_step [of sep U] parked_inv_step [of sep U] currency_inv_step [of sep U])
    (auto intro: external_inv_step simp: keys_inv_def)

lemma db_inv_steps: "db_steps sep U d d' \<Longrightarrow> db_inv sep U d \<Longrightarrow> db_inv sep U d'"
  by (induction rule: rtranclp_induct) (auto intro: db_inv_step)

lemma db_inv_empty: "db_inv sep U empty_db"
  by (simp add: db_inv_def ids_inv_def keys_inv_def ledger_inv_def booking_inv_def outbox_inv_def attempts_inv_def parked_inv_def
      currency_inv_def external_inv_def empty_db_def unique_on_def)

lemma nothing_pending_step: "db_step sep U d d' \<Longrightarrow> nothing_pending d \<Longrightarrow> nothing_pending d'"
  by (induction rule: db_step.induct) (fastforce simp: nothing_pending_def set_replace_id dest!: reference_of_mem split: if_splits)+

lemma history_kept_refl [simp]: "history_kept d d"
  by (simp add: history_kept_def)

lemma history_kept_trans: "history_kept d d' \<Longrightarrow> history_kept d' d'' \<Longrightarrow> history_kept d d''"
  unfolding history_kept_def by (elim conjE, intro conjI) (blast intro: prefix_order.trans)+

lemma history_kept_set_tx:
  assumes "distinct (map tr_id (db_txs d))" and "r \<in> set (db_txs d)" and "tr_id r' = tr_id r"
    and "tr_status r = PENDING_REFERENCE"
  shows "history_kept d (set_tx_row r' d)"
proof -
  have t: "x \<in> set (db_txs (set_tx_row r' d))" if "x \<in> set (db_txs d)" "terminal_status (tr_status x)" for x
    using that assms row_unique [OF assms(1) that(1) assms(2)] by (auto simp: set_replace_id terminal_status_def)
  have m: "map tr_id (db_txs (set_tx_row r' d)) = map tr_id (db_txs d)"
    by (simp add: map_replace_id)
  show ?thesis unfolding history_kept_def m using t by auto
qed

lemma history_kept_set_wallet:
  assumes "history_kept d d'" and "wr_id wr = u"
  shows "history_kept d (set_wallet u wr d')"
proof -
  have m: "map wr_id (db_wallets (set_wallet u wr d')) = map wr_id (db_wallets d')"
    using assms(2) by (simp add: map_replace_id)
  show ?thesis using assms(1) unfolding history_kept_def m by simp
qed

lemma history_kept_frame:
  "history_kept d d' \<Longrightarrow> history_kept d (add_ledger l d')" "history_kept d d' \<Longrightarrow> history_kept d (add_events evs d')"
  "history_kept d d' \<Longrightarrow> history_kept d (set_inbox ib d')" "history_kept d d' \<Longrightarrow> history_kept d (add_tx r d')"
  "history_kept d d' \<Longrightarrow> history_kept d (add_wallet wr d')" "history_kept d d' \<Longrightarrow> history_kept d (d'\<lparr>db_outbox := evs\<rparr>)"
  by (auto simp: history_kept_def)

lemma history_kept_step:
  assumes "db_step sep U d d'" and "distinct (map tr_id (db_txs d))"
  shows "history_kept d d'"
  using assms
proof (induction rule: db_step.induct)
  case (settle r d wr r' ref now dir l evs)
  let ?e = "set_wallet (wr_id wr) (with_balance wr (lr_balance_after l) now) d"
  have "history_kept ?e (set_tx_row r' ?e)"
    using settle by (intro history_kept_set_tx [where r = r]) auto
  moreover have "history_kept d ?e" by (intro history_kept_set_wallet) simp_all
  ultimately have "history_kept d (set_tx_row r' ?e)" by (rule history_kept_trans [rotated])
  then show ?case by (intro history_kept_frame)
next
  case (dismiss r d r' fc now evs)
  then have "history_kept d (set_tx_row r' d)" by (intro history_kept_set_tx [where r = r]) auto
  then show ?case by (intro history_kept_frame)
next
  case (postpone r d now)
  then show ?case by (intro history_kept_set_tx [where r = r]) auto
qed (intro history_kept_frame history_kept_set_wallet history_kept_refl with_balance_simps)+

lemma history_kept_steps: "db_steps sep U d d' \<Longrightarrow> db_inv sep U d \<Longrightarrow> history_kept d d'"
proof (induction rule: rtranclp_induct)
  case base
  then show ?case by simp
next
  case (step d' d'')
  then have "distinct (map tr_id (db_txs d'))"
    using db_inv_steps by (auto simp: db_inv_def keys_inv_def)
  with step show ?case by (blast intro: history_kept_trans history_kept_step)
qed

end
