(* ===== verification/Wallet_Service.thy ===== *)
theory Wallet_Service
  imports Ledger_Machine
begin

text \<open>
  \<^verbatim>\<open>internal/wallet/service.go\<close>: creating a wallet with its opening transaction, balance changes
  inside a transaction, and reconciliation with the ledger. The transaction factory is present
  in the wired program. The lemmas give the weakest preconditions of a balance change.
\<close>

section \<open>Events of a new wallet\<close>

definition evt_id :: "string \<Rightarrow> string \<Rightarrow> string" where
  "evt_id i suffix0 = ''evt-'' @ i @ suffix0"

definition buildWalletCreatedEvents :: "Wallet \<Rightarrow> string \<Rightarrow> LedgerEntry \<Rightarrow> Event list" where
  "buildWalletCreatedEvents w openingID entry =
     [\<lparr>ev_EventID = evt_id openingID ''-processed'', ev_EventType = ''WagerTransactionProcessed'',
       ev_AggregateType = ''WagerTransaction'', ev_AggregateID = openingID, ev_CorrelationID = '''',
       ev_CausationID = '''', ev_OccurredAt = wal_createdAt w, ev_Version = 1,
       ev_Data = ProcessedData \<lparr>pd_TransactionID = openingID, pd_ExternalID = '''', pd_ProviderID = '''',
         pd_PlayerID = wal_playerID w, pd_WalletID = wal_id w, pd_RoundID = '''', pd_GameID = '''',
         pd_Kind = ''OPENING'', pd_Money = wal_balance w, pd_ReferenceExtID = '''',
         pd_Status = ''PROCESSED'', pd_FailureCode = ''''\<rparr>\<rparr>,
      \<lparr>ev_EventID = evt_id openingID ''-balance'', ev_EventType = ''WalletBalanceChanged'',
       ev_AggregateType = ''Wallet'', ev_AggregateID = wal_id w, ev_CorrelationID = '''',
       ev_CausationID = '''', ev_OccurredAt = wal_createdAt w, ev_Version = 1,
       ev_Data = BalanceChangedData \<lparr>bd_WalletID = wal_id w, bd_TransactionID = openingID,
         bd_Direction = Direction_string CREDIT, bd_Money = wal_balance w,
         bd_BalanceBefore = le_balanceBefore entry, bd_BalanceAfter = le_balanceAfter entry,
         bd_WalletVersion = wal_version w\<rparr>\<rparr>]"

section \<open>CreateWallet\<close>

fun create_outbox_events :: "env \<Rightarrow> nat \<Rightarrow> Event list \<Rightarrow> unit go" where
  "create_outbox_events E t [] = ok ()"
| "create_outbox_events E t (ev # evs) =
     (case json_Marshal ev of
        Inl err \<Rightarrow> fail (Errorf ''marshal outbox event'' err)
      | Inr p \<Rightarrow>
          bind_err (WalletRepo_CreateOutboxEventTx E t (ev_AggregateType ev) (ev_AggregateID ev) (ev_EventType ev) (Some p))
            (\<lambda>e. e) (\<lambda>_. create_outbox_events E t evs))"

text \<open>The block \<^verbatim>\<open>if !initialBalance.IsZero() { ... }\<close>\<close>

definition create_opening :: "env \<Rightarrow> nat \<Rightarrow> Wallet \<Rightarrow> string \<Rightarrow> string \<Rightarrow> Money \<Rightarrow> unit go" where
  "create_opening E t w walletID playerID initialBalance =
     (let cur = money_currency initialBalance in
      bind_err (WalletRepo_CreateOpeningTx E t walletID playerID initialBalance cur) (\<lambda>e. e) (\<lambda>openingID.
      bind_err (ret (lift_money (NewMoney 0 cur))) (Errorf ''create zero balance'') (\<lambda>zeroBalance.
      do {
        now \<leftarrow> time_Now E;
        bind_err (ret (NewLedgerEntry now '''' walletID openingID CREDIT initialBalance zeroBalance initialBalance))
          (Errorf ''create ledger entry'') (\<lambda>entry.
        bind_err (WalletRepo_CreateLedgerEntryTx E t entry) (\<lambda>e. e) (\<lambda>_.
        create_outbox_events E t (buildWalletCreatedEvents w openingID entry)))
      })))"

text \<open>The part of \<^verbatim>\<open>CreateWallet\<close> that runs in a transaction.\<close>

definition store_wallet :: "env \<Rightarrow> string \<Rightarrow> string \<Rightarrow> Money \<Rightarrow> Wallet go" where
  "store_wallet E providerID playerID initialBalance =
     bind_err (TxManager_Begin E) (Errorf ''begin transaction'') (\<lambda>t. defer_Rollback t (
     bind_err (WalletRepo_CreateWalletTx E t playerID providerID (money_currency initialBalance) initialBalance)
       (\<lambda>err. if isUniqueViolation err then wallet_err Wallet_ErrDuplicateWallet else err) (\<lambda>walletID.
     do {
       now \<leftarrow> time_Now E;
       bind_err (ret (RehydrateWallet walletID playerID providerID (money_currency initialBalance)
           initialBalance 1 now now)) (Errorf ''rehydrate wallet'') (\<lambda>w.
       bind_err (if IsZero initialBalance then ok ()
                 else create_opening E t w walletID playerID initialBalance) (\<lambda>e. e) (\<lambda>_.
       bind_err (tx_Commit E t) (Errorf ''commit wallet creation'') (\<lambda>_. ok w)))
     })))"

definition CreateWallet :: "env \<Rightarrow> string \<Rightarrow> string \<Rightarrow> Money \<Rightarrow> Wallet go" where
  "CreateWallet E providerID playerID initialBalance =
     (if providerID = '''' then fail (wallet_err Wallet_ErrInvalidProviderID)
      else if playerID = '''' then fail (wallet_err Wallet_ErrInvalidPlayerID)
      else if money_currency initialBalance = '''' then fail (wallet_err Wallet_ErrInvalidCurrency)
      else if IsNegative initialBalance then fail (wallet_err Wallet_ErrNegativeBalance)
      else do {
        existing \<leftarrow> WalletRepo_FindByPlayerAndCurrencyAndProvider E playerID (money_currency initialBalance) providerID;
        (case existing of
           Inr _ \<Rightarrow> fail (wallet_err Wallet_ErrDuplicateWallet)
         | Inl err \<Rightarrow>
             if \<not> errors_is err (WalletErr Wallet_ErrWalletNotFound) then fail (Errorf ''check existing wallet'' err)
             else store_wallet E providerID playerID initialBalance)
      })"

section \<open>Queries\<close>

definition GetWallet :: "env \<Rightarrow> string \<Rightarrow> Wallet go" where
  "GetWallet E i =
     (if i = '''' then fail (wallet_err Wallet_ErrInvalidWalletID) else WalletRepo_FindByID E i)"

definition GetLedger :: "env \<Rightarrow> string \<Rightarrow> string \<Rightarrow> int \<Rightarrow> (LedgerEntry list \<times> string) go" where
  "GetLedger E walletID cursor limit =
     (if walletID = '''' then fail (wallet_err Wallet_ErrInvalidWalletID)
      else LedgerRepo_FindByWalletID E walletID cursor (if limit \<le> 0 then 100 else limit))"

definition GetBalance :: "env \<Rightarrow> string \<Rightarrow> Money go" where
  "GetBalance E walletID = bind_err (WalletRepo_FindByID E walletID) (\<lambda>e. e) (\<lambda>w. ok (wal_balance w))"

section \<open>Balance changes\<close>

definition change_in_tx :: "env \<Rightarrow> nat \<Rightarrow> string \<Rightarrow> Money \<Rightarrow> Direction \<Rightarrow> (Money \<times> Money \<times> int64) go" where
  "change_in_tx E t walletID amount direction =
     bind_err (WalletRepo_FindByIDForUpdate E t walletID) (Errorf ''load wallet for balance change'') (\<lambda>w. do {
       now \<leftarrow> time_Now E;
       bind_err (ret (if direction = DEBIT then Wallet_Debit now w amount else Wallet_Credit now w amount))
         (\<lambda>e. e) (\<lambda>(change, w').
       bind_err (WalletRepo_UpdateBalanceTx E t (wal_id w') (bc_BalanceAfter change) (wal_version w))
         (Errorf ''update wallet balance'') (\<lambda>_.
       ok (bc_BalanceBefore change, bc_BalanceAfter change, bc_NewVersion change)))
     })"

text \<open>\<open>dbTx = None\<close> is a nil transaction: the change runs in one of its own.\<close>

definition applyBalanceChange ::
  "env \<Rightarrow> nat option \<Rightarrow> string \<Rightarrow> Money \<Rightarrow> Direction \<Rightarrow> (Money \<times> Money \<times> int64) go" where
  "applyBalanceChange E dbTx walletID amount direction =
     (if walletID = '''' then fail (wallet_err Wallet_ErrInvalidWalletID)
      else if direction \<noteq> DEBIT \<and> direction \<noteq> CREDIT then fail (wallet_err Wallet_ErrInvalidLedgerEntry)
      else case dbTx of
        Some t \<Rightarrow> change_in_tx E t walletID amount direction
      | None \<Rightarrow>
          bind_err (TxManager_Begin E) (Errorf ''begin balance transaction'') (\<lambda>t. defer_Rollback t (
          bind_err (change_in_tx E t walletID amount direction) (\<lambda>e. e) (\<lambda>r.
          bind_err (tx_Commit E t) (Errorf ''commit balance transaction'') (\<lambda>_. ok r)))))"

definition WalletService_Debit :: "env \<Rightarrow> nat option \<Rightarrow> string \<Rightarrow> Money \<Rightarrow> (Money \<times> Money \<times> int64) go" where
  "WalletService_Debit E dbTx walletID amount = applyBalanceChange E dbTx walletID amount DEBIT"

definition WalletService_Credit :: "env \<Rightarrow> nat option \<Rightarrow> string \<Rightarrow> Money \<Rightarrow> (Money \<times> Money \<times> int64) go" where
  "WalletService_Credit E dbTx walletID amount = applyBalanceChange E dbTx walletID amount CREDIT"

section \<open>Reconciliation\<close>

record ReconciliationResult =
  rr_WalletID :: string
  rr_StoredBalance :: Money
  rr_CalculatedBalance :: Money
  rr_Difference :: Money
  rr_Consistent :: bool
  rr_CheckedEntries :: int

text \<open>
  The loop over the pages; \<open>None\<close> when the fuel runs out. A second page always ends the loop
  with an error, so two rounds are enough.
\<close>

fun reconcile_pages :: "nat \<Rightarrow> env \<Rightarrow> string \<Rightarrow> string \<Rightarrow> int \<Rightarrow> int option go" where
  "reconcile_pages 0 E walletID cursor checkedEntries = ok None"
| "reconcile_pages (Suc k) E walletID cursor checkedEntries =
     bind_err (LedgerRepo_FindByWalletID E walletID cursor 1000) (Errorf ''read wallet ledger'')
       (\<lambda>(entries, nextCursor).
          let n = checkedEntries + int (length entries)
          in if nextCursor = '''' \<or> nextCursor = cursor then ok (Some n)
             else reconcile_pages k E walletID nextCursor n)"

definition reconcile_fuel :: nat where
  "reconcile_fuel = 2"

definition Reconcile :: "env \<Rightarrow> string \<Rightarrow> ReconciliationResult option go" where
  "Reconcile E walletID =
     (if walletID = '''' then fail (wallet_err Wallet_ErrInvalidWalletID)
      else
        bind_err (WalletRepo_FindByID E walletID) (\<lambda>e. e) (\<lambda>w.
        bind_err (LedgerRepo_SumByWalletID E walletID) (Errorf ''sum wallet ledger'') (\<lambda>calculatedSum.
        bind_err (reconcile_pages reconcile_fuel E walletID '''' 0) (\<lambda>e. e) (\<lambda>pages.
          case pages of
            None \<Rightarrow> ok None
          | Some checkedEntries \<Rightarrow>
              bind_err (ret (lift_money (NewMoney calculatedSum (wal_currency w))))
                (Errorf ''parse calculated balance'') (\<lambda>calculated.
              bind_err (ret (lift_money (Money_Subtract (wal_balance w) calculated)))
                (Errorf ''calculate balance difference'') (\<lambda>difference. do {
                  _ \<leftarrow> (if IsZero difference then ret ()
                        else count_metric (\<lambda>m. m\<lparr>mt_divergences := Suc (mt_divergences m)\<rparr>));
                  ok (Some \<lparr>rr_WalletID = walletID, rr_StoredBalance = wal_balance w,
                    rr_CalculatedBalance = calculated, rr_Difference = difference,
                    rr_Consistent = IsZero difference, rr_CheckedEntries = checkedEntries\<rparr>)
                }))))))"

section \<open>Weakest preconditions\<close>

text \<open>\<open>wallet_at E d i r\<close>: the identifier \<open>i\<close> names the readable wallet row \<open>r\<close>.\<close>

definition wallet_at :: "env \<Rightarrow> db \<Rightarrow> string \<Rightarrow> wallet_row \<Rightarrow> bool" where
  "wallet_at E d i r \<longleftrightarrow> env_uuid E i = Some (wr_id r) \<and>
     find (\<lambda>x. wr_id x = wr_id r) (db_wallets d) = Some r \<and> readable_wallet r"

lemma wallet_at_unique: "wallet_at E d i r \<Longrightarrow> wallet_at E d i r' \<Longrightarrow> r = r'"
  by (auto simp: wallet_at_def)

lemma wallet_at_mem: "wallet_at E d i r \<Longrightarrow> r \<in> set (db_wallets d)"
  by (auto simp: wallet_at_def find_Some_iff)

lemma scanned_wallet_at:
  assumes "sql_select_wallet i (stmt_ctx E s n) d = Inr (x, d')"
  shows "(\<exists>r. wallet_at E d i r \<and> scanned_wallet x = Inr (wallet_of r)) \<or>
    (\<exists>e. scanned_wallet x = Inl e) \<and> (\<forall>r. \<not> wallet_at E d i r)"
proof -
  obtain u where u: "env_uuid E i = Some u" and x: "x = find (\<lambda>r. wr_id r = u) (db_wallets d)"
    using assms by (auto simp: sql_select_wallet_Inr)
  show ?thesis
  proof (cases x)
    case None
    then show ?thesis using u x by (auto simp: scanned_wallet_def wallet_at_def)
  next
    case (Some r)
    then have r: "wr_id r = u" using x by (auto simp: find_Some_iff)
    have f: "find (\<lambda>x. wr_id x = wr_id r) (db_wallets d) = Some r" using Some x r by simp
    show ?thesis
    proof (cases "readable_wallet r")
      case True
      then have "wallet_of_row r = Inr (wallet_of r)" by (simp add: wallet_of_row_Inr)
      then show ?thesis using u r f True Some by (auto simp: scanned_wallet_def wallet_at_def)
    next
      case False
      then obtain e where "wallet_of_row r = Inl e" by (cases "wallet_of_row r") (auto simp: wallet_of_row_Inr)
      moreover have "\<not> wallet_at E d i r'" for r'
      proof
        assume w: "wallet_at E d i r'"
        then have "wr_id r' = wr_id r" using u r by (simp add: wallet_at_def)
        then have "r' = r" using w f unfolding wallet_at_def by (metis option.inject)
        then show False using w False by (simp add: wallet_at_def)
      qed
      ultimately show ?thesis using Some by (simp add: scanned_wallet_def)
    qed
  qed
qed

lemma sql_select_wallet_Inl:
  "sql_select_wallet i (stmt_ctx E s n) d = Inl e \<Longrightarrow> \<not> wallet_at E d i r"
  by (auto simp: sql_select_wallet_def as_uuid_def wallet_at_def split: option.splits)

lemma wp_FindByIDForUpdate:
  assumes "w_txs w t = OpenTx d s"
    and "\<And>e w'. w_db w' = w_db w \<Longrightarrow> blamed E (\<forall>r. \<not> wallet_at E d i r) \<Longrightarrow> Q (Inl e) w'"
    and "\<And>r w'. w_db w' = w_db w \<Longrightarrow> w_txs w' t = OpenTx d s \<Longrightarrow> wallet_at E d i r \<Longrightarrow> Q (Inr (wallet_of r)) w'"
  shows "wp (WalletRepo_FindByIDForUpdate E t i) Q w"
  unfolding WalletRepo_FindByIDForUpdate_def wp_rules
proof (rule wp_tx_stmt [OF assms(1)], goal_cases)
  case (1 e w' n)
  then show ?case
    using sql_select_wallet_Inl by (auto intro!: assms(2) simp: blamed_def)
next
  case (2 x d' w' n)
  have "d' = d" using 2(2) by (simp add: sql_select_wallet_Inr)
  then show ?case
    using 2 scanned_wallet_at [OF 2(2)] by (auto simp: wp_rules blamed_def intro!: assms(2,3))
qed

lemma wp_FindByID:
  assumes "\<And>e w'. w_db w' = w_db w \<Longrightarrow> w_txs w' = w_txs w \<Longrightarrow> blamed E (\<forall>r. \<not> wallet_at E (w_db w) i r) \<Longrightarrow> Q (Inl e) w'"
    and "\<And>r w'. w_db w' = w_db w \<Longrightarrow> w_txs w' = w_txs w \<Longrightarrow> wallet_at E (w_db w) i r \<Longrightarrow> Q (Inr (wallet_of r)) w'"
  shows "wp (WalletRepo_FindByID E i) Q w"
  unfolding WalletRepo_FindByID_def wp_rules
proof (rule wp_pool_stmt, goal_cases)
  case (1 e w' n)
  then have "w_db w' = w_db w" by (auto dest: select_only)
  with 1 show ?case
    using sql_select_wallet_Inl by (auto intro!: assms(1) simp: blamed_def)
next
  case (2 x w' n)
  have "w_db w' = w_db w" using 2(2) by (simp add: sql_select_wallet_Inr)
  then show ?case
    using 2 scanned_wallet_at [OF 2(2)] by (auto simp: wp_rules blamed_def intro!: assms)
qed

text \<open>The balance change as a function: what \<^verbatim>\<open>Debit\<close> or \<^verbatim>\<open>Credit\<close> answers on the row.\<close>

definition change_of :: "time \<Rightarrow> wallet_row \<Rightarrow> Money \<Rightarrow> Direction \<Rightarrow> gerr + BalanceChange \<times> Wallet" where
  "change_of now r amount dir =
     (if dir = DEBIT then Wallet_Debit now (wallet_of r) amount else Wallet_Credit now (wallet_of r) amount)"

lemma wallet_of_ok: "readable_wallet r \<Longrightarrow> wallet_ok (wallet_of r)"
  by (simp add: readable_wallet_def wallet_of_def wallet_ok_def cents_def)

lemma wallet_of_balance [simp]:
  "cents (wal_balance (wallet_of r)) = sint (wr_balance r)" "wal_version (wallet_of r) = wr_version r"
  "wal_id (wallet_of r) = TrimSpace (wr_id r)"
  by (simp_all add: wallet_of_def cents_def)

lemma wal_balance_wallet_of: "wal_balance (wallet_of r) = \<lparr>money_amount = wr_balance r, money_currency = BRL\<rparr>"
  by (simp add: wallet_of_def)

lemma change_of_Inr:
  assumes "readable_wallet r" and "change_of now r amount dir = Inr (ch, w')" and "dir = DEBIT \<or> dir = CREDIT"
  shows "bc_BalanceBefore ch = \<lparr>money_amount = wr_balance r, money_currency = BRL\<rparr> \<and>
    money_currency (bc_BalanceAfter ch) = BRL \<and> money_currency amount = BRL \<and> 0 < cents amount \<and>
    cents (bc_BalanceAfter ch) = sint (wr_balance r) + signed dir (cents amount) \<and>
    0 \<le> cents (bc_BalanceAfter ch) \<and> bc_NewVersion ch = wr_version r + 1 \<and> wal_id w' = TrimSpace (wr_id r)"
proof -
  have "0 \<le> sint (wr_balance r)" using assms(1) by (simp add: readable_wallet_def)
  moreover have "0 < cents amount \<Longrightarrow> cents amount \<le> sint (wr_balance r) \<Longrightarrow> in_int64 (sint (wr_balance r) - cents amount)"
    using in_int64_diff [of amount "wal_balance (wallet_of r)"] by simp
  ultimately show ?thesis
    using assms wallet_of_ok [OF assms(1)]
    by (cases "dir = DEBIT")
      (auto simp: change_of_def Wallet_Debit_eq Wallet_Credit_eq moved_def signed_def wal_balance_wallet_of [symmetric]
        split: if_splits)
qed

text \<open>
  \<open>changed E d i amount dir s r b d'\<close>: the change books \<open>amount\<close> on the wallet row \<open>r\<close> named by \<open>i\<close> and
  leaves it with balance \<open>b\<close>.
\<close>

definition changed ::
  "env \<Rightarrow> db \<Rightarrow> string \<Rightarrow> Money \<Rightarrow> Direction \<Rightarrow> time \<Rightarrow> wallet_row \<Rightarrow> Money \<Rightarrow> db \<Rightarrow> bool" where
  "changed E d i amount dir s r b d' \<longleftrightarrow>
     wallet_at E d i r \<and> money_currency amount = BRL \<and> 0 < cents amount \<and> money_currency b = BRL \<and>
     cents b = sint (wr_balance r) + signed dir (cents amount) \<and> 0 \<le> cents b \<and>
     d' = set_wallet (wr_id r) (with_balance r (money_amount b) s) d"

text \<open>Why a change is refused when nothing fails on the way.\<close>

definition change_refused :: "env \<Rightarrow> db \<Rightarrow> string \<Rightarrow> Money \<Rightarrow> Direction \<Rightarrow> gerr \<Rightarrow> bool" where
  "change_refused E d i amount dir e \<longleftrightarrow>
     i = '''' \<or> (\<forall>r. \<not> wallet_at E d i r) \<or>
     (\<exists>r. wallet_at E d i r \<and> ((\<exists>now. change_of now r amount dir = Inl e) \<or> sint (wr_version r) = MaxInt64))"

lemma env_ok_uuid: "env_ok E \<Longrightarrow> env_uuid E i = Some u \<Longrightarrow> TrimSpace u = u \<and> env_uuid E u = Some u \<and> u \<noteq> ''''"
  by (auto simp: env_ok_def)

lemma version_step: "0 < sint (v :: int64) \<Longrightarrow> sint v \<noteq> MaxInt64 \<Longrightarrow> sint (v + 1) = sint v + 1"
  using in_int64_sint [of v] by (subst sint_add_int64) (auto simp: in_int64_def MaxInt64_def MinInt64_def)

lemma currency_chk_BRL [simp]: "currency_chk BRL"
  by (simp add: currency_chk_def BRL_def)

lemma balance_row_constraints:
  assumes "keys_inv d" and "r \<in> set (db_wallets d)" and "readable_wallet r" and "0 \<le> sint b" and "sint (wr_version r) \<noteq> MaxInt64"
  shows "wallet_constraints (with_balance r b s) (filter (\<lambda>x. wr_id x \<noteq> wr_id r) (db_wallets d)) = None"
proof -
  have "owner_of x \<noteq> owner_of r" if "x \<in> set (db_wallets d)" "wr_id x \<noteq> wr_id r" for x
    using assms(1,2) that row_unique [of owner_of "db_wallets d" x r] by (auto simp: keys_inv_def)
  then show ?thesis
    using assms(2-5) version_step [of "wr_version r"]
    by (auto simp: wallet_constraints_None with_balance_def readable_wallet_def owner_of_def)
qed

lemma find_refine: "find P xs = Some x \<Longrightarrow> P' x \<Longrightarrow> find (\<lambda>y. P y \<and> P' y) xs = Some x"
  by (induction xs) (auto split: if_splits)

lemma sql_update_balance_row:
  assumes "env_ok E" and "keys_inv d" and "wallet_at E d i r" and "0 \<le> sint b"
  shows "sql_update_balance b (TrimSpace (wr_id r)) (wr_version r) (stmt_ctx E s n) d =
    (if sint (wr_version r) = MaxInt64 then Inl (out_of_range ''bigint'')
     else Inr (1, set_wallet (wr_id r) (with_balance r b s) d))"
proof -
  have u: "TrimSpace (wr_id r) = wr_id r" "env_uuid E (wr_id r) = Some (wr_id r)"
    using assms(1,3) env_ok_uuid by (auto simp: wallet_at_def)
  have f: "find (\<lambda>x. wr_id x = wr_id r \<and> wr_version x = wr_version r) (db_wallets d) = Some r"
    using assms(3) by (intro find_refine) (auto simp: wallet_at_def)
  have "sint (wr_version r) \<noteq> MaxInt64 \<Longrightarrow>
      wallet_constraints (with_balance r b s) (filter (\<lambda>x. wr_id x \<noteq> wr_id r) (db_wallets d)) = None"
    using assms by (intro balance_row_constraints) (auto simp: wallet_at_mem, simp add: wallet_at_def)
  then show ?thesis
    by (simp add: sql_update_balance_def as_uuid_def u f Let_def set_wallet_def with_balance_def)
qed

lemma wp_UpdateBalanceTx:
  assumes "env_ok E" and "keys_inv d" and "wallet_at E d i r" and "w_txs w t = OpenTx d s" and "0 \<le> sint (money_amount b)"
    and "\<And>e w'. w_db w' = w_db w \<Longrightarrow> blamed E (sint (wr_version r) = MaxInt64) \<Longrightarrow> Q (Inl e) w'"
    and "\<And>v w'. w_db w' = w_db w \<Longrightarrow>
      w_txs w' t = OpenTx (set_wallet (wr_id r) (with_balance r (money_amount b) s) d) s \<Longrightarrow> Q (Inr v) w'"
  shows "wp (WalletRepo_UpdateBalanceTx E t (TrimSpace (wr_id r)) b (wr_version r)) Q w"
  unfolding WalletRepo_UpdateBalanceTx_def wp_rules
  using sql_update_balance_row [OF assms(1,2,3,5), of s]
  by (intro wp_tx_stmt [OF assms(4)])
    (auto simp: wp_rules blamed_def intro!: assms(6,7) split: if_splits)

lemma wp_store_change:
  assumes "env_ok E" and "keys_inv d" and "w_txs w t = OpenTx d s" and dir: "dir = DEBIT \<or> dir = CREDIT"
    and at: "wallet_at E d i r" and ch: "change_of now r amount dir = Inr (ch, w2)"
    and err: "\<And>e w'. w_db w' = w_db w \<Longrightarrow> blamed E (change_refused E d i amount dir e) \<Longrightarrow> Q (Inl e) w'"
    and ok: "\<And>r b d' w'. w_db w' = w_db w \<Longrightarrow> w_txs w' t = OpenTx d' s \<Longrightarrow> changed E d i amount dir s r b d' \<Longrightarrow>
      Q (Inr (\<lparr>money_amount = wr_balance r, money_currency = BRL\<rparr>, b, wr_version r + 1)) w'"
  shows "wp (bind_err (WalletRepo_UpdateBalanceTx E t (wal_id w2) (bc_BalanceAfter ch) (wr_version r))
    (Errorf ''update wallet balance'')
    (\<lambda>_. ok (bc_BalanceBefore ch, bc_BalanceAfter ch, bc_NewVersion ch))) Q w"
proof -
  have rd: "readable_wallet r" using at by (simp add: wallet_at_def)
  note c = change_of_Inr [OF rd ch dir]
  have b: "0 \<le> sint (money_amount (bc_BalanceAfter ch))" using c by (simp add: cents_def)
  have "changed E d i amount dir s r (bc_BalanceAfter ch)
      (set_wallet (wr_id r) (with_balance r (money_amount (bc_BalanceAfter ch)) s) d)"
    using c at by (simp add: changed_def)
  then show ?thesis
    unfolding wp_rules using c at
    by (auto simp: wp_rules intro!: wp_UpdateBalanceTx [OF assms(1,2) at assms(3) b] ok err)
      (auto simp: blamed_def change_refused_def)
qed

lemma wp_change_in_tx:
  assumes "env_ok E" and "keys_inv d" and "w_txs w t = OpenTx d s" and dir: "dir = DEBIT \<or> dir = CREDIT"
    and err: "\<And>e w'. w_db w' = w_db w \<Longrightarrow> blamed E (change_refused E d i amount dir e) \<Longrightarrow> Q (Inl e) w'"
    and ok: "\<And>r b d' w'. w_db w' = w_db w \<Longrightarrow> w_txs w' t = OpenTx d' s \<Longrightarrow> changed E d i amount dir s r b d' \<Longrightarrow>
      Q (Inr (\<lparr>money_amount = wr_balance r, money_currency = BRL\<rparr>, b, wr_version r + 1)) w'"
  shows "wp (change_in_tx E t i amount dir) Q w"
  unfolding change_in_tx_def wp_bind_err
proof (rule wp_FindByIDForUpdate [OF assms(3)], goal_cases)
  case (1 e w')
  then show ?case by (auto intro!: err simp: blamed_def change_refused_def)
next
  case (2 r w')
  show ?case
    unfolding sum.case wp_bind wp_bind_err wp_ret change_of_def [symmetric]
  proof (rule wp_time_Now)
    fix now w2
    assume q: "quiet w' w2"
    have st: "w_db w2 = w_db w" "w_txs w2 t = OpenTx d s" using q 2 by (simp_all add: quiet_def)
    show "(case change_of now r amount dir of Inl e \<Rightarrow> Q (Inl e)
      | Inr x \<Rightarrow> wp (case x of (change, w') \<Rightarrow>
          bind_err (WalletRepo_UpdateBalanceTx E t (wal_id w') (bc_BalanceAfter change) (wal_version (wallet_of r)))
            (Errorf ''update wallet balance'')
            (\<lambda>_. ok (bc_BalanceBefore change, bc_BalanceAfter change, bc_NewVersion change))) Q) w2"
    proof (cases "change_of now r amount dir")
      case (Inl e)
      then show ?thesis
        using st 2 by (auto intro!: err simp: blamed_def change_refused_def)
    next
      case (Inr x)
      obtain ch w3 where x: "x = (ch, w3)" by (cases x)
      have "wp (bind_err (WalletRepo_UpdateBalanceTx E t (wal_id w3) (bc_BalanceAfter ch) (wr_version r))
        (Errorf ''update wallet balance'')
        (\<lambda>_. ok (bc_BalanceBefore ch, bc_BalanceAfter ch, bc_NewVersion ch))) Q w2"
        using Inr st x by (intro wp_store_change [OF assms(1,2) st(2) dir 2(3)]) (auto intro: err ok)
      then show ?thesis using Inr x by simp
    qed
  qed
qed

lemma wp_WalletService_change:
  assumes "env_ok E" and "keys_inv d" and "w_txs w t = OpenTx d s" and "dir = DEBIT \<or> dir = CREDIT"
    and "\<And>e w'. w_db w' = w_db w \<Longrightarrow> blamed E (change_refused E d i amount dir e) \<Longrightarrow> Q (Inl e) w'"
    and "\<And>r b d' w'. w_db w' = w_db w \<Longrightarrow> w_txs w' t = OpenTx d' s \<Longrightarrow> changed E d i amount dir s r b d' \<Longrightarrow>
      Q (Inr (\<lparr>money_amount = wr_balance r, money_currency = BRL\<rparr>, b, wr_version r + 1)) w'"
  shows "wp (applyBalanceChange E (Some t) i amount dir) Q w"
proof (cases "i = ''''")
  case True
  then show ?thesis
    using assms(4) by (auto simp: applyBalanceChange_def wp_rules blamed_def change_refused_def intro!: assms(5))
next
  case False
  then show ?thesis
    using assms by (auto simp: applyBalanceChange_def intro!: wp_change_in_tx)
qed

end
