(* ===== verification/Wager_Service.thy ===== *)
theory Wager_Service
  imports Wallet_Service
begin

text \<open>
  \<^verbatim>\<open>internal/wagertransaction/service.go\<close>: the processing of a wager transaction (idempotency, the
  five kinds, rejection, parking behind a pending reference) and the resolution of a parked
  one. A transaction that a Go function changes through its pointer is passed on changed.
  The metrics registry is present in the wired program.
\<close>

section \<open>Requests and results\<close>

record Request =
  rq_ProviderID :: string
  rq_ExternalTransactionID :: string
  rq_PlayerID :: string
  rq_WalletID :: string
  rq_RoundID :: string
  rq_GameID :: string
  rq_Kind :: string
  rq_Money :: MoneyDTO
  rq_ReferenceExternalID :: string
  rq_IdempotencyKey :: string

record ProcessResult =
  pr_TransactionID :: string
  pr_Status :: string
  pr_Balance :: Money
  pr_IdempotentReplay :: bool

definition consumerName :: string where
  "consumerName = ''sqs-wager-transactions''"

definition maxRefAttempts :: int where
  "maxRefAttempts = 10"

definition TxService_FindByID :: "env \<Rightarrow> string \<Rightarrow> Transaction go" where
  "TxService_FindByID E i = TxRepo_FindByID E i"

definition TxService_FindByProviderAndExternalID :: "env \<Rightarrow> string \<Rightarrow> string \<Rightarrow> Transaction go" where
  "TxService_FindByProviderAndExternalID E providerID externalID =
     TxRepo_FindByProviderAndExternalID E providerID externalID"

definition getWalletBalance :: "env \<Rightarrow> string \<Rightarrow> Money go" where
  "getWalletBalance E walletID = bind_err (GetBalance E walletID) (Errorf ''get wallet balance'') ok"

definition service_result :: "Transaction \<Rightarrow> Money \<Rightarrow> ProcessResult" where
  "service_result tx balance =
     \<lparr>pr_TransactionID = tx_id tx, pr_Status = TransactionStatus_string (tx_status tx), pr_Balance = balance,
      pr_IdempotentReplay = False\<rparr>"

section \<open>Validation and error codes\<close>

definition validateReference :: "Transaction \<Rightarrow> Transaction \<Rightarrow> wager_error option" where
  "validateReference tx ref =
     (if tx_provider ref \<noteq> tx_provider tx then Some Wager_ErrProviderMismatch
      else if tx_playerID ref \<noteq> tx_playerID tx then Some Wager_ErrPlayerMismatch
      else if tx_walletID ref \<noteq> tx_walletID tx then Some Wager_ErrWalletMismatch
      else if money_currency (tx_amount ref) \<noteq> money_currency (tx_amount tx) then Some Wager_ErrCurrencyMismatch
      else if tx_roundID ref \<noteq> tx_roundID tx then Some Wager_ErrRoundMismatch
      else None)"

text \<open>The error of \<^verbatim>\<open>Compare\<close> is dropped; its result is then 0.\<close>

definition validateReversalValue :: "Money \<Rightarrow> Transaction \<Rightarrow> wager_error option" where
  "validateReversalValue amount ref =
     (let cmp = (case Money_Compare amount (tx_amount ref) of Inl _ \<Rightarrow> 0 | Inr c \<Rightarrow> c)
      in if cmp \<noteq> 0 then Some Wager_ErrReversalValueMismatch else None)"

definition mapWalletError :: "gerr \<Rightarrow> string" where
  "mapWalletError err =
     (if errors_is err (WalletErr Wallet_ErrInsufficientBalance) \<or> Error err = ''insufficient_balance''
        then ''INSUFFICIENT_BALANCE''
      else if errors_is err (WalletErr Wallet_ErrCurrencyMismatch) \<or> Error err = ''currency_mismatch''
        then ''CURRENCY_MISMATCH''
      else ''WALLET_ERROR'')"

definition mapWalletErrorForReversal :: "gerr \<Rightarrow> string" where
  "mapWalletErrorForReversal err =
     (if errors_is err (WalletErr Wallet_ErrInsufficientBalance) \<or> Error err = ''insufficient_balance''
        then ''REVERSAL_INSUFFICIENT_BALANCE''
      else if errors_is err (WalletErr Wallet_ErrCurrencyMismatch) \<or> Error err = ''currency_mismatch''
        then ''CURRENCY_MISMATCH''
      else ''WALLET_ERROR'')"

definition mapValidationError :: "wager_error \<Rightarrow> string" where
  "mapValidationError err =
     (if err = Wager_ErrProviderMismatch then ''PROVIDER_MISMATCH''
      else if err = Wager_ErrPlayerMismatch then ''PLAYER_MISMATCH''
      else if err = Wager_ErrWalletMismatch then ''WALLET_MISMATCH''
      else if err = Wager_ErrCurrencyMismatch then ''CURRENCY_MISMATCH''
      else if err = Wager_ErrRoundMismatch then ''ROUND_MISMATCH''
      else ''VALIDATION_ERROR'')"

section \<open>Events\<close>

definition wager_event :: "string \<Rightarrow> string \<Rightarrow> string \<Rightarrow> string \<Rightarrow> string \<Rightarrow> time \<Rightarrow> event_data \<Rightarrow> Event" where
  "wager_event txID suffix0 eventType aggregateType aggregateID occurredAt payload0 =
     \<lparr>ev_EventID = evt_id txID suffix0, ev_EventType = eventType, ev_AggregateType = aggregateType,
      ev_AggregateID = aggregateID, ev_CorrelationID = txID, ev_CausationID = '''',
      ev_OccurredAt = occurredAt, ev_Version = 1, ev_Data = payload0\<rparr>"

definition rejected_event :: "Transaction \<Rightarrow> string \<Rightarrow> Event" where
  "rejected_event tx failureCode =
     wager_event (tx_id tx) ''-rejected'' ''WagerTransactionRejected'' ''WagerTransaction'' (tx_id tx) (tx_updatedAt tx)
       (RejectedData \<lparr>rd_TransactionID = tx_id tx, rd_ExternalID = tx_externalID tx,
          rd_ProviderID = tx_provider tx, rd_PlayerID = tx_playerID tx, rd_WalletID = tx_walletID tx,
          rd_Kind = TransactionType_string (tx_transactionType tx), rd_Money = tx_amount tx,
          rd_FailureCode = failureCode\<rparr>)"

definition pending_event :: "Transaction \<Rightarrow> Event" where
  "pending_event tx =
     wager_event (tx_id tx) ''-pending-ref'' ''WagerTransactionPendingReference'' ''WagerTransaction'' (tx_id tx)
       (tx_updatedAt tx)
       (PendingReferenceData \<lparr>qd_TransactionID = tx_id tx, qd_ExternalID = tx_externalID tx,
          qd_ProviderID = tx_provider tx, qd_ReferenceExtID = tx_externalReference tx,
          qd_PlayerID = tx_playerID tx, qd_WalletID = tx_walletID tx,
          qd_Kind = TransactionType_string (tx_transactionType tx)\<rparr>)"

text \<open>The event of \<^verbatim>\<open>processLoss\<close>, which leaves out round, game, reference and status.\<close>

definition loss_event :: "Transaction \<Rightarrow> Event" where
  "loss_event tx =
     wager_event (tx_id tx) ''-processed'' ''WagerTransactionProcessed'' ''WagerTransaction'' (tx_id tx) (tx_updatedAt tx)
       (ProcessedData \<lparr>pd_TransactionID = tx_id tx, pd_ExternalID = tx_externalID tx,
          pd_ProviderID = tx_provider tx, pd_PlayerID = tx_playerID tx, pd_WalletID = tx_walletID tx,
          pd_RoundID = '''', pd_GameID = '''', pd_Kind = TransactionType_string (tx_transactionType tx),
          pd_Money = tx_amount tx, pd_ReferenceExtID = '''', pd_Status = '''', pd_FailureCode = ''''\<rparr>)"

definition buildTransactionEvents :: "Transaction \<Rightarrow> Direction \<Rightarrow> Money \<Rightarrow> Money \<Rightarrow> Money \<Rightarrow> int64 \<Rightarrow> Event list" where
  "buildTransactionEvents tx dir amount balBefore balAfter walletVersion =
     [wager_event (tx_id tx) ''-processed'' ''WagerTransactionProcessed'' ''WagerTransaction'' (tx_id tx) (tx_updatedAt tx)
        (ProcessedData \<lparr>pd_TransactionID = tx_id tx, pd_ExternalID = tx_externalID tx,
           pd_ProviderID = tx_provider tx, pd_PlayerID = tx_playerID tx, pd_WalletID = tx_walletID tx,
           pd_RoundID = tx_roundID tx, pd_GameID = tx_gameID tx,
           pd_Kind = TransactionType_string (tx_transactionType tx), pd_Money = tx_amount tx,
           pd_ReferenceExtID = tx_externalReference tx,
           pd_Status = TransactionStatus_string (tx_status tx), pd_FailureCode = ''''\<rparr>)] @
     (if IsZero amount then []
      else [wager_event (tx_id tx) ''-balance'' ''WalletBalanceChanged'' ''Wallet'' (tx_walletID tx) (tx_updatedAt tx)
        (BalanceChangedData \<lparr>bd_WalletID = tx_walletID tx, bd_TransactionID = tx_id tx,
           bd_Direction = Direction_string dir, bd_Money = amount, bd_BalanceBefore = balBefore,
           bd_BalanceAfter = balAfter, bd_WalletVersion = walletVersion\<rparr>)])"

section \<open>Steps shared by the handlers\<close>

text \<open>The methods of the aggregate that read the clock.\<close>

definition set_failure :: "env \<Rightarrow> string \<Rightarrow> Transaction \<Rightarrow> Transaction eff" where
  "set_failure E code tx = do { now \<leftarrow> time_Now E; ret (SetFailureCode now code tx) }"

definition transition :: "env \<Rightarrow> TransactionStatus \<Rightarrow> Transaction \<Rightarrow> Transaction eff" where
  "transition E st tx = do { n1 \<leftarrow> time_Now E; n2 \<leftarrow> time_Now E; ret (TransitionTo_stmt n1 n2 st tx) }"

definition set_reference_id :: "env \<Rightarrow> string \<Rightarrow> Transaction \<Rightarrow> Transaction eff" where
  "set_reference_id E ref tx = do { now \<leftarrow> time_Now E; ret (SetInternalReference now ref tx) }"

text \<open>\<^verbatim>\<open>payload, _ := json.Marshal(ev)\<close> and \<^verbatim>\<open>CreateOutboxEventTx\<close>\<close>

definition emit :: "env \<Rightarrow> nat \<Rightarrow> string \<Rightarrow> Event \<Rightarrow> unit go" where
  "emit E t msg ev =
     bind_err (TxRepo_CreateOutboxEventTx E t (ev_AggregateType ev) (ev_AggregateID ev) (ev_EventType ev)
       (marshal_payload ev)) (Errorf msg) ok"

fun emit_all :: "env \<Rightarrow> nat \<Rightarrow> string \<Rightarrow> Event list \<Rightarrow> unit go" where
  "emit_all E t msg [] = ok ()"
| "emit_all E t msg (ev # evs) = bind_err (emit E t msg ev) (\<lambda>e. e) (\<lambda>_. emit_all E t msg evs)"

text \<open>Insert the transaction, then an event about it; the result carries the new identifier.\<close>

definition insert_with_event ::
  "env \<Rightarrow> nat \<Rightarrow> string \<Rightarrow> string \<Rightarrow> Transaction \<Rightarrow> (Transaction \<Rightarrow> Event) \<Rightarrow> Transaction go" where
  "insert_with_event E t msg1 msg2 tx mk =
     bind_err (TxRepo_CreateTransactionTx E t tx) (Errorf msg1) (\<lambda>txID.
     let tx' = SetID txID tx in
     bind_err (emit E t msg2 (mk tx')) (\<lambda>e. e) (\<lambda>_. ok tx'))"

definition record_inbox :: "env \<Rightarrow> nat \<Rightarrow> string \<Rightarrow> unit go" where
  "record_inbox E t messageID =
     (if messageID \<noteq> '''' then
        bind_err (InboxRepo_RecordReceivedTx E t consumerName messageID '''') (Errorf ''record inbox'') (\<lambda>_. ok ())
      else ok ())"

definition complete_inbox :: "env \<Rightarrow> nat \<Rightarrow> string \<Rightarrow> unit eff" where
  "complete_inbox E t messageID =
     (if messageID \<noteq> '''' then do { _ \<leftarrow> InboxRepo_MarkCompletedTx E t consumerName messageID; ret () } else ret ())"

text \<open>\<^verbatim>\<open>w, _ := s.getWalletBalance(...)\<close>\<close>

definition balance_or_zero :: "env \<Rightarrow> string \<Rightarrow> Money eff" where
  "balance_or_zero E walletID = do {
     r \<leftarrow> getWalletBalance E walletID;
     ret (case r of Inl _ \<Rightarrow> no_money | Inr b \<Rightarrow> b)
   }"

definition rejected_result :: "env \<Rightarrow> Transaction \<Rightarrow> ProcessResult go" where
  "rejected_result E tx = do {
     b \<leftarrow> balance_or_zero E (tx_walletID tx);
     ok \<lparr>pr_TransactionID = tx_id tx, pr_Status = TransactionStatus_string REJECTED, pr_Balance = b,
         pr_IdempotentReplay = False\<rparr>
   }"

definition pending_result :: "Transaction \<Rightarrow> ProcessResult" where
  "pending_result tx = \<lparr>pr_TransactionID = tx_id tx, pr_Status = TransactionStatus_string PENDING_REFERENCE,
     pr_Balance = no_money, pr_IdempotentReplay = False\<rparr>"

section \<open>Rejection\<close>

definition createAndReject :: "env \<Rightarrow> Transaction \<Rightarrow> string \<Rightarrow> unit go" where
  "createAndReject E tx0 failureCode = do {
     tx1 \<leftarrow> set_failure E failureCode tx0;
     tx \<leftarrow> transition E REJECTED tx1;
     bind_err (TxManager_Begin E) (Errorf ''begin create-reject transaction'') (\<lambda>t. defer_Rollback t (
     bind_err (insert_with_event E t ''insert rejected transaction'' ''insert rejected outbox event'' tx
         (\<lambda>tx'. rejected_event tx' failureCode)) (\<lambda>e. e) (\<lambda>_.
     tx_Commit E t)))
   }"

definition reject :: "env \<Rightarrow> Transaction \<Rightarrow> string \<Rightarrow> ProcessResult go" where
  "reject E tx0 failureCode = do {
     tx1 \<leftarrow> set_failure E failureCode tx0;
     tx \<leftarrow> transition E REJECTED tx1;
     bind_err (TxManager_Begin E) (Errorf ''begin reject transaction'') (\<lambda>t. defer_Rollback t (
     bind_err (insert_with_event E t ''insert rejected transaction'' ''insert rejected outbox event'' tx
         (\<lambda>tx'. rejected_event tx' failureCode)) (\<lambda>e. e) (\<lambda>tx'.
     bind_err (tx_Commit E t) (Errorf ''commit reject'') (\<lambda>_.
     rejected_result E tx'))))
   }"

section \<open>Committing a balance change\<close>

definition commitWithLedger ::
  "env \<Rightarrow> nat \<Rightarrow> Transaction \<Rightarrow> Direction \<Rightarrow> Money \<Rightarrow> Money \<Rightarrow> Money \<Rightarrow> int64 \<Rightarrow> string \<Rightarrow> Transaction go" where
  "commitWithLedger E t tx0 dir amount balBefore balAfter walletVersion messageID =
     bind_err (record_inbox E t messageID) (\<lambda>e. e) (\<lambda>_. do {
       tx \<leftarrow> transition E PROCESSED tx0;
       created \<leftarrow> TxRepo_CreateTransactionTx E t tx;
       (case created of
          Inl err \<Rightarrow>
            if isUniqueViolation err then
              (if (tx_transactionType tx = REFUND \<or> tx_transactionType tx = ROLLBACK) \<and> tx_internalReference tx \<noteq> ''''
               then do { _ \<leftarrow> tx_Rollback t; fail (wager_err Wager_ErrDoubleReversal) }
               else do {
                 existing \<leftarrow> TxRepo_FindByIdempotencyKey E (tx_provider tx) (tx_idempotencyKey tx);
                 (case existing of
                    Inr _ \<Rightarrow> do { _ \<leftarrow> tx_Rollback t; fail (wager_err Wager_ErrIdempotentDuplicate) }
                  | Inl _ \<Rightarrow> fail (Errorf ''insert transaction'' err))
               })
            else fail (Errorf ''insert transaction'' err)
        | Inr txID \<Rightarrow>
            let tx' = SetID txID tx in
            bind_err (TxRepo_CreateWalletLedgerEntryTx E t (tx_walletID tx') txID dir (money_amount amount)
                (money_currency amount) (money_amount balBefore) (money_amount balAfter))
              (Errorf ''insert ledger entry'') (\<lambda>_.
            bind_err (emit_all E t ''insert outbox event''
                (buildTransactionEvents tx' dir amount balBefore balAfter walletVersion)) (\<lambda>e. e) (\<lambda>_. do {
              _ \<leftarrow> complete_inbox E t messageID;
              bind_err (tx_Commit E t) (Errorf ''commit'') (\<lambda>_. ok tx')
            })))
     })"

section \<open>The five kinds\<close>

text \<open>The branch of \<^verbatim>\<open>processBet\<close> and \<^verbatim>\<open>processWin\<close> after a wallet error.\<close>

definition fail_wallet :: "env \<Rightarrow> nat \<Rightarrow> Transaction \<Rightarrow> gerr \<Rightarrow> ProcessResult go" where
  "fail_wallet E t tx0 err = do {
     _ \<leftarrow> tx_Rollback t;
     tx1 \<leftarrow> set_failure E (mapWalletError err) tx0;
     tx \<leftarrow> (if mapWalletError err = ''INSUFFICIENT_BALANCE'' \<or> mapWalletError err = ''CURRENCY_MISMATCH'' then do {
              b \<leftarrow> getWalletBalance E (tx_walletID tx1);
              ret (case b of Inl _ \<Rightarrow> tx1 | Inr bal \<Rightarrow> SetResultBalance bal tx1)
            } else ret tx1);
     _ \<leftarrow> createAndReject E tx (mapWalletError err);
     (if errors_is err (WalletErr Wallet_ErrConcurrentUpdate) then do {
        _ \<leftarrow> count_metric (\<lambda>m. m\<lparr>mt_conflicts := Suc (mt_conflicts m)\<rparr>);
        fail err
      } else do {
        _ \<leftarrow> count_metric (\<lambda>m. m\<lparr>mt_rejected := Suc (mt_rejected m)\<rparr>);
        fail (Errorf2 (wager_err Wager_ErrInsufficientBalance) err)
      })
   }"

definition count_processed :: "unit eff" where
  "count_processed = count_metric (\<lambda>m. m\<lparr>mt_processed := Suc (mt_processed m)\<rparr>)"

definition processBet :: "env \<Rightarrow> Transaction \<Rightarrow> Money \<Rightarrow> string \<Rightarrow> ProcessResult go" where
  "processBet E tx amount messageID =
     bind_err (TxManager_Begin E) (Errorf ''begin bet transaction'') (\<lambda>t. defer_Rollback t (do {
       change \<leftarrow> WalletService_Debit E (Some t) (tx_walletID tx) amount;
       (case change of
          Inl err \<Rightarrow> fail_wallet E t tx err
        | Inr (balBefore, balAfter, walletVersion) \<Rightarrow>
            bind_err (commitWithLedger E t (SetResultBalance balAfter tx) DEBIT amount balBefore balAfter
                walletVersion messageID) (\<lambda>e. e) (\<lambda>tx'. do {
              _ \<leftarrow> count_processed;
              ok (service_result tx' balAfter)
            }))
     }))"

text \<open>The part of \<^verbatim>\<open>processWin\<close> after the reference is checked.\<close>

definition credit_win :: "env \<Rightarrow> Transaction \<Rightarrow> Money \<Rightarrow> string \<Rightarrow> ProcessResult go" where
  "credit_win E tx amount messageID =
     bind_err (TxManager_Begin E) (Errorf ''begin win transaction'') (\<lambda>t. defer_Rollback t (do {
       change \<leftarrow> WalletService_Credit E (Some t) (tx_walletID tx) amount;
       (case change of
          Inl err \<Rightarrow> fail_wallet E t tx err
        | Inr (balBefore, balAfter, walletVersion) \<Rightarrow>
            bind_err (commitWithLedger E t (SetResultBalance balAfter tx) CREDIT amount balBefore balAfter
                walletVersion messageID) (\<lambda>e. e) (\<lambda>tx'. do {
              _ \<leftarrow> count_processed;
              ok (service_result tx' balAfter)
            }))
     }))"

text \<open>The checks of a win's reference, in their order: the failure code of the first that fails.\<close>

definition win_reference_code :: "Transaction \<Rightarrow> Transaction \<Rightarrow> string option" where
  "win_reference_code tx ref =
     (if tx_transactionType ref \<noteq> BET then Some ''REFERENCE_NOT_FOUND''
      else if tx_playerID ref \<noteq> tx_playerID tx then Some ''PLAYER_MISMATCH''
      else if tx_walletID ref \<noteq> tx_walletID tx then Some ''WALLET_MISMATCH''
      else if money_currency (tx_amount ref) \<noteq> money_currency (tx_amount tx) then Some ''CURRENCY_MISMATCH''
      else if tx_roundID ref \<noteq> tx_roundID tx then Some ''ROUND_MISMATCH''
      else None)"

definition processWin :: "env \<Rightarrow> Transaction \<Rightarrow> Request \<Rightarrow> Money \<Rightarrow> string \<Rightarrow> ProcessResult go" where
  "processWin E tx req amount messageID =
     (if rq_ReferenceExternalID req \<noteq> '''' then do {
        found \<leftarrow> TxRepo_FindByProviderAndExternalID E (rq_ProviderID req) (rq_ReferenceExternalID req);
        (case found of
           Inl err \<Rightarrow>
             if errors_is err (WagerErr Wager_ErrTransactionNotFound) then reject E tx ''REFERENCE_NOT_FOUND''
             else fail err
         | Inr ref \<Rightarrow>
             (case win_reference_code tx ref of
                Some code \<Rightarrow> reject E tx code
              | None \<Rightarrow> credit_win E tx amount messageID))
      } else credit_win E tx amount messageID)"

definition processLoss :: "env \<Rightarrow> Transaction \<Rightarrow> string \<Rightarrow> ProcessResult go" where
  "processLoss E tx0 messageID = do {
     tx1 \<leftarrow> transition E PROCESSED tx0;
     bind_err (TxManager_Begin E) (Errorf ''begin loss transaction'') (\<lambda>t. defer_Rollback t (
     bind_err (getWalletBalance E (tx_walletID tx1)) (\<lambda>e. e) (\<lambda>b.
     let tx = SetResultBalance b tx1 in
     bind_err (record_inbox E t messageID) (\<lambda>e. e) (\<lambda>_.
     bind_err (insert_with_event E t ''insert loss transaction'' ''insert processed outbox event'' tx loss_event)
       (\<lambda>e. e) (\<lambda>tx'. do {
         _ \<leftarrow> complete_inbox E t messageID;
         bind_err (tx_Commit E t) (Errorf ''commit loss'') (\<lambda>_. do {
           _ \<leftarrow> count_processed;
           bind_err (getWalletBalance E (tx_walletID tx')) (\<lambda>e. e) (\<lambda>b2. ok (service_result tx' b2))
         })
       })))))
   }"

text \<open>The branch of \<^verbatim>\<open>processRefund\<close> and \<^verbatim>\<open>processRollback\<close> for a reference that is still pending.\<close>

definition park_pending :: "env \<Rightarrow> Transaction \<Rightarrow> ProcessResult go" where
  "park_pending E tx0 = do {
     tx \<leftarrow> transition E PENDING_REFERENCE tx0;
     bind_err (TxManager_Begin E) (Errorf ''begin pending-ref transaction'') (\<lambda>t. defer_Rollback t (
     bind_err (insert_with_event E t ''insert pending-ref transaction'' ''insert pending-ref outbox event'' tx
         pending_event) (\<lambda>e. e) (\<lambda>tx'.
     bind_err (tx_Commit E t) (Errorf ''commit pending-ref'') (\<lambda>_. ok (pending_result tx')))))
   }"

text \<open>The branch of both after a wallet error.\<close>

definition fail_reversal :: "env \<Rightarrow> nat \<Rightarrow> Transaction \<Rightarrow> gerr \<Rightarrow> ProcessResult go" where
  "fail_reversal E t tx0 err = do {
     _ \<leftarrow> tx_Rollback t;
     tx1 \<leftarrow> set_failure E (mapWalletErrorForReversal err) tx0;
     tx \<leftarrow> (if mapWalletErrorForReversal err = ''REVERSAL_INSUFFICIENT_BALANCE'' \<or>
               mapWalletErrorForReversal err = ''CURRENCY_MISMATCH'' then do {
              b \<leftarrow> getWalletBalance E (tx_walletID tx1);
              ret (case b of Inl _ \<Rightarrow> tx1 | Inr bal \<Rightarrow> SetResultBalance bal tx1)
            } else ret tx1);
     _ \<leftarrow> createAndReject E tx (mapWalletErrorForReversal err);
     fail err
   }"

text \<open>\<^verbatim>\<open>hasReversal, _ := s.repo.HasSuccessfulReversal(...)\<close>\<close>

definition has_reversal :: "env \<Rightarrow> string \<Rightarrow> bool eff" where
  "has_reversal E ref = do {
     r \<leftarrow> TxRepo_HasSuccessfulReversal E ref;
     ret (case r of Inl _ \<Rightarrow> False | Inr b \<Rightarrow> b)
   }"

text \<open>The end of both: credit or debit the wallet and commit with the reference set.\<close>

definition apply_reversal ::
  "env \<Rightarrow> nat \<Rightarrow> Transaction \<Rightarrow> Transaction \<Rightarrow> Direction \<Rightarrow> Money \<Rightarrow> string \<Rightarrow> ProcessResult go" where
  "apply_reversal E t tx ref dir amount messageID = do {
     change \<leftarrow> (if dir = DEBIT then WalletService_Debit E (Some t) (tx_walletID tx) amount
                else WalletService_Credit E (Some t) (tx_walletID tx) amount);
     (case change of
        Inl err \<Rightarrow> fail_reversal E t tx err
      | Inr (balBefore, balAfter, walletVersion) \<Rightarrow> do {
          tx1 \<leftarrow> set_reference_id E (tx_id ref) tx;
          bind_err (commitWithLedger E t (SetResultBalance balAfter tx1) dir amount balBefore balAfter
              walletVersion messageID) (\<lambda>e. e) (\<lambda>tx'. ok (service_result tx' balAfter))
        })
   }"

text \<open>What both check before they open the transaction of the reversal.\<close>

definition with_reference ::
  "env \<Rightarrow> Transaction \<Rightarrow> Request \<Rightarrow> Money \<Rightarrow> (Transaction \<Rightarrow> ProcessResult go) \<Rightarrow> ProcessResult go" where
  "with_reference E tx req amount k =
     (if rq_ReferenceExternalID req = '''' then reject E tx ''MISSING_REFERENCE''
      else do {
        found \<leftarrow> TxRepo_FindByProviderAndExternalID E (rq_ProviderID req) (rq_ReferenceExternalID req);
        (case found of
           Inl err \<Rightarrow>
             if errors_is err (WagerErr Wager_ErrTransactionNotFound) then reject E tx ''REFERENCE_NOT_FOUND''
             else fail err
         | Inr ref \<Rightarrow>
             (case validateReference tx ref of
                Some e \<Rightarrow> reject E tx (mapValidationError e)
              | None \<Rightarrow>
                  if tx_status ref \<noteq> PROCESSED then
                    (if tx_status ref = PENDING \<or> tx_status ref = PENDING_REFERENCE then park_pending E tx
                     else reject E tx ''REFERENCE_NOT_SUCCESSFUL'')
                  else do {
                    hasReversal \<leftarrow> has_reversal E (tx_id ref);
                    (if hasReversal then reject E tx ''DOUBLE_REVERSAL''
                     else case validateReversalValue amount ref of
                            Some _ \<Rightarrow> reject E tx ''REVERSAL_VALUE_MISMATCH''
                          | None \<Rightarrow> k ref)
                  }))
      })"

definition processRefund :: "env \<Rightarrow> Transaction \<Rightarrow> Request \<Rightarrow> Money \<Rightarrow> string \<Rightarrow> ProcessResult go" where
  "processRefund E tx req amount messageID =
     with_reference E tx req amount (\<lambda>ref.
       bind_err (TxManager_Begin E) (Errorf ''begin refund transaction'') (\<lambda>t. defer_Rollback t (
         apply_reversal E t tx ref CREDIT amount messageID)))"

definition processRollback :: "env \<Rightarrow> Transaction \<Rightarrow> Request \<Rightarrow> Money \<Rightarrow> string \<Rightarrow> ProcessResult go" where
  "processRollback E tx req amount messageID =
     with_reference E tx req amount (\<lambda>ref.
       bind_err (TxManager_Begin E) (Errorf ''begin rollback transaction'') (\<lambda>t. defer_Rollback t (
         case tx_transactionType ref of
           BET \<Rightarrow> apply_reversal E t tx ref CREDIT amount messageID
         | WIN \<Rightarrow> apply_reversal E t tx ref DEBIT amount messageID
         | REFUND \<Rightarrow> apply_reversal E t tx ref DEBIT amount messageID
         | _ \<Rightarrow> reject E tx ''INVALID_REFERENCE_TYPE'')))"

section \<open>ProcessTransaction\<close>

definition handleReplay :: "env \<Rightarrow> Transaction \<Rightarrow> ProcessResult go" where
  "handleReplay E existing =
     bind_err (case tx_resultBalance existing of
                 Some b \<Rightarrow> ok b
               | None \<Rightarrow> getWalletBalance E (tx_walletID existing)) (\<lambda>e. e) (\<lambda>balance.
       ok \<lparr>pr_TransactionID = tx_id existing, pr_Status = TransactionStatus_string (tx_status existing),
           pr_Balance = balance, pr_IdempotentReplay = True\<rparr>)"

definition request_hash :: "env \<Rightarrow> Request \<Rightarrow> string" where
  "request_hash E req =
     ComputePayloadHash (env_sha256 E) (rq_ProviderID req) (rq_ExternalTransactionID req) (rq_PlayerID req)
       (rq_WalletID req) (rq_RoundID req) (rq_GameID req) (rq_Kind req) (dto_Amount (rq_Money req))
       (dto_Currency (rq_Money req)) (rq_ReferenceExternalID req)"

text \<open>The key of a request: the given one, else the request's, else \<^verbatim>\<open>provider:external id\<close>.\<close>

definition effective_key :: "string \<Rightarrow> Request \<Rightarrow> string" where
  "effective_key key req =
     (if key \<noteq> '''' then key
      else if rq_IdempotencyKey req \<noteq> '''' then rq_IdempotencyKey req
      else rq_ProviderID req @ '':'' @ rq_ExternalTransactionID req)"

definition dispatch :: "env \<Rightarrow> Transaction \<Rightarrow> Request \<Rightarrow> Money \<Rightarrow> string \<Rightarrow> ProcessResult go" where
  "dispatch E tx req parsed messageID =
     (case TransactionType_of (rq_Kind req) of
        BET \<Rightarrow> processBet E tx parsed messageID
      | WIN \<Rightarrow> processWin E tx req parsed messageID
      | LOSS \<Rightarrow> processLoss E tx messageID
      | REFUND \<Rightarrow> processRefund E tx req parsed messageID
      | ROLLBACK \<Rightarrow> processRollback E tx req parsed messageID
      | _ \<Rightarrow> fail (wager_err Wager_ErrInvalidTransactionType))"

text \<open>The end of \<^verbatim>\<open>ProcessTransaction\<close>, once the transaction is made.\<close>

definition process_built :: "env \<Rightarrow> Request \<Rightarrow> Money \<Rightarrow> string \<Rightarrow> string \<Rightarrow> Transaction \<Rightarrow> ProcessResult go" where
  "process_built E req parsed key messageID tx = do {
     result \<leftarrow> dispatch E tx req parsed messageID;
     (case result of
        Inl err \<Rightarrow>
          if errors_is err (WagerErr Wager_ErrIdempotentDuplicate) then do {
            existing \<leftarrow> TxRepo_FindByIdempotencyKey E (rq_ProviderID req) key;
            (case existing of Inr ex \<Rightarrow> handleReplay E ex | Inl _ \<Rightarrow> fail err)
          } else fail err
      | Inr r \<Rightarrow> ok r)
   }"

text \<open>The part of \<^verbatim>\<open>ProcessTransaction\<close> after no transaction with the key was found.\<close>

definition process_new :: "env \<Rightarrow> Request \<Rightarrow> string \<Rightarrow> string \<Rightarrow> ProcessResult go" where
  "process_new E req key messageID =
     bind_err (TxRepo_ExternalTransactionExists E (rq_ProviderID req) (rq_ExternalTransactionID req) key)
       (Errorf ''check external id'') (\<lambda>extExists.
     if extExists then fail (wager_err Wager_ErrExternalIDReuse)
     else if \<not> TransactionType_Valid (TransactionType_of (rq_Kind req))
       then fail (wager_err Wager_ErrInvalidTransactionType)
     else case ParseMoney (dto_Amount (rq_Money req)) (dto_Currency (rq_Money req)) of
       Inl err \<Rightarrow> fail (ErrorfV (wager_err Wager_ErrInvalidMoney) (money_err err))
     | Inr parsed \<Rightarrow> do {
         now \<leftarrow> time_Now E;
         (case NewExternalTransaction now '''' (rq_ProviderID req) (rq_ExternalTransactionID req) key
              (request_hash E req) (rq_WalletID req) (rq_PlayerID req) (rq_RoundID req) (rq_GameID req)
              (TransactionType_of (rq_Kind req)) parsed (rq_ReferenceExternalID req) of
            Inl err \<Rightarrow> fail err
          | Inr tx \<Rightarrow> process_built E req parsed key messageID tx)
       })"

definition ProcessTransaction :: "env \<Rightarrow> Request \<Rightarrow> string \<Rightarrow> string \<Rightarrow> ProcessResult go" where
  "ProcessTransaction E req idempotencyKey messageID = do {
     result \<leftarrow> (let key = effective_key idempotencyKey req in do {
       existing \<leftarrow> TxRepo_FindByIdempotencyKey E (rq_ProviderID req) key;
       (case existing of
          Inr ex \<Rightarrow> do {
            _ \<leftarrow> count_metric (\<lambda>m. m\<lparr>mt_duplicates := Suc (mt_duplicates m)\<rparr>);
            (if tx_payloadHash ex \<noteq> '''' \<and> tx_payloadHash ex \<noteq> request_hash E req
             then fail (wager_err Wager_ErrPayloadConflict)
             else handleReplay E ex)
          }
        | Inl err \<Rightarrow>
            if err \<noteq> wager_err Wager_ErrTransactionNotFound then fail (Errorf ''check idempotency'' err)
            else process_new E req key messageID)
     });
     _ \<leftarrow> count_metric (\<lambda>m. m\<lparr>mt_durations := Suc (mt_durations m)\<rparr>);
     ret result
   }"

section \<open>ResolvePendingReference\<close>

definition reject_row :: "env \<Rightarrow> nat \<Rightarrow> Transaction \<Rightarrow> string \<Rightarrow> unit go" where
  "reject_row E t tx failureCode =
     bind_err (TxRepo_UpdateStatusTx E t (tx_id tx) REJECTED failureCode) (Errorf ''update rejected status'') (\<lambda>_.
     bind_err (emit E t ''insert rejected outbox event'' (rejected_event tx failureCode)) (\<lambda>e. e) (\<lambda>_.
     bind_err (tx_Commit E t) (Errorf ''commit reject'') (\<lambda>_. ok ())))"

definition resolveRejectTx :: "env \<Rightarrow> nat \<Rightarrow> Transaction \<Rightarrow> string \<Rightarrow> ProcessResult go" where
  "resolveRejectTx E t tx0 failureCode = do {
     tx1 \<leftarrow> set_failure E failureCode tx0;
     tx \<leftarrow> transition E REJECTED tx1;
     bind_err (reject_row E t tx failureCode) (\<lambda>e. e) (\<lambda>_. rejected_result E tx)
   }"

definition resolveRejectInPlace :: "env \<Rightarrow> Transaction \<Rightarrow> string \<Rightarrow> ProcessResult go" where
  "resolveRejectInPlace E tx0 failureCode = do {
     tx1 \<leftarrow> set_failure E failureCode tx0;
     tx \<leftarrow> transition E REJECTED tx1;
     bind_err (TxManager_Begin E) (Errorf ''begin reject-in-place transaction'') (\<lambda>t. defer_Rollback t (
     bind_err (reject_row E t tx failureCode) (\<lambda>e. e) (\<lambda>_. rejected_result E tx)))
   }"

text \<open>The branch after a wallet error: the rejection is written in a transaction of its own.\<close>

definition resolve_wallet_error :: "env \<Rightarrow> nat \<Rightarrow> Transaction \<Rightarrow> gerr \<Rightarrow> ProcessResult go" where
  "resolve_wallet_error E t tx0 err = do {
     _ \<leftarrow> tx_Rollback t;
     tx \<leftarrow> set_failure E (mapWalletErrorForReversal err) tx0;
     bind_err (TxManager_Begin E) (Errorf ''begin reject transaction'') (\<lambda>t'. defer_Rollback t' (
     bind_err (reject_row E t' tx (mapWalletErrorForReversal err)) (\<lambda>e. e) (\<lambda>_.
     fail (Errorf2 (wager_err Wager_ErrInsufficientBalance) err))))
   }"

text \<open>The branch after the balance changed.\<close>

definition resolve_commit ::
  "env \<Rightarrow> nat \<Rightarrow> Transaction \<Rightarrow> Transaction \<Rightarrow> Direction \<Rightarrow> Money \<Rightarrow> Money \<Rightarrow> Money \<Rightarrow> int64 \<Rightarrow> ProcessResult go" where
  "resolve_commit E t tx0 ref dir amount balBefore balAfter walletVersion = do {
     tx1 \<leftarrow> set_reference_id E (tx_id ref) tx0;
     tx \<leftarrow> transition E PROCESSED (SetResultBalance balAfter tx1);
     bind_err (TxRepo_UpdateStatusTx E t (tx_id tx) PROCESSED '''') (Errorf ''update resolved status'') (\<lambda>_.
     bind_err (TxRepo_SetInternalReferenceTx E t (tx_id tx) (tx_id ref)) (Errorf ''set internal reference'') (\<lambda>_.
     bind_err (TxRepo_CreateWalletLedgerEntryTx E t (tx_walletID tx) (tx_id tx) dir (money_amount amount)
         (money_currency amount) (money_amount balBefore) (money_amount balAfter))
       (Errorf ''insert ledger entry'') (\<lambda>_.
     bind_err (emit_all E t ''insert outbox event''
         (buildTransactionEvents tx dir amount balBefore balAfter walletVersion)) (\<lambda>e. e) (\<lambda>_.
     bind_err (tx_Commit E t) (Errorf ''commit resolve'') (\<lambda>_. ok (service_result tx balAfter))))))
   }"

text \<open>The block for a reference that is \<^verbatim>\<open>PROCESSED\<close>.\<close>

definition resolve_processed :: "env \<Rightarrow> nat \<Rightarrow> Transaction \<Rightarrow> Transaction \<Rightarrow> ProcessResult go" where
  "resolve_processed E t tx ref = do {
     hasReversal \<leftarrow> has_reversal E (tx_id ref);
     (if hasReversal then resolveRejectTx E t tx ''DOUBLE_REVERSAL''
      else case validateReversalValue (tx_amount tx) ref of
        Some _ \<Rightarrow> resolveRejectTx E t tx ''REVERSAL_VALUE_MISMATCH''
      | None \<Rightarrow>
          (case reversal_direction (tx_transactionType tx) (tx_transactionType ref) of
             None \<Rightarrow> resolveRejectTx E t tx ''INVALID_REFERENCE_TYPE''
           | Some dir \<Rightarrow> do {
               change \<leftarrow> (if dir = DEBIT then WalletService_Debit E (Some t) (tx_walletID tx) (tx_amount tx)
                          else WalletService_Credit E (Some t) (tx_walletID tx) (tx_amount tx));
               (case change of
                  Inl err \<Rightarrow> resolve_wallet_error E t tx err
                | Inr (balBefore, balAfter, walletVersion) \<Rightarrow>
                    resolve_commit E t tx ref dir (tx_amount tx) balBefore balAfter walletVersion)
             }))
   }"

text \<open>\<^verbatim>\<open>_ = s.repo.IncrementRefAttemptsTx(...)\<close> and \<^verbatim>\<open>_ = dbTx.Commit(ctx)\<close>\<close>

definition count_attempt :: "env \<Rightarrow> nat \<Rightarrow> Transaction \<Rightarrow> unit eff" where
  "count_attempt E t tx = do {
     _ \<leftarrow> TxRepo_IncrementRefAttemptsTx E t (tx_id tx);
     _ \<leftarrow> tx_Commit E t;
     ret ()
   }"

definition resolve_claimed :: "env \<Rightarrow> nat \<Rightarrow> Transaction \<Rightarrow> ProcessResult go" where
  "resolve_claimed E t tx =
     (if maxRefAttempts \<le> tx_refAttempts tx then resolveRejectTx E t tx ''REFERENCE_NOT_FOUND''
      else do {
        found \<leftarrow> TxRepo_FindByProviderAndExternalID E (tx_provider tx) (tx_externalReference tx);
        (case found of
           Inl err \<Rightarrow>
             if errors_is err (WagerErr Wager_ErrTransactionNotFound) then do {
               _ \<leftarrow> count_attempt E t tx;
               resolveRejectInPlace E tx ''REFERENCE_NOT_FOUND''
             } else fail err
         | Inr ref \<Rightarrow>
             if tx_status ref = PENDING \<or> tx_status ref = PENDING_REFERENCE then do {
               _ \<leftarrow> count_attempt E t tx;
               _ \<leftarrow> count_metric (\<lambda>m. m\<lparr>mt_retries := Suc (mt_retries m)\<rparr>);
               ok (pending_result tx)
             }
             else if tx_status ref = REJECTED \<or> tx_status ref = FAILED
               then resolveRejectTx E t tx ''REFERENCE_NOT_SUCCESSFUL''
             else if tx_status ref = PROCESSED then resolve_processed E t tx ref
             else resolveRejectInPlace E tx ''REFERENCE_NOT_SUCCESSFUL'')
      })"

definition ResolvePendingReference :: "env \<Rightarrow> string \<Rightarrow> ProcessResult go" where
  "ResolvePendingReference E txID =
     bind_err (TxRepo_FindByID E txID) (Errorf ''find pending transaction'') (\<lambda>tx.
     if tx_status tx \<noteq> PENDING_REFERENCE then ok (service_result tx no_money)
     else
       bind_err (TxManager_Begin E) (Errorf ''begin resolve transaction'') (\<lambda>t. defer_Rollback t (
       bind_err (TxRepo_ClaimPendingReferenceTx E t txID) (Errorf ''claim pending reference'') (\<lambda>claimed.
       if \<not> claimed then do { _ \<leftarrow> tx_Rollback t; ok (service_result tx no_money) }
       else resolve_claimed E t tx))))"

end
