(* ===== verification/Wager_Refinement.thy ===== *)
theory Wager_Refinement
  imports Wager_Service
begin

text \<open>
  Rules for the statements and shared steps of the wager service: what each leaves in its
  transaction and in the database, on success and under every failure. The handlers are put
  together from them.
\<close>

section \<open>Weakest preconditions of the statements\<close>

abbreviation canonical :: "env \<Rightarrow> string \<Rightarrow> bool" where
  "canonical E s \<equiv> env_uuid E s = Some s"

lemma canonical_gen [simp]: "env_ok E \<Longrightarrow> canonical E (env_gen E n d)"
  by (simp add: env_ok_def)

lemma inbox_commute [simp]:
  "add_tx r (set_inbox ib d) = set_inbox ib (add_tx r d)" "add_ledger l (set_inbox ib d) = set_inbox ib (add_ledger l d)"
  "add_events evs (set_inbox ib d) = set_inbox ib (add_events evs d)" "set_inbox ib (set_inbox ib' d) = set_inbox ib d"
  by (simp_all add: table_defs)

lemma add_events_simps [simp]:
  "add_events [] d = d" "add_events evs (add_events evs' d) = add_events (evs' @ evs) d"
  by (simp_all add: table_defs)

lemma set_inbox_same [simp]: "set_inbox (db_inbox d) d = d"
  by (simp add: set_inbox_def)

text \<open>
  \<open>row_for E tx n d\<close> is the row that inserting \<open>tx\<close> adds; \<open>storable\<close> are the conditions of the insertion
  except a clash of the generated identifier.
\<close>

definition row_for :: "env \<Rightarrow> Transaction \<Rightarrow> tx_row \<Rightarrow> bool" where
  "row_for E tx r \<longleftrightarrow> (\<exists>n d wid pid. env_uuid E (tx_walletID tx) = Some wid \<and>
     env_uuid E (tx_playerID tx) = Some pid \<and> r = row_of_tx (env_gen E n d) wid pid tx)"

definition storable :: "env \<Rightarrow> Transaction \<Rightarrow> db \<Rightarrow> bool" where
  "storable E tx d \<longleftrightarrow>
     (\<exists>wid pid. env_uuid E (tx_walletID tx) = Some wid \<and> env_uuid E (tx_playerID tx) = Some pid \<and>
       (\<forall>i. i \<notin> set (map tr_id (db_txs d)) \<longrightarrow>
          tx_constraints (row_of_tx i wid pid tx) (db_txs d) (db_wallets d) = None))"

lemma storable_set_inbox [simp]: "storable E tx (set_inbox ib d) = storable E tx d"
  by (simp add: storable_def)

lemma fresh_tx: "fresh_ids E \<Longrightarrow> env_gen E n d \<notin> set (map tr_id (db_txs d))"
  unfolding fresh_ids_def by (metis Un_iff set_append)

lemma fresh_outbox: "fresh_ids E \<Longrightarrow> env_gen E n d \<notin> set (map or_id (db_outbox d))"
  unfolding fresh_ids_def by (metis Un_iff set_append)

lemma fresh_ledger: "fresh_ids E \<Longrightarrow> env_gen E n d \<notin> set (map lr_id (db_ledger d))"
  unfolding fresh_ids_def by (metis Un_iff set_append)

lemma wp_CreateTransactionTx:
  assumes "w_txs w t = OpenTx d s"
    and err: "\<And>e w'. w_db w' = w_db w \<Longrightarrow> blamed E (\<not> storable E tx d) \<Longrightarrow> Q (Inl e) w'"
    and ok: "\<And>r w'. w_db w' = w_db w \<Longrightarrow> w_txs w' t = OpenTx (add_tx r d) s \<Longrightarrow> row_for E tx r \<Longrightarrow>
      tx_constraints r (db_txs d) (db_wallets d) = None \<Longrightarrow> Q (Inr (tr_id r)) w'"
  shows "wp (TxRepo_CreateTransactionTx E t tx) Q w"
  unfolding TxRepo_CreateTransactionTx_def wp_bind_err
proof (rule wp_tx_stmt [OF assms(1)], goal_cases)
  case (1 e w' n)
  have "fresh_ids E \<Longrightarrow> sql_insert_tx tx (stmt_ctx E s n) d = Inl e \<Longrightarrow> \<not> storable E tx d"
    using fresh_tx [of E n d]
    by (auto simp: storable_def sql_insert_tx_def as_uuid_def insert_tx_def split: option.splits)
  with 1 show ?case by (auto intro!: err simp: blamed_def calm_def)
next
  case (2 x d' w' n)
  then obtain wid pid where u: "env_uuid E (tx_walletID tx) = Some wid" "env_uuid E (tx_playerID tx) = Some pid"
      and i: "insert_tx (row_of_tx (env_gen E n d) wid pid tx) (stmt_ctx E s n) d = Inr (x, d')"
    by (auto simp: sql_insert_tx_def as_uuid_Inr)
  let ?r = "row_of_tx (env_gen E n d) wid pid tx"
  have "row_for E tx ?r" "x = tr_id ?r" "d' = add_tx ?r d" "tx_constraints ?r (db_txs d) (db_wallets d) = None"
    using u i by (auto simp: row_for_def insert_tx_Inr add_tx_def)
  then show ?case using 2 by (simp add: wp_rules ok)
qed

definition outbox_for :: "env \<Rightarrow> Event \<Rightarrow> outbox_row \<Rightarrow> bool" where
  "outbox_for E ev r \<longleftrightarrow> or_event_type r = ev_EventType ev \<and> or_aggregate_type r = ev_AggregateType ev \<and>
     env_uuid E (ev_AggregateID ev) = Some (or_aggregate_id r) \<and> or_payload r = ev \<and> or_published_at r = None \<and>
     or_attempts r = 0"

definition emittable :: "env \<Rightarrow> Event \<Rightarrow> bool" where
  "emittable E ev \<longleftrightarrow> marshal_payload ev \<noteq> None \<and> env_uuid E (ev_AggregateID ev) \<noteq> None"

lemma wp_CreateOutboxEventTx:
  assumes "w_txs w t = OpenTx d s"
    and err: "\<And>e w'. w_db w' = w_db w \<Longrightarrow> blamed E (\<not> emittable E ev) \<Longrightarrow> Q (Inl e) w'"
    and ok: "\<And>r w'. w_db w' = w_db w \<Longrightarrow> w_txs w' t = OpenTx (add_events [r] d) s \<Longrightarrow> outbox_for E ev r \<Longrightarrow> Q (Inr ()) w'"
  shows "wp (TxRepo_CreateOutboxEventTx E t (ev_AggregateType ev) (ev_AggregateID ev) (ev_EventType ev) (marshal_payload ev)) Q w"
  unfolding TxRepo_CreateOutboxEventTx_def wp_bind_err
proof (rule wp_tx_stmt [OF assms(1)], goal_cases)
  case (1 e w' n)
  have "fresh_ids E \<Longrightarrow> sql_insert_outbox (ev_AggregateType ev) (ev_AggregateID ev) (ev_EventType ev)
      (marshal_payload ev) (stmt_ctx E s n) d = Inl e \<Longrightarrow> \<not> emittable E ev"
    using fresh_outbox [of E n d]
    by (auto simp: emittable_def sql_insert_outbox_def as_uuid_def insert_outbox_def
        outbox_constraints_def list_ex_iff image_iff split: option.splits if_splits)
  with 1 show ?case by (auto intro!: err simp: blamed_def calm_def)
next
  case (2 x d' w' n)
  let ?r = "\<lambda>u. \<lparr>or_id = env_gen E n d, or_aggregate_type = ev_AggregateType ev, or_aggregate_id = u,
    or_event_type = ev_EventType ev, or_payload = ev, or_occurred_at = s, or_published_at = None,
    or_attempts = 0, or_next_attempt_at = s, or_last_error = None\<rparr>"
  from 2 obtain u where "env_uuid E (ev_AggregateID ev) = Some u" "d' = add_events [?r u] d"
    by (auto simp: sql_insert_outbox_def as_uuid_Inr insert_outbox_Inr add_events_def
        dest: marshal_payload_Some split: option.splits)
  then show ?case using 2 by (auto simp: wp_rules outbox_for_def intro!: ok [of _ "?r u"])
qed

lemma wp_emit:
  assumes "w_txs w t = OpenTx d s"
    and "\<And>e w'. w_db w' = w_db w \<Longrightarrow> blamed E (\<not> emittable E ev) \<Longrightarrow> Q (Inl e) w'"
    and "\<And>r w'. w_db w' = w_db w \<Longrightarrow> w_txs w' t = OpenTx (add_events [r] d) s \<Longrightarrow> outbox_for E ev r \<Longrightarrow> Q (Inr ()) w'"
  shows "wp (emit E t msg ev) Q w"
  unfolding emit_def wp_bind_err
  by (rule wp_CreateOutboxEventTx [OF assms(1)]) (auto simp: wp_ret intro!: assms(2,3))

lemma wp_emit_all:
  assumes "w_txs w t = OpenTx d s"
    and "\<And>e w'. w_db w' = w_db w \<Longrightarrow> blamed E (\<exists>ev \<in> set evs. \<not> emittable E ev) \<Longrightarrow> Q (Inl e) w'"
    and "\<And>rs w'. w_db w' = w_db w \<Longrightarrow> w_txs w' t = OpenTx (add_events rs d) s \<Longrightarrow>
      list_all2 (outbox_for E) evs rs \<Longrightarrow> Q (Inr ()) w'"
  shows "wp (emit_all E t msg evs) Q w"
  using assms
proof (induction evs arbitrary: w d Q)
  case Nil
  then show ?case by (simp add: wp_rules)
next
  case (Cons ev evs)
  show ?case
    unfolding emit_all.simps wp_bind_err
  proof (rule wp_emit [OF Cons.prems(1)], goal_cases)
    case (1 e w')
    then show ?case by (auto simp: blamed_def intro!: Cons.prems(2))
  next
    case (2 r w')
    show ?case
      unfolding sum.case
      by (rule Cons.IH [OF 2(2)]) (use 2 in \<open>auto simp: blamed_def intro!: Cons.prems(2,3)\<close>)
  qed
qed

definition entry_row :: "env \<Rightarrow> string \<Rightarrow> string \<Rightarrow> Direction \<Rightarrow> int64 \<Rightarrow> Currency \<Rightarrow> int64 \<Rightarrow> int64 \<Rightarrow> ledger_row \<Rightarrow> bool" where
  "entry_row E walletID transactionID dir amount cur b0 b1 l \<longleftrightarrow>
     env_uuid E walletID = Some (lr_wallet_id l) \<and> env_uuid E transactionID = Some (lr_transaction_id l) \<and>
     lr_direction l = dir \<and> lr_amount l = amount \<and> lr_currency l = cur \<and> lr_balance_before l = b0 \<and>
     lr_balance_after l = b1"

definition mk_entry :: "string \<Rightarrow> string \<Rightarrow> string \<Rightarrow> Direction \<Rightarrow> int64 \<Rightarrow> Currency \<Rightarrow> int64 \<Rightarrow> int64 \<Rightarrow> time \<Rightarrow> ledger_row" where
  "mk_entry i u v dir a cur b0 b1 now = \<lparr>lr_id = i, lr_wallet_id = u, lr_transaction_id = v, lr_direction = dir,
     lr_amount = a, lr_currency = cur, lr_balance_before = b0, lr_balance_after = b1, lr_created_at = now\<rparr>"

definition enterable :: "env \<Rightarrow> string \<Rightarrow> string \<Rightarrow> Direction \<Rightarrow> int64 \<Rightarrow> Currency \<Rightarrow> int64 \<Rightarrow> int64 \<Rightarrow> db \<Rightarrow> bool" where
  "enterable E walletID transactionID dir amount cur b0 b1 d \<longleftrightarrow>
     (\<exists>u v. env_uuid E walletID = Some u \<and> env_uuid E transactionID = Some v \<and>
       (\<forall>i now. i \<notin> set (map lr_id (db_ledger d)) \<longrightarrow>
          ledger_constraints (mk_entry i u v dir amount cur b0 b1 now) (db_ledger d) (db_txs d) (db_wallets d) = None))"

lemma wp_CreateWalletLedgerEntryTx:
  assumes "w_txs w t = OpenTx d s"
    and err: "\<And>e w'. w_db w' = w_db w \<Longrightarrow> blamed E (\<not> enterable E wid tid dir a cur b0 b1 d) \<Longrightarrow> Q (Inl e) w'"
    and ok: "\<And>l w'. w_db w' = w_db w \<Longrightarrow> w_txs w' t = OpenTx (add_ledger l d) s \<Longrightarrow>
      entry_row E wid tid dir a cur b0 b1 l \<Longrightarrow>
      ledger_constraints l (db_ledger d) (db_txs d) (db_wallets d) = None \<Longrightarrow> Q (Inr (lr_id l)) w'"
  shows "wp (TxRepo_CreateWalletLedgerEntryTx E t wid tid dir a cur b0 b1) Q w"
  unfolding TxRepo_CreateWalletLedgerEntryTx_def wp_bind_err
proof (rule wp_tx_stmt [OF assms(1)], goal_cases)
  case (1 e w' n)
  have "fresh_ids E \<Longrightarrow> sql_insert_ledger wid tid dir a cur b0 b1 (stmt_ctx E s n) d = Inl e \<Longrightarrow>
      \<not> enterable E wid tid dir a cur b0 b1 d"
    using fresh_ledger [of E n d]
    by (auto simp: enterable_def mk_entry_def sql_insert_ledger_def as_uuid_def insert_ledger_def
        split: option.splits)
  with 1 show ?case by (auto intro!: err simp: blamed_def calm_def)
next
  case (2 x d' w' n)
  then obtain u v where uv: "env_uuid E wid = Some u" "env_uuid E tid = Some v"
      and i: "insert_ledger (mk_entry (env_gen E n d) u v dir a cur b0 b1 s) (stmt_ctx E s n) d = Inr (x, d')"
    by (auto simp: sql_insert_ledger_def as_uuid_Inr mk_entry_def)
  let ?l = "mk_entry (env_gen E n d) u v dir a cur b0 b1 s"
  have "x = lr_id ?l" "d' = add_ledger ?l d" "entry_row E wid tid dir a cur b0 b1 ?l"
      "ledger_constraints ?l (db_ledger d) (db_txs d) (db_wallets d) = None"
    using uv i by (auto simp: insert_ledger_Inr add_ledger_def) (simp add: entry_row_def mk_entry_def)
  then show ?case using 2 by (simp add: wp_rules ok)
qed

lemma wp_record_inbox:
  assumes "w_txs w t = OpenTx d s"
    and err: "\<And>e w'. w_db w' = w_db w \<Longrightarrow> \<not> calm E \<Longrightarrow> Q (Inl e) w'"
    and ok: "\<And>ib w'. w_db w' = w_db w \<Longrightarrow> w_txs w' t = OpenTx (set_inbox ib d) s \<Longrightarrow> Q (Inr ()) w'"
  shows "wp (record_inbox E t messageID) Q w"
proof (cases "messageID = ''''")
  case True
  then show ?thesis
    using assms(1) by (auto simp: record_inbox_def wp_rules intro!: ok [of w "db_inbox d"])
next
  case False
  then show ?thesis
    unfolding record_inbox_def InboxRepo_RecordReceivedTx_def
    apply (simp add: wp_bind_err)
    apply (rule wp_tx_stmt [OF assms(1)])
    subgoal by (auto intro!: err simp: blamed_def sql_insert_inbox_def split: if_splits)
    subgoal for x d' w' n
      using ok [of w' "db_inbox d'"] by (auto simp: wp_rules sql_insert_inbox_def set_inbox_def split: if_splits)
    done
qed

lemma wp_complete_inbox:
  assumes "w_txs w t = OpenTx d s"
    and dead: "\<And>w'. w_db w' = w_db w \<Longrightarrow> w_txs w' t = AbortedTx \<Longrightarrow> \<not> calm E \<Longrightarrow> Q () w'"
    and ok: "\<And>ib w'. w_db w' = w_db w \<Longrightarrow> w_txs w' t = OpenTx (set_inbox ib d) s \<Longrightarrow> Q () w'"
  shows "wp (complete_inbox E t messageID) Q w"
proof (cases "messageID = ''''")
  case True
  then show ?thesis
    using assms(1) by (auto simp: complete_inbox_def wp_rules intro!: ok [of w "db_inbox d"])
next
  case False
  have same: "w_txs w' t = OpenTx d s \<Longrightarrow> w_db w' = w_db w \<Longrightarrow> Q () w'" for w'
    using ok [of w' "db_inbox d"] by simp
  have set: "sql_complete_inbox consumerName messageID c d = Inr (x, d') \<Longrightarrow> d' = set_inbox (db_inbox d') d" for c x d'
    by (auto simp: sql_complete_inbox_def set_inbox_def)
  from False show ?thesis
    unfolding complete_inbox_def InboxRepo_MarkCompletedTx_def
    apply (simp add: wp_bind_err wp_bind wp_ret)
    apply (rule wp_tx_stmt [OF assms(1)])
    subgoal for e w' n
      unfolding sum.case left_tx_def using dead same ok set
      by (auto simp: blamed_def sql_complete_inbox_def wp_ret)
    subgoal for x d' w' n
      unfolding sum.case wp_ret using ok set by metis
    done
qed

section \<open>Readings\<close>

lemma quiet_refl [simp]: "quiet w w"
  by (simp add: quiet_def)

lemma quiet_trans: "quiet w w' \<Longrightarrow> quiet w' w'' \<Longrightarrow> quiet w w''"
  by (simp add: quiet_def)

lemma quiet_db: "quiet w w' \<Longrightarrow> w_db w' = w_db w"
  by (simp add: quiet_def)

lemma quiet_txs: "quiet w w' \<Longrightarrow> w_txs w' = w_txs w"
  by (simp add: quiet_def)

lemma wp_pool_select:
  assumes "\<And>c x d'. f c (w_db w) = Inr (x, d') \<Longrightarrow> d' = w_db w"
    and "\<And>e w' n. quiet w w' \<Longrightarrow> blamed E (f (stmt_ctx E (env_pg_now E n) n) (w_db w) = Inl e) \<Longrightarrow> Q (Inl e) w'"
    and "\<And>x w' n. quiet w w' \<Longrightarrow> f (stmt_ctx E (env_pg_now E n) n) (w_db w) = Inr (x, w_db w) \<Longrightarrow> Q (Inr x) w'"
  shows "wp (pool_stmt E f) Q w"
proof (rule wp_pool_stmt, goal_cases)
  case (1 e w' n)
  then have "quiet w w'" using assms(1) by (auto simp: quiet_def)
  with 1 show ?case using assms(2) by blast
next
  case (2 x w' n)
  then have "w_db w' = w_db w" using assms(1) by blast
  with 2 show ?case using assms(3) [of w' n x] by (simp add: quiet_def)
qed

text \<open>
  \<open>lookup_err E d p e\<close>: how a search for the transaction with \<open>p\<close> can fail. The bare sentinel means
  that there is none.
\<close>

definition lookup_err :: "env \<Rightarrow> db \<Rightarrow> (tx_row \<Rightarrow> bool) \<Rightarrow> gerr \<Rightarrow> bool" where
  "lookup_err E d p e \<longleftrightarrow>
     (e = wager_err Wager_ErrTransactionNotFound \<longrightarrow> find p (db_txs d) = None) \<and>
     (calm E \<longrightarrow> find p (db_txs d) = None \<and> e = wager_err Wager_ErrTransactionNotFound \<or>
        (\<exists>r. find p (db_txs d) = Some r \<and> tr_currency r \<noteq> BRL))"

lemma scan_lookup:
  assumes "quiet w w'" and "x = find p (db_txs (w_db w))"
    and "\<And>e w'. quiet w w' \<Longrightarrow> lookup_err E (w_db w) p e \<Longrightarrow> Q (Inl e) w'"
    and "\<And>r tx w'. quiet w w' \<Longrightarrow> find p (db_txs (w_db w)) = Some r \<Longrightarrow> tx_of_row r = Inr tx \<Longrightarrow> Q (Inr tx) w'"
  shows "Q (scanTransaction x) w'"
proof (cases x)
  case None
  then have "lookup_err E (w_db w) p (wager_err Wager_ErrTransactionNotFound)"
    using assms(2) by (simp add: lookup_err_def)
  then show ?thesis using None assms(1,3) by (simp add: scanTransaction_def)
next
  case (Some r)
  show ?thesis
  proof (cases "tx_of_row r")
    case (Inl e)
    then have "tr_currency r \<noteq> BRL" using tx_of_row_BRL [of r] by auto
    moreover have "e \<noteq> wager_err Wager_ErrTransactionNotFound"
      using Inl by (auto simp: tx_of_row_def Let_def split: sum.splits option.splits)
    ultimately have "lookup_err E (w_db w) p e" using Some assms(2) by (simp add: lookup_err_def)
    then show ?thesis using Some Inl assms(1,3) by (simp add: scanTransaction_def)
  next
    case (Inr tx)
    then show ?thesis using Some assms(1,2,4) by (simp add: scanTransaction_def)
  qed
qed

lemma wp_FindByProviderAndExternalID:
  assumes "\<And>e w'. quiet w w' \<Longrightarrow>
      lookup_err E (w_db w) (\<lambda>r. tr_provider r = Some pr \<and> tr_external_id r = Some ext) e \<Longrightarrow> Q (Inl e) w'"
    and "\<And>r tx w'. quiet w w' \<Longrightarrow>
      find (\<lambda>r. tr_provider r = Some pr \<and> tr_external_id r = Some ext) (db_txs (w_db w)) = Some r \<Longrightarrow>
      tx_of_row r = Inr tx \<Longrightarrow> Q (Inr tx) w'"
  shows "wp (TxRepo_FindByProviderAndExternalID E pr ext) Q w"
  unfolding TxRepo_FindByProviderAndExternalID_def wp_bind_err
  by (rule wp_pool_select)
    (auto simp: wp_ret blamed_def lookup_err_def sql_select_tx_by_external_def sql_select_tx_def
      intro!: assms(1) scan_lookup [where E = E, OF _ refl assms])

lemma wp_FindByIdempotencyKey:
  assumes "\<And>e w'. quiet w w' \<Longrightarrow>
      lookup_err E (w_db w) (\<lambda>r. tr_provider r = Some pr \<and> tr_idempotency_key r = Some key) e \<Longrightarrow> Q (Inl e) w'"
    and "\<And>r tx w'. quiet w w' \<Longrightarrow>
      find (\<lambda>r. tr_provider r = Some pr \<and> tr_idempotency_key r = Some key) (db_txs (w_db w)) = Some r \<Longrightarrow>
      tx_of_row r = Inr tx \<Longrightarrow> Q (Inr tx) w'"
  shows "wp (TxRepo_FindByIdempotencyKey E pr key) Q w"
  unfolding TxRepo_FindByIdempotencyKey_def wp_bind_err
  by (rule wp_pool_select)
    (auto simp: wp_ret blamed_def lookup_err_def sql_select_tx_by_key_def sql_select_tx_def
      intro!: assms(1) scan_lookup [where E = E, OF _ refl assms])

lemma wp_ExternalTransactionExists:
  assumes "\<And>e w'. quiet w w' \<Longrightarrow> \<not> calm E \<Longrightarrow> Q (Inl e) w'"
    and "\<And>w'. quiet w w' \<Longrightarrow> Q (Inr (list_ex (\<lambda>r. tr_provider r = Some pr \<and> tr_external_id r = Some ext \<and>
       tr_idempotency_key r \<noteq> nullString key) (db_txs (w_db w)))) w'"
  shows "wp (TxRepo_ExternalTransactionExists E pr ext key) Q w"
  unfolding TxRepo_ExternalTransactionExists_def wp_bind_err
  by (rule wp_pool_select) (auto simp: wp_ret blamed_def sql_external_exists_def intro!: assms)

lemma wp_has_reversal:
  assumes "\<And>b w'. quiet w w' \<Longrightarrow>
      (calm E \<longrightarrow> b = list_ex (\<lambda>r. reversal_of r = Some ref) (db_txs (w_db w))) \<Longrightarrow> Q b w'"
  shows "wp (has_reversal E ref) Q w"
  unfolding has_reversal_def TxRepo_HasSuccessfulReversal_def wp_bind wp_bind_err
  by (rule wp_pool_select)
    (auto simp: wp_ret blamed_def sql_count_reversals_def list_ex_iff filter_empty_conv intro!: assms)

lemma wp_getWalletBalance:
  assumes "\<And>e w'. quiet w w' \<Longrightarrow> blamed E (\<forall>r. \<not> wallet_at E (w_db w) i r) \<Longrightarrow> Q (Inl e) w'"
    and "\<And>r w'. quiet w w' \<Longrightarrow> wallet_at E (w_db w) i r \<Longrightarrow>
      Q (Inr \<lparr>money_amount = wr_balance r, money_currency = BRL\<rparr>) w'"
  shows "wp (getWalletBalance E i) Q w"
  unfolding getWalletBalance_def GetBalance_def wp_bind_err
  by (rule wp_FindByID) (auto simp: wp_ret quiet_def wal_balance_wallet_of intro!: assms)

lemma wp_balance_or_zero:
  assumes "\<And>b w'. quiet w w' \<Longrightarrow> Q b w'"
  shows "wp (balance_or_zero E i) Q w"
  unfolding balance_or_zero_def wp_bind
  by (rule wp_getWalletBalance) (auto simp: wp_ret intro!: assms)

lemma wp_rejected_result:
  assumes "\<And>b w'. quiet w w' \<Longrightarrow> Q (Inr \<lparr>pr_TransactionID = tx_id tx, pr_Status = ''REJECTED'', pr_Balance = b,
      pr_IdempotentReplay = False\<rparr>) w'"
  shows "wp (rejected_result E tx) Q w"
  unfolding rejected_result_def wp_bind
  by (rule wp_balance_or_zero) (auto simp: wp_ret intro!: assms)

lemma wp_set_failure:
  "(\<And>n w'. quiet w w' \<Longrightarrow> Q (SetFailureCode n code tx) w') \<Longrightarrow> wp (set_failure E code tx) Q w"
  unfolding set_failure_def wp_bind wp_ret by (rule wp_time_Now)

lemma wp_set_reference_id:
  "(\<And>n w'. quiet w w' \<Longrightarrow> Q (SetInternalReference n ref tx) w') \<Longrightarrow> wp (set_reference_id E ref tx) Q w"
  unfolding set_reference_id_def wp_bind wp_ret by (rule wp_time_Now)

lemma wp_transition:
  "(\<And>n1 n2 w'. quiet w w' \<Longrightarrow> Q (TransitionTo_stmt n1 n2 st tx) w') \<Longrightarrow> wp (transition E st tx) Q w"
  unfolding transition_def wp_bind wp_ret
  by (intro wp_time_Now) (blast intro: quiet_trans)

section \<open>Recording a transaction\<close>

text \<open>\<open>same_request tx tx'\<close>: \<open>tx'\<close> is \<open>tx\<close> after changes that keep what the request said.\<close>

definition same_request :: "Transaction \<Rightarrow> Transaction \<Rightarrow> bool" where
  "same_request tx tx' \<longleftrightarrow>
     tx_origin tx' = tx_origin tx \<and> tx_externalID tx' = tx_externalID tx \<and> tx_provider tx' = tx_provider tx \<and>
     tx_idempotencyKey tx' = tx_idempotencyKey tx \<and> tx_payloadHash tx' = tx_payloadHash tx \<and>
     tx_walletID tx' = tx_walletID tx \<and> tx_playerID tx' = tx_playerID tx \<and> tx_roundID tx' = tx_roundID tx \<and>
     tx_gameID tx' = tx_gameID tx \<and> tx_transactionType tx' = tx_transactionType tx \<and> tx_amount tx' = tx_amount tx \<and>
     tx_externalReference tx' = tx_externalReference tx"

lemma same_request_refl [simp]: "same_request tx tx"
  by (simp add: same_request_def)

lemma same_request_trans: "same_request tx tx' \<Longrightarrow> same_request tx' tx'' \<Longrightarrow> same_request tx tx''"
  by (simp add: same_request_def)

lemma TransitionTo_stmt_cases:
  "TransitionTo_stmt n1 n2 st tx =
     (if isValidTransition (tx_status tx) st
      then (if st = PROCESSED then tx\<lparr>tx_status := st, tx_updatedAt := n1, tx_processedAt := Some n2\<rparr>
            else tx\<lparr>tx_status := st, tx_updatedAt := n1\<rparr>) else tx)"
  by (cases "tx_status tx") (simp_all add: TransitionTo_stmt_def TransitionTo_def IsTerminal_def terminal_status_def Let_def)

lemma same_request_simps [simp]:
  "same_request tx (SetFailureCode n code tx') = same_request tx tx'"
  "same_request tx (SetInternalReference n ref tx') = same_request tx tx'"
  "same_request tx (SetResultBalance b tx') = same_request tx tx'"
  "same_request tx (SetID i tx') = same_request tx tx'"
  "same_request tx (TransitionTo_stmt n1 n2 st tx') = same_request tx tx'"
  by (simp_all add: same_request_def SetFailureCode_def SetInternalReference_def SetResultBalance_def SetID_def
      TransitionTo_stmt_cases)

lemma setter_simps [simp]:
  "tx_status (SetFailureCode n code tx) = tx_status tx" "tx_status (SetInternalReference n ref tx) = tx_status tx"
  "tx_status (SetResultBalance b tx) = tx_status tx" "tx_status (SetID i tx) = tx_status tx"
  "tx_failureCode (SetFailureCode n code tx) = code" "tx_id (SetID i tx) = i" "tx_id (SetFailureCode n code tx) = tx_id tx"
  "tx_internalReference (SetInternalReference n ref tx) = ref"
  "tx_internalReference (SetResultBalance b tx) = tx_internalReference tx"
  "tx_internalReference (SetFailureCode n code tx) = tx_internalReference tx"
  "tx_internalReference (TransitionTo_stmt n1 n2 st tx) = tx_internalReference tx"
  "tx_resultBalance (SetResultBalance b tx) = Some b" "tx_resultBalance (SetID i tx) = tx_resultBalance tx"
  "tx_resultBalance (TransitionTo_stmt n1 n2 st tx) = tx_resultBalance tx"
  "tx_failureCode (TransitionTo_stmt n1 n2 st tx) = tx_failureCode tx"
  "tx_id (TransitionTo_stmt n1 n2 st tx) = tx_id tx"
  "tx_status (TransitionTo_stmt n1 n2 st tx) = (if isValidTransition (tx_status tx) st then st else tx_status tx)"
  by (simp_all add: SetFailureCode_def SetInternalReference_def SetResultBalance_def SetID_def TransitionTo_stmt_cases)

text \<open>
  \<open>recorded E tx st d r d'\<close>: \<open>d'\<close> is \<open>d\<close> with one row \<open>r\<close> for the request of \<open>tx\<close>, in status \<open>st\<close>, and
  its event.
\<close>

definition recorded :: "env \<Rightarrow> Transaction \<Rightarrow> db \<Rightarrow> tx_row \<Rightarrow> db \<Rightarrow> bool" where
  "recorded E tx d r d' \<longleftrightarrow>
     row_for E tx r \<and> tx_constraints r (db_txs d) (db_wallets d) = None \<and>
     (\<exists>evs ib. announced (status_event (tr_status r)) r evs \<and> d' = set_inbox ib (add_events evs (add_tx r d)))"

lemma outbox_announces:
  "outbox_for E ev o0 \<Longrightarrow> canonical E (ev_AggregateID ev) \<Longrightarrow> ev_AggregateID ev = tr_id r \<Longrightarrow>
   announced (ev_EventType ev) r [o0]"
  by (auto simp: outbox_for_def announced_def)

lemma row_for_id: "env_ok E \<Longrightarrow> row_for E tx r \<Longrightarrow> canonical E (tr_id r)"
  by (auto simp: row_for_def row_of_tx_def)

lemma row_for_status: "row_for E tx r \<Longrightarrow> tr_status r = tx_status tx"
  by (auto simp: row_for_def row_of_tx_def)

lemma wp_insert_with_event:
  assumes "env_ok E" and "w_txs w t = OpenTx (set_inbox ib d) s"
    and mk: "\<And>i. ev_AggregateID (mk (SetID i tx)) = i \<and> ev_EventType (mk (SetID i tx)) = status_event (tx_status tx)"
    and err: "\<And>e w'. w_db w' = w_db w \<Longrightarrow>
      blamed E (\<not> storable E tx d \<or> (\<exists>i. marshal_payload (mk (SetID i tx)) = None)) \<Longrightarrow> Q (Inl e) w'"
    and ok: "\<And>r d' w'. w_db w' = w_db w \<Longrightarrow> w_txs w' t = OpenTx d' s \<Longrightarrow> recorded E tx d r d' \<Longrightarrow>
      (\<And>ib'. recorded E tx d r (set_inbox ib' d')) \<Longrightarrow>
      Q (Inr (SetID (tr_id r) tx)) w'"
  shows "wp (insert_with_event E t msg1 msg2 tx mk) Q w"
  unfolding insert_with_event_def wp_bind_err
proof (rule wp_CreateTransactionTx [OF assms(2)], goal_cases)
  case (1 e w')
  then show ?case by (auto intro!: err simp: blamed_def)
next
  case (2 r w')
  note id = row_for_id [OF assms(1) 2(3)]
  show ?case
    unfolding sum.case wp_Let Let_def wp_bind_err
  proof (rule wp_emit [OF 2(2)], goal_cases)
    case (1 e w2)
    then show ?case using 2 mk id by (auto intro!: err simp: blamed_def emittable_def)
  next
    case (2 o0 w2)
    have "announced (status_event (tr_status r)) r [o0]"
      using outbox_announces [OF 2(3), of r] mk [of "tr_id r"] id row_for_status [OF \<open>row_for E tx r\<close>] by simp
    then have rec: "recorded E tx d r (set_inbox ib' (add_events [o0] (add_tx r (set_inbox ib d))))" for ib'
      using \<open>row_for E tx r\<close> \<open>tx_constraints r (db_txs (set_inbox ib d)) (db_wallets (set_inbox ib d)) = None\<close>
      by (auto simp: recorded_def)
    show ?case
      unfolding sum.case wp_ret
      using 2 \<open>w_db w' = w_db w\<close> rec [of ib] rec
      by (intro ok [of _ "add_events [o0] (add_tx r (set_inbox ib d))"]) auto
  qed
qed

lemma wp_insert_with_event0:
  assumes "env_ok E" and "w_txs w t = OpenTx d s"
    and "\<And>i. ev_AggregateID (mk (SetID i tx)) = i \<and> ev_EventType (mk (SetID i tx)) = status_event (tx_status tx)"
    and "\<And>e w'. w_db w' = w_db w \<Longrightarrow>
      blamed E (\<not> storable E tx d \<or> (\<exists>i. marshal_payload (mk (SetID i tx)) = None)) \<Longrightarrow> Q (Inl e) w'"
    and "\<And>r d' w'. w_db w' = w_db w \<Longrightarrow> w_txs w' t = OpenTx d' s \<Longrightarrow> recorded E tx d r d' \<Longrightarrow>
      Q (Inr (SetID (tr_id r) tx)) w'"
  shows "wp (insert_with_event E t msg1 msg2 tx mk) Q w"
  using assms(2) by (intro wp_insert_with_event [OF assms(1) _ assms(3), where ib = "db_inbox d" and d = d and s = s])
    (auto intro: assms)

section \<open>Rejection\<close>

lemma rejected_event_meta [simp]:
  "ev_AggregateID (rejected_event tx c) = tx_id tx" "ev_EventType (rejected_event tx c) = status_event REJECTED"
  "ev_Data (rejected_event tx c) = RejectedData \<lparr>rd_TransactionID = tx_id tx, rd_ExternalID = tx_externalID tx,
     rd_ProviderID = tx_provider tx, rd_PlayerID = tx_playerID tx, rd_WalletID = tx_walletID tx,
     rd_Kind = TransactionType_string (tx_transactionType tx), rd_Money = tx_amount tx, rd_FailureCode = c\<rparr>"
  by (simp_all add: rejected_event_def wager_event_def status_event_def)

text \<open>The rejected form of \<open>tx\<close>.\<close>

definition rejected_as :: "Transaction \<Rightarrow> string \<Rightarrow> Transaction \<Rightarrow> bool" where
  "rejected_as tx code tx' \<longleftrightarrow> same_request tx tx' \<and> tx_status tx' = REJECTED \<and> tx_failureCode tx' = code \<and>
     tx_internalReference tx' = tx_internalReference tx"

lemma rejected_as_transition:
  "tx_status tx = PENDING \<or> tx_status tx = PENDING_REFERENCE \<Longrightarrow>
   rejected_as tx code (TransitionTo_stmt n1 n2 REJECTED (SetFailureCode n code tx))"
  by (cases "tx_status tx") (auto simp: rejected_as_def)

text \<open>Open a transaction, insert with an event, commit: \<^verbatim>\<open>reject\<close>, \<^verbatim>\<open>createAndReject\<close> and parking.\<close>

lemma wp_record:
  assumes "env_ok E"
    and "\<And>i. ev_AggregateID (mk (SetID i tx)) = i \<and> ev_EventType (mk (SetID i tx)) = status_event (tx_status tx)"
    and err: "\<And>e w'. w_db w' = w_db w \<or> (\<exists>r. recorded E tx (w_db w) r (w_db w')) \<Longrightarrow>
      blamed E (\<not> storable E tx (w_db w) \<or> (\<exists>i. marshal_payload (mk (SetID i tx)) = None)) \<Longrightarrow> Q (Inl e) w'"
    and ok: "\<And>r w'. recorded E tx (w_db w) r (w_db w') \<Longrightarrow> wp (k (SetID (tr_id r) tx)) (\<lambda>x w''. \<forall>t. Q x (set_tx t ClosedTx w'')) w'"
  shows "wp (bind_err (TxManager_Begin E) f1 (\<lambda>t. defer_Rollback t (
     bind_err (insert_with_event E t m1 m2 tx mk) (\<lambda>e. e) (\<lambda>tx'.
     bind_err (tx_Commit E t) f3 (\<lambda>_. k tx'))))) Q w"
  unfolding wp_bind_err
proof (rule wp_Begin, goal_cases)
  case (1 e w')
  then show ?case by (auto simp: blamed_def quiet_def intro!: err)
next
  case (2 t w3 s)
  show ?case
    unfolding sum.case wp_defer_Rollback wp_bind_err
  proof (rule wp_insert_with_event0 [OF assms(1) 2(2) assms(2)], goal_cases)
    case (1 e w')
    then show ?case using 2 by (auto intro!: err)
  next
    case (2 r d' w4)
    show ?case
      unfolding sum.case
    proof (rule wp_Commit [OF 2(2)], goal_cases)
      case (1 e w')
      then show ?case using 2 \<open>w_db w3 = w_db w\<close> by (auto simp: blamed_def intro!: err)
    next
      case (2 w')
      then have "recorded E tx (w_db w) r (w_db w')" using \<open>recorded E tx (w_db w) r d'\<close> by simp
      then show ?case unfolding sum.case by (intro wp_mono [OF ok]) (assumption, erule spec)
    qed
  qed
qed

lemma wp_reject:
  assumes "env_ok E" and "tx_status tx = PENDING"
    and err: "\<And>e w' tx'. rejected_as tx code tx' \<Longrightarrow> w_db w' = w_db w \<or> (\<exists>r. recorded E tx' (w_db w) r (w_db w')) \<Longrightarrow>
      blamed E (\<not> storable E tx' (w_db w) \<or> (\<exists>i. marshal_payload (rejected_event (SetID i tx') code) = None)) \<Longrightarrow> Q (Inl e) w'"
    and ok: "\<And>r tx' b w'. rejected_as tx code tx' \<Longrightarrow> recorded E tx' (w_db w) r (w_db w') \<Longrightarrow>
      Q (Inr \<lparr>pr_TransactionID = tr_id r, pr_Status = ''REJECTED'', pr_Balance = b, pr_IdempotentReplay = False\<rparr>) w'"
  shows "wp (reject E tx code) Q w"
  unfolding reject_def wp_bind
proof (rule wp_set_failure, rule wp_transition, goal_cases)
  case (1 n w1 n1 n2 w2)
  let ?tx = "TransitionTo_stmt n1 n2 REJECTED (SetFailureCode n code tx)"
  have rj: "rejected_as tx code ?tx" using assms(2) by (intro rejected_as_transition) simp
  have w2: "w_db w2 = w_db w" using 1 by (simp add: quiet_def)
  show ?case
  proof (rule wp_record [OF assms(1)], goal_cases)
    case 1
    then show ?case using rj by (simp add: rejected_as_def)
  next
    case (2 e w')
    then show ?case using w2 by (auto intro!: err [OF rj])
  next
    case (3 r w')
    then show ?case
      using w2 by (intro wp_rejected_result) (auto simp: quiet_def intro!: ok [OF rj])
  qed
qed

lemma bind_err_unit: "bind_err m (\<lambda>e. e) (\<lambda>_. ok ()) = m"
proof -
  have "bind_err m (\<lambda>e. e) (\<lambda>_. ok ()) = m \<bind> State_Monad.return"
    unfolding bind_err_def by (rule arg_cong [where f = "State_Monad.bind m"]) (auto simp: fun_eq_iff split: sum.split)
  then show ?thesis by simp
qed

lemma wp_createAndReject:
  assumes "env_ok E" and "tx_status tx = PENDING"
    and Q: "\<And>x w' tx'. rejected_as tx code tx' \<Longrightarrow> tx_resultBalance tx' = tx_resultBalance tx \<Longrightarrow>
      w_db w' = w_db w \<or> (\<exists>r. recorded E tx' (w_db w) r (w_db w')) \<Longrightarrow>
      (calm E \<and> storable E tx' (w_db w) \<and> (\<forall>i. marshal_payload (rejected_event (SetID i tx') code) \<noteq> None) \<longrightarrow>
        (\<exists>r. recorded E tx' (w_db w) r (w_db w'))) \<Longrightarrow> Q x w'"
  shows "wp (createAndReject E tx code) Q w"
  unfolding createAndReject_def wp_bind
proof (rule wp_set_failure, rule wp_transition, goal_cases)
  case (1 n w1 n1 n2 w2)
  let ?tx = "TransitionTo_stmt n1 n2 REJECTED (SetFailureCode n code tx)"
  have rj: "rejected_as tx code ?tx" using assms(2) by (intro rejected_as_transition) simp
  have rb: "tx_resultBalance ?tx = tx_resultBalance tx" by (simp add: SetFailureCode_def)
  have w2: "w_db w2 = w_db w" using 1 by (simp add: quiet_def)
  have "wp (bind_err (TxManager_Begin E) (Errorf ''begin create-reject transaction'') (\<lambda>t. defer_Rollback t (
     bind_err (insert_with_event E t ''insert rejected transaction'' ''insert rejected outbox event'' ?tx
         (\<lambda>tx'. rejected_event tx' code)) (\<lambda>e. e) (\<lambda>tx'. bind_err (tx_Commit E t) (\<lambda>e. e) (\<lambda>_. ok ()))))) Q w2"
  proof (rule wp_record [OF assms(1)], goal_cases)
    case 1
    then show ?case using rj by (simp add: rejected_as_def)
  next
    case (2 e w')
    then show ?case using w2 by (auto simp: blamed_def intro!: Q [OF rj rb])
  next
    case (3 r w')
    then show ?case using w2 by (auto simp: wp_ret intro!: Q [OF rj rb])
  qed
  then show ?case by (simp add: bind_err_unit)
qed

lemma wp_park_pending:
  assumes "env_ok E" and "tx_status tx = PENDING"
    and err: "\<And>e w' tx'. same_request tx tx' \<Longrightarrow> tx_status tx' = PENDING_REFERENCE \<Longrightarrow>
      w_db w' = w_db w \<or> (\<exists>r. recorded E tx' (w_db w) r (w_db w')) \<Longrightarrow>
      blamed E (\<not> storable E tx' (w_db w)) \<Longrightarrow> Q (Inl e) w'"
    and ok: "\<And>r w' tx'. same_request tx tx' \<Longrightarrow> tx_status tx' = PENDING_REFERENCE \<Longrightarrow>
      recorded E tx' (w_db w) r (w_db w') \<Longrightarrow>
      Q (Inr \<lparr>pr_TransactionID = tr_id r, pr_Status = ''PENDING_REFERENCE'', pr_Balance = no_money,
        pr_IdempotentReplay = False\<rparr>) w'"
  shows "wp (park_pending E tx) Q w"
  unfolding park_pending_def wp_bind
proof (rule wp_transition, goal_cases)
  case (1 n1 n2 w2)
  let ?tx = "TransitionTo_stmt n1 n2 PENDING_REFERENCE tx"
  have st: "tx_status ?tx = PENDING_REFERENCE" using assms(2) by simp
  have w2: "w_db w2 = w_db w" using 1 by (simp add: quiet_def)
  have m: "marshal_payload (pending_event (SetID i ?tx)) \<noteq> None" for i
    by (subst json_Marshal_ok(2)) (auto simp: pending_event_def wager_event_def)
  show ?case
  proof (rule wp_record [OF assms(1)], goal_cases)
    case 1
    then show ?case using st by (simp add: pending_event_def wager_event_def status_event_def)
  next
    case (2 e w')
    then have "blamed E (\<not> storable E ?tx (w_db w))" using m w2 by (auto simp: blamed_def)
    with 2 show ?case using w2 st by (auto intro!: err [of ?tx])
  next
    case (3 r w')
    then show ?case using w2 st by (auto simp: wp_ret pending_result_def intro!: ok [of ?tx])
  qed
qed

section \<open>Committing with the ledger\<close>

definition processed_as :: "Transaction \<Rightarrow> Transaction \<Rightarrow> bool" where
  "processed_as tx tx' \<longleftrightarrow> same_request tx tx' \<and> tx_status tx' = PROCESSED \<and>
     tx_internalReference tx' = tx_internalReference tx \<and> tx_resultBalance tx' = tx_resultBalance tx"

text \<open>
  \<open>ledgered\<close>: one row \<open>r\<close> for \<open>tx\<close>, one ledger entry and the events were added.
\<close>

definition ledgered ::
  "env \<Rightarrow> Transaction \<Rightarrow> Direction \<Rightarrow> Money \<Rightarrow> Money \<Rightarrow> Money \<Rightarrow> db \<Rightarrow> tx_row \<Rightarrow> db \<Rightarrow> bool" where
  "ledgered E tx dir amount b0 b1 d r d' \<longleftrightarrow>
     row_for E tx r \<and> tx_constraints r (db_txs d) (db_wallets d) = None \<and>
     (\<exists>l evs ib. entry_row E (tx_walletID tx) (tr_id r) dir (money_amount amount) (money_currency amount)
          (money_amount b0) (money_amount b1) l \<and>
        ledger_constraints l (db_ledger d) (db_txs d @ [r]) (db_wallets d) = None \<and>
        announced (status_event PROCESSED) r evs \<and>
        d' = set_inbox ib (add_events evs (add_ledger l (add_tx r d))))"

definition ledgerable ::
  "env \<Rightarrow> Transaction \<Rightarrow> Direction \<Rightarrow> Money \<Rightarrow> Money \<Rightarrow> Money \<Rightarrow> int64 \<Rightarrow> db \<Rightarrow> bool" where
  "ledgerable E tx dir amount b0 b1 v d \<longleftrightarrow>
     storable E tx d \<and>
     (\<forall>r. row_for E tx r \<longrightarrow> tx_constraints r (db_txs d) (db_wallets d) = None \<longrightarrow>
        enterable E (tx_walletID tx) (tr_id r) dir (money_amount amount) (money_currency amount)
          (money_amount b0) (money_amount b1) (add_tx r d)) \<and>
     (\<forall>r. row_for E tx r \<longrightarrow>
        (\<forall>ev \<in> set (buildTransactionEvents (SetID (tr_id r) tx) dir amount b0 b1 v). emittable E ev))"

lemma enterable_set_inbox [simp]:
  "enterable E wid tid dir a cur b0 b1 (set_inbox ib d) = enterable E wid tid dir a cur b0 b1 d"
  by (simp add: enterable_def)

lemma processed_as_transition:
  "tx_status tx = PENDING \<or> tx_status tx = PENDING_REFERENCE \<Longrightarrow> processed_as tx (TransitionTo_stmt n1 n2 PROCESSED tx)"
  by (cases "tx_status tx") (auto simp: processed_as_def)

lemma build_events_announce:
  assumes "list_all2 (outbox_for E) (buildTransactionEvents (SetID (tr_id r) tx) dir amount b0 b1 v) rs"
    and "canonical E (tr_id r)"
  shows "announced (status_event PROCESSED) r rs"
  using assms by (auto simp: buildTransactionEvents_def wager_event_def list_all2_Cons1 outbox_for_def announced_def
      status_event_def)

lemma wp_finish_ledger:
  assumes "env_ok E" and "w_txs w t = OpenTx (set_inbox ib (add_tx r d)) s" and "row_for E tx r"
    and "tx_constraints r (db_txs d) (db_wallets d) = None"
    and err: "\<And>e w'. w_db w' = w_db w \<or> ledgered E tx dir amount b0 b1 d r (w_db w') \<Longrightarrow>
      blamed E (\<not> ledgerable E tx dir amount b0 b1 v d) \<Longrightarrow> Q (Inl e) w'"
    and ok: "\<And>w'. ledgered E tx dir amount b0 b1 d r (w_db w') \<Longrightarrow> Q (Inr (SetID (tr_id r) tx)) w'"
  shows "wp (bind_err (TxRepo_CreateWalletLedgerEntryTx E t (tx_walletID (SetID (tr_id r) tx)) (tr_id r) dir (money_amount amount)
                (money_currency amount) (money_amount b0) (money_amount b1))
              (Errorf ''insert ledger entry'') (\<lambda>_.
            bind_err (emit_all E t ''insert outbox event''
                (buildTransactionEvents (SetID (tr_id r) tx) dir amount b0 b1 v)) (\<lambda>e. e) (\<lambda>_. do {
              _ \<leftarrow> complete_inbox E t messageID;
              bind_err (tx_Commit E t) (Errorf ''commit'') (\<lambda>_. ok (SetID (tr_id r) tx))
            }))) Q w"
  unfolding wp_bind_err
proof (rule wp_CreateWalletLedgerEntryTx [OF assms(2)], goal_cases)
  case (1 e w')
  then show ?case using assms(3,4) by (auto intro!: err simp: blamed_def ledgerable_def SetID_def)
next
  case (2 l w1)
  show ?case
    unfolding sum.case wp_bind_err
  proof (rule wp_emit_all [OF 2(2)], goal_cases)
    case (1 e w')
    then show ?case using assms(3) \<open>w_db w1 = w_db w\<close> by (auto intro!: err simp: blamed_def ledgerable_def)
  next
    case (2 rs w2)
    have done': "ledgered E tx dir amount b0 b1 d r (set_inbox ib' (add_events rs (add_ledger l (add_tx r d))))" for ib'
      unfolding ledgered_def
      using assms(3,4) \<open>entry_row E _ _ _ _ _ _ _ l\<close> \<open>ledger_constraints l _ _ _ = None\<close>
        build_events_announce [OF 2(3) row_for_id [OF assms(1,3)]]
      by (auto simp: SetID_def)
    show ?case
      unfolding sum.case wp_bind
    proof (rule wp_complete_inbox [OF 2(2)], goal_cases)
      case (1 w3)
      show ?case
        unfolding wp_bind_err
        by (rule wp_Commit_dead) (use 1 2 \<open>w_db w1 = w_db w\<close> in \<open>auto simp: blamed_def intro!: err\<close>)
    next
      case (2 ib' w3)
      show ?case
        unfolding wp_bind_err
        by (rule wp_Commit [OF 2(2)])
          (use 2 \<open>w_db w2 = w_db w1\<close> \<open>w_db w1 = w_db w\<close> done' in \<open>auto simp: blamed_def wp_ret intro!: err ok\<close>)
    qed
  qed
qed

lemma wp_commitWithLedger:
  assumes "env_ok E" and "w_txs w t = OpenTx d s" and "tx_status tx = PENDING"
    and err: "\<And>e w' tx'. processed_as tx tx' \<Longrightarrow>
      w_db w' = w_db w \<or> (\<exists>r. ledgered E tx' dir amount b0 b1 d r (w_db w')) \<Longrightarrow>
      blamed E (\<not> ledgerable E tx' dir amount b0 b1 v d) \<Longrightarrow> Q (Inl e) w'"
    and ok: "\<And>w' tx' r. processed_as tx tx' \<Longrightarrow> ledgered E tx' dir amount b0 b1 d r (w_db w') \<Longrightarrow>
      Q (Inr (SetID (tr_id r) tx')) w'"
  shows "wp (commitWithLedger E t tx dir amount b0 b1 v messageID) Q w"
  unfolding commitWithLedger_def wp_bind_err
proof (rule wp_record_inbox [OF assms(2)], goal_cases)
  case (1 e w')
  then show ?case by (auto simp: blamed_def intro!: err [OF processed_as_transition] assms(3))
next
  case (2 ib w1)
  show ?case
    unfolding sum.case wp_bind
  proof (rule wp_transition, goal_cases)
    case (1 n1 n2 w2)
    let ?tx = "TransitionTo_stmt n1 n2 PROCESSED tx"
    have pa: "processed_as tx ?tx" using assms(3) by (intro processed_as_transition) simp
    have w2: "w_txs w2 t = OpenTx (set_inbox ib d) s" "w_db w2 = w_db w"
      using 1 2 by (simp_all add: quiet_def)
    show ?case
    proof (rule wp_CreateTransactionTx [OF w2(1)], goal_cases)
      case (1 e w')
      then have bl: "blamed E (\<not> ledgerable E ?tx dir amount b0 b1 v d)"
        by (auto simp: blamed_def ledgerable_def)
      show ?case
        unfolding sum.case
        using 1 w2 bl
        by (auto simp: wp_rules quiet_def intro!: wp_FindByIdempotencyKey err [OF pa])
    next
      case (2 r w')
      then show ?case
        unfolding sum.case Let_def
        using w2 by (intro wp_finish_ledger [OF assms(1), where ib = ib and d = d and s = s]) (auto intro!: err [OF pa] ok [OF pa])
    qed
  qed
qed

section \<open>The handlers\<close>

text \<open>
  \<open>maybe_rejected E tx code d d'\<close>: nothing changed or the rejection of \<open>tx\<close> with \<open>code\<close> was recorded;
  the latter if nothing fails and the row can be stored.
\<close>

definition maybe_rejected :: "env \<Rightarrow> Transaction \<Rightarrow> string \<Rightarrow> db \<Rightarrow> db \<Rightarrow> bool" where
  "maybe_rejected E tx code d d' \<longleftrightarrow>
     (\<exists>tx'. rejected_as tx code tx' \<and> (d' = d \<or> (\<exists>r. recorded E tx' d r d')) \<and>
        (calm E \<and> storable E tx' d \<and> (\<forall>i. marshal_payload (rejected_event (SetID i tx') code) \<noteq> None) \<longrightarrow>
           (\<exists>r. recorded E tx' d r d')))"

lemma rejected_as_set: "rejected_as (SetFailureCode n c (SetResultBalance b tx)) code tx' \<Longrightarrow> rejected_as tx code tx'"
  "rejected_as (SetFailureCode n c tx) code tx' \<Longrightarrow> rejected_as tx code tx'"
  "rejected_as (SetResultBalance b tx) code tx' \<Longrightarrow> rejected_as tx code tx'"
  by (auto simp: rejected_as_def same_request_def SetFailureCode_def SetResultBalance_def)

lemma wp_createAndReject':
  assumes "env_ok E" and "tx_status tx = PENDING" and "rejected_as tx code = rejected_as tx0 code"
    and Q: "\<And>x w'. maybe_rejected E tx0 code (w_db w) (w_db w') \<Longrightarrow> Q x w'"
  shows "wp (createAndReject E tx code) Q w"
  using assms(3) by (intro wp_createAndReject [OF assms(1,2)] Q) (auto simp: maybe_rejected_def)

lemma rejected_as_cong [simp]:
  "rejected_as (SetFailureCode n c tx) = rejected_as tx" "rejected_as (SetResultBalance b tx) = rejected_as tx"
  by (auto simp: fun_eq_iff rejected_as_def same_request_def SetFailureCode_def SetResultBalance_def)

text \<open>The error that \<^verbatim>\<open>processBet\<close> and \<^verbatim>\<open>processWin\<close> return for an error of the wallet service.\<close>

definition wallet_failure :: "gerr \<Rightarrow> gerr" where
  "wallet_failure err = (if errors_is err (WalletErr Wallet_ErrConcurrentUpdate) then err
     else Errorf2 (wager_err Wager_ErrInsufficientBalance) err)"

lemma wp_note_balance:
  assumes "\<And>tx' w'. quiet w w' \<Longrightarrow> tx' = tx \<or> (\<exists>b. tx' = SetResultBalance b tx) \<Longrightarrow> Q tx' w'"
  shows "wp (if c then do {
       b \<leftarrow> getWalletBalance E i;
       ret (case b of Inl _ \<Rightarrow> tx | Inr bal \<Rightarrow> SetResultBalance bal tx)
     } else ret tx) Q w"
  by (auto simp: wp_rules intro!: wp_getWalletBalance assms)

lemma wp_fail_wallet:
  assumes "env_ok E" and "tx_status tx = PENDING"
    and Q: "\<And>w'. maybe_rejected E tx (mapWalletError err) (w_db w) (w_db w') \<Longrightarrow>
      Q (Inl (wallet_failure err)) w'"
  shows "wp (fail_wallet E t tx err) Q w"
proof -
  have rest: "wp (do {
     _ \<leftarrow> createAndReject E tx' (mapWalletError err);
     (if errors_is err (WalletErr Wallet_ErrConcurrentUpdate) then do {
        _ \<leftarrow> count_metric (\<lambda>m. m\<lparr>mt_conflicts := Suc (mt_conflicts m)\<rparr>);
        fail err
      } else do {
        _ \<leftarrow> count_metric (\<lambda>m. m\<lparr>mt_rejected := Suc (mt_rejected m)\<rparr>);
        fail (Errorf2 (wager_err Wager_ErrInsufficientBalance) err)
      }) }) Q w'"
    if "w_db w' = w_db w" "tx_status tx' = PENDING" "rejected_as tx' = rejected_as tx" for w' tx'
    unfolding wp_bind
    by (rule wp_createAndReject' [where ?tx0.0 = tx, OF assms(1) that(2)])
      (use that Q in \<open>auto simp: wp_rules quiet_def wallet_failure_def intro!: wp_count_metric\<close>)
  show ?thesis
    unfolding fail_wallet_def wp_bind [of "tx_Rollback t"] wp_Rollback wp_bind [of "set_failure _ _ _"]
  proof (rule wp_set_failure, goal_cases)
    case (1 n w1)
    then have w1: "w_db w1 = w_db w" by (simp add: quiet_def)
    show ?case
      unfolding wp_bind [of "if _ then _ else _"]
      by (rule wp_note_balance, rule rest) (use assms(2) w1 in \<open>auto simp: quiet_def\<close>)
  qed
qed

text \<open>
  \<open>moved_db\<close>: the wallet row \<open>wr\<close> moved to balance \<open>b\<close> and the transaction row \<open>r\<close> was added with its
  ledger entry and events. \<open>move_ready\<close>: what is added can be stored.
\<close>

definition moved_db ::
  "env \<Rightarrow> Transaction \<Rightarrow> Direction \<Rightarrow> Money \<Rightarrow> db \<Rightarrow> wallet_row \<Rightarrow> Money \<Rightarrow> tx_row \<Rightarrow> db \<Rightarrow> bool" where
  "moved_db E tx dir amount d wr b r d' \<longleftrightarrow>
     (\<exists>s d1 tx'. changed E d (tx_walletID tx) amount dir s wr b d1 \<and> processed_as (SetResultBalance b tx) tx' \<and>
        ledgered E tx' dir amount \<lparr>money_amount = wr_balance wr, money_currency = BRL\<rparr> b d1 r d')"

definition move_ready :: "env \<Rightarrow> Transaction \<Rightarrow> Direction \<Rightarrow> Money \<Rightarrow> db \<Rightarrow> bool" where
  "move_ready E tx dir amount d \<longleftrightarrow>
     (\<forall>s wr b d1 tx'. changed E d (tx_walletID tx) amount dir s wr b d1 \<longrightarrow> processed_as (SetResultBalance b tx) tx' \<longrightarrow>
        ledgerable E tx' dir amount \<lparr>money_amount = wr_balance wr, money_currency = BRL\<rparr> b (wr_version wr + 1) d1)"

definition processed_result :: "tx_row \<Rightarrow> Money \<Rightarrow> ProcessResult" where
  "processed_result r b = \<lparr>pr_TransactionID = tr_id r, pr_Status = ''PROCESSED'', pr_Balance = b, pr_IdempotentReplay = False\<rparr>"

lemma service_result_processed: "processed_as tx tx' \<Longrightarrow> service_result (SetID (tr_id r) tx') b = processed_result r b"
  by (simp add: service_result_def processed_result_def processed_as_def)

lemma wp_commit_move:
  assumes "env_ok E" and "tx_status tx = PENDING" and "w_txs w t = OpenTx d1 s"
    and ch: "changed E d (tx_walletID tx0) amount dir s wr b d1" and tx0: "tx = SetResultBalance b tx0"
    and late: "\<And>e w'. w_db w' = w_db w \<or> (\<exists>r. moved_db E tx0 dir amount d wr b r (w_db w')) \<Longrightarrow>
      blamed E (\<not> move_ready E tx0 dir amount d) \<Longrightarrow> Q (Inl e) w'"
    and ok: "\<And>r tx' w'. moved_db E tx0 dir amount d wr b r (w_db w') \<Longrightarrow> processed_as tx tx' \<Longrightarrow>
      Q (Inr (SetID (tr_id r) tx')) w'"
  shows "wp (commitWithLedger E t tx dir amount \<lparr>money_amount = wr_balance wr, money_currency = BRL\<rparr> b
    (wr_version wr + 1) messageID) Q w"
proof (rule wp_commitWithLedger [OF assms(1,3,2)], goal_cases)
  case (1 e w' tx')
  then have "blamed E (\<not> move_ready E tx0 dir amount d)"
    using ch tx0 unfolding blamed_def move_ready_def by blast
  with 1 ch tx0 show ?case by (intro late) (auto simp: moved_db_def)
next
  case (2 w' tx' r)
  with ch tx0 show ?case by (intro ok) (auto simp: moved_db_def)
qed

lemma wp_move:
  assumes "env_ok E" and "tx_status tx = PENDING" and "keys_inv (w_db w)" and dir: "dir = DEBIT \<or> dir = CREDIT"
    and beg: "\<And>e w'. w_db w' = w_db w \<Longrightarrow> \<not> calm E \<Longrightarrow> Q (Inl e) w'"
    and refuse: "\<And>err w'. maybe_rejected E tx (mapWalletError err) (w_db w) (w_db w') \<Longrightarrow>
      blamed E (change_refused E (w_db w) (tx_walletID tx) amount dir err) \<Longrightarrow>
      Q (Inl (wallet_failure err)) w'"
    and late: "\<And>e w'. w_db w' = w_db w \<or> (\<exists>wr b r. moved_db E tx dir amount (w_db w) wr b r (w_db w')) \<Longrightarrow>
      blamed E (\<not> move_ready E tx dir amount (w_db w)) \<Longrightarrow> Q (Inl e) w'"
    and ok: "\<And>wr b r w'. moved_db E tx dir amount (w_db w) wr b r (w_db w') \<Longrightarrow> Q (Inr (processed_result r b)) w'"
  shows "wp (bind_err (TxManager_Begin E) f (\<lambda>t. defer_Rollback t (do {
       change \<leftarrow> applyBalanceChange E (Some t) (tx_walletID tx) amount dir;
       (case change of
          Inl err \<Rightarrow> fail_wallet E t tx err
        | Inr (balBefore, balAfter, walletVersion) \<Rightarrow>
            bind_err (commitWithLedger E t (SetResultBalance balAfter tx) dir amount balBefore balAfter
                walletVersion messageID) (\<lambda>e. e) (\<lambda>tx'. do {
              _ \<leftarrow> count_processed;
              ok (service_result tx' balAfter)
            }))
     }))) Q w"
  unfolding wp_bind_err
proof (rule wp_Begin, goal_cases)
  case (1 e w')
  then show ?case by (auto simp: quiet_def intro!: beg)
next
  case (2 t w1 s)
  have keys: "keys_inv (w_db w)" by fact
  show ?case
    unfolding sum.case wp_defer_Rollback wp_bind
  proof (rule wp_WalletService_change [OF assms(1) keys 2(2) dir], goal_cases)
    case (1 err w')
    then show ?case
      unfolding sum.case
      by (intro wp_fail_wallet [OF assms(1,2)]) (use 2 in \<open>auto intro!: refuse\<close>)
  next
    case (2 wr b d1 w')
    have st: "tx_status (SetResultBalance b tx) = PENDING" using assms(2) by simp
    have w': "w_db w' = w_db w" using 2 \<open>w_db w1 = w_db w\<close> by simp
    show ?case
      unfolding sum.case prod.case wp_bind_err
      by (rule wp_commit_move [OF assms(1) st 2(2,3) refl])
        (use w' in \<open>auto simp: wp_rules count_processed_def service_result_processed quiet_def
          intro!: late ok wp_count_metric\<close>)
  qed
qed

lemma processBet_eq:
  "processBet E tx amount messageID = bind_err (TxManager_Begin E) (Errorf ''begin bet transaction'') (\<lambda>t. defer_Rollback t (do {
       change \<leftarrow> applyBalanceChange E (Some t) (tx_walletID tx) amount DEBIT;
       (case change of
          Inl err \<Rightarrow> fail_wallet E t tx err
        | Inr (balBefore, balAfter, walletVersion) \<Rightarrow>
            bind_err (commitWithLedger E t (SetResultBalance balAfter tx) DEBIT amount balBefore balAfter
                walletVersion messageID) (\<lambda>e. e) (\<lambda>tx'. do {
              _ \<leftarrow> count_processed;
              ok (service_result tx' balAfter)
            }))
     }))"
  by (simp add: processBet_def WalletService_Debit_def)

end
