(* ===== verification/Wager_Handlers.thy ===== *)
theory Wager_Handlers
  imports Wager_Refinement
begin

text \<open>
  What the handlers of \<^verbatim>\<open>internal/wagertransaction/service.go\<close> do as a whole: they refine \<open>db_step\<close> under
  every failure, and when nothing fails they do what the verdict on the request says.
\<close>

section \<open>New requests\<close>

text \<open>
  \<open>new_request sep d tx\<close>: \<open>tx\<close> is a fresh transaction as \<^verbatim>\<open>ProcessTransaction\<close> makes it; when requests do
  not overlap, \<open>d\<close> does not know its external identifier.
\<close>

definition new_request :: "bool \<Rightarrow> db \<Rightarrow> Transaction \<Rightarrow> bool" where
  "new_request sep d tx \<longleftrightarrow>
     tx_status tx = PENDING \<and> tx_origin tx = EXTERNAL \<and> TransactionType_Valid (tx_transactionType tx) \<and>
     tx_internalReference tx = '''' \<and> tx_walletID tx \<noteq> '''' \<and> tx_provider tx \<noteq> '''' \<and> tx_externalID tx \<noteq> '''' \<and> tx_idempotencyKey tx \<noteq> '''' \<and>
     money_currency (tx_amount tx) = BRL \<and> 0 \<le> cents (tx_amount tx) \<and>
     (tx_transactionType tx \<noteq> LOSS \<longrightarrow> 0 < cents (tx_amount tx)) \<and>
     (sep \<longrightarrow> (\<forall>x \<in> set (db_txs d). \<not> (tr_provider x = Some (tx_provider tx) \<and> tr_external_id x = Some (tx_externalID tx))))"

text \<open>The idempotency key of \<open>tx\<close> is not in use.\<close>

definition new_key :: "db \<Rightarrow> Transaction \<Rightarrow> bool" where
  "new_key d tx \<longleftrightarrow>
     (\<forall>x \<in> set (db_txs d). \<not> (tr_provider x = Some (tx_provider tx) \<and> tr_idempotency_key x = Some (tx_idempotencyKey tx)))"

text \<open>
  \<open>known E d tx wr\<close>: the identifiers of \<open>tx\<close> are well formed, its wallet is the row \<open>wr\<close>, and its
  idempotency key is new.
\<close>

definition known :: "env \<Rightarrow> db \<Rightarrow> Transaction \<Rightarrow> wallet_row \<Rightarrow> bool" where
  "known E d tx wr \<longleftrightarrow> wallet_at E d (tx_walletID tx) wr \<and> env_uuid E (tx_playerID tx) \<noteq> None \<and>
     sint (wr_version wr) \<noteq> MaxInt64 \<and> new_key d tx"

lemma row_for_fields:
  assumes "row_for E tx r"
  shows "tr_provider r = nullString (tx_provider tx)" "tr_external_id r = nullString (tx_externalID tx)"
    "tr_idempotency_key r = nullString (tx_idempotencyKey tx)" "tr_status r = tx_status tx"
    "tr_transaction_type r = tx_transactionType tx" "tr_amount r = money_amount (tx_amount tx)"
    "tr_currency r = money_currency (tx_amount tx)" "tr_ref_attempts r = 0"
    "env_uuid E (tx_walletID tx) = Some (tr_wallet_id r)" "tr_external_reference r = nullString (tx_externalReference tx)"
    "tr_internal_reference r = nullString (tx_internalReference tx)" "tr_failure_code r = nullString (tx_failureCode tx)"
    "tr_result_balance r = map_option money_amount (tx_resultBalance tx)" "tr_payload_hash r = nullString (tx_payloadHash tx)"
    "env_uuid E (tx_playerID tx) = Some (tr_player_id r)" "tr_round_id r = nullString (tx_roundID tx)"
  using assms by (auto simp: row_for_def row_of_tx_def)

lemma new_external:
  assumes "new_request sep d tx" and "same_request tx tx'" and "row_for E tx' r"
  shows "sep \<longrightarrow> list_all (\<lambda>x. external_of x \<noteq> external_of r) (db_txs d)" "tr_transaction_type r \<noteq> OPENING" "tr_currency r = BRL"
proof -
  have "tr_provider r = Some (tx_provider tx)" "tr_external_id r = Some (tx_externalID tx)"
    using assms by (simp_all add: row_for_fields new_request_def same_request_def nullString_def)
  then show "sep \<longrightarrow> list_all (\<lambda>x. external_of x \<noteq> external_of r) (db_txs d)"
    using assms(1) by (auto simp: list_all_iff external_of_def new_request_def split: option.splits)
  show "tr_transaction_type r \<noteq> OPENING" "tr_currency r = BRL"
    using assms by (auto simp: row_for_fields new_request_def same_request_def)
qed

text \<open>
  \<open>served sep E p wid key d d'\<close>: the tables made one specified change, for the provider \<open>p\<close> and the wallet named by
  \<open>wid\<close>: one transaction of that provider and key on that wallet was added, ledger entries belong to the
  wallet, and no other wallet was touched.
\<close>

definition served :: "bool \<Rightarrow> env \<Rightarrow> string \<Rightarrow> string \<Rightarrow> string \<Rightarrow> db \<Rightarrow> db \<Rightarrow> bool" where
  "served sep E p wid key d d' \<longleftrightarrow> db_step sep (canonical E) d d' \<and>
     (\<exists>r ls. db_txs d' = db_txs d @ [r] \<and> tr_provider r = nullString p \<and> tr_idempotency_key r = nullString key \<and>
        env_uuid E wid = Some (tr_wallet_id r) \<and>
        db_ledger d' = db_ledger d @ ls \<and> (\<forall>l \<in> set ls. lr_wallet_id l = tr_wallet_id r) \<and>
        (\<forall>w \<in> set (db_wallets d). wr_id w \<noteq> tr_wallet_id r \<longrightarrow> w \<in> set (db_wallets d')))"

lemma servedI:
  "db_step sep (canonical E) d d' \<Longrightarrow> db_txs d' = db_txs d @ [r] \<Longrightarrow> tr_provider r = nullString p \<Longrightarrow>
   tr_idempotency_key r = nullString key \<Longrightarrow> env_uuid E wid = Some (tr_wallet_id r) \<Longrightarrow> db_ledger d' = db_ledger d @ ls \<Longrightarrow>
   (\<And>l. l \<in> set ls \<Longrightarrow> lr_wallet_id l = tr_wallet_id r) \<Longrightarrow>
   (\<And>w. w \<in> set (db_wallets d) \<Longrightarrow> wr_id w \<noteq> tr_wallet_id r \<Longrightarrow> w \<in> set (db_wallets d')) \<Longrightarrow> served sep E p wid key d d'"
  unfolding served_def by blast

lemma served_step [dest]: "served sep E p wid key d d' \<Longrightarrow> db_step sep (canonical E) d d'"
  by (simp add: served_def)

lemma recorded_step:
  assumes "env_ok E" and "new_request sep d tx" and "same_request tx tx'" and "recorded E tx' d r d'"
    and "tx_status tx' = REJECTED \<or> tx_status tx' = PROCESSED \<and> tx_transactionType tx' = LOSS \<or>
      tx_status tx' = PENDING_REFERENCE \<and> (\<exists>ref. reference_of d r = Some ref \<and> parked_behind r ref \<and>
        (tr_status ref = PENDING \<or> tr_status ref = PENDING_REFERENCE))"
  shows "served sep E (tx_provider tx) (tx_walletID tx) (tx_idempotencyKey tx) d d'"
proof -
  from assms(4) obtain evs ib where r: "row_for E tx' r" "tx_constraints r (db_txs d) (db_wallets d) = None"
      and e: "announced (status_event (tr_status r)) r evs" and d': "d' = set_inbox ib (add_events evs (add_tx r d))"
    by (auto simp: recorded_def)
  note f = row_for_fields [OF r(1)] new_external [OF assms(2,3) r(1)]
  have "db_step sep (canonical E) d d'"
    unfolding d' using f r e assms(5) row_for_id [OF assms(1) r(1)]
    by (intro db_step.record_only) simp_all
  then show ?thesis
    using f assms(3) by (intro servedI [where r = r and ls = "[]"]) (auto simp: d' same_request_def)
qed

lemma exists_id: "(\<exists>w \<in> set ws. wr_id w = u) \<longleftrightarrow> u \<in> wr_id ` set ws"
  by auto

lemma constraints_wallets:
  assumes "wr_id ` set ws = wr_id ` set ws'"
  shows "tx_constraints r rs ws = None \<longleftrightarrow> tx_constraints r rs ws' = None"
    and "ledger_constraints l ls rs ws = None \<longleftrightarrow> ledger_constraints l ls rs ws' = None"
  using assms by (simp_all add: tx_constraints_None ledger_constraints_None exists_id)

lemma moved_step:
  assumes "env_ok E" and "new_request sep d tx" and "moved_db E tx' dir (tx_amount tx) d wr b r d'" and "same_request tx tx'"
    and mv: "movement (db_txs d) r dir"
  shows "served sep E (tx_provider tx) (tx_walletID tx) (tx_idempotencyKey tx) d d'"
proof -
  from assms(3) obtain s d1 tx2 l evs ib where ch: "changed E d (tx_walletID tx') (tx_amount tx) dir s wr b d1"
      and pa: "processed_as (SetResultBalance b tx') tx2" and r: "row_for E tx2 r"
      and tc: "tx_constraints r (db_txs d1) (db_wallets d1) = None"
      and l: "entry_row E (tx_walletID tx2) (tr_id r) dir (money_amount (tx_amount tx)) (money_currency (tx_amount tx))
          (wr_balance wr) (money_amount b) l"
      and lc: "ledger_constraints l (db_ledger d1) (db_txs d1 @ [r]) (db_wallets d1) = None"
      and e: "announced (status_event PROCESSED) r evs" and d': "d' = set_inbox ib (add_events evs (add_ledger l (add_tx r d1)))"
    by (auto simp: moved_db_def ledgered_def)
  have d1: "d1 = set_wallet (wr_id wr) (with_balance wr (money_amount b) s) d" and wa: "wallet_at E d (tx_walletID tx') wr"
    using ch by (simp_all add: changed_def)
  have sr: "same_request tx tx2" using pa assms(4) by (auto simp: processed_as_def same_request_def SetResultBalance_def)
  have id: "canonical E (tr_id r)" by (rule row_for_id [OF assms(1) r])
  note f = row_for_fields [OF r] new_external [OF assms(2) sr r]
  have tc': "tx_constraints r (db_txs d) (db_wallets d) = None"
    using tc constraints_wallets(1) [of "db_wallets d1" "db_wallets d"] by (simp add: d1 del: table_simps(7))
  have lc': "ledger_constraints l (db_ledger d) (db_txs d @ [r]) (db_wallets d) = None"
    using lc constraints_wallets(2) [of "db_wallets d1" "db_wallets d"] by (simp add: d1 del: table_simps(7))
  have ent: "entry_for wr r dir l"
    using l id f(6,9) sr wa assms(4) unfolding entry_for_def entry_row_def wallet_at_def same_request_def by simp
  have st: "tr_status r = PROCESSED" using f(4) pa by (simp add: processed_as_def)
  have "db_step sep (canonical E) d (set_inbox ib (add_events evs (add_ledger l (add_tx r
      (set_wallet (wr_id wr) (with_balance wr (lr_balance_after l) s) d)))))"
    by (rule db_step.book [where dir = dir]) (fact id wallet_at_mem [OF wa] st f mv tc' ent lc' e)+
  moreover have "lr_balance_after l = money_amount b" using l by (simp add: entry_row_def)
  ultimately have "db_step sep (canonical E) d d'" unfolding d' d1 by simp
  moreover have "w \<in> set (db_wallets d')" if "w \<in> set (db_wallets d)" "wr_id w \<noteq> wr_id wr" for w
    using that by (simp add: d' d1 set_replace_id)
  moreover have "lr_wallet_id l = wr_id wr" "tr_wallet_id r = wr_id wr" using ent by (simp_all add: entry_for_def)
  moreover have "env_uuid E (tx_walletID tx) = Some (wr_id wr)" using wa assms(4) by (simp add: wallet_at_def same_request_def)
  ultimately show ?thesis
    using f sr by (intro servedI [where r = r and ls = "[l]"]) (auto simp: d' d1 same_request_def)
qed

section \<open>Verdicts\<close>

text \<open>
  What a request deserves, as a function of the tables. \<open>Book dir ref\<close> moves the balance, as the
  reversal of \<open>ref\<close> unless that is empty; \<open>Note\<close> records without a movement; \<open>Wait\<close> parks.
\<close>

datatype verdict = Refuse string | Wait | Note | Book Direction string

definition mismatch :: "tx_row \<Rightarrow> Transaction \<Rightarrow> string option" where
  "mismatch ref tx =
     (if tr_player_id ref \<noteq> tx_playerID tx then Some ''PLAYER_MISMATCH''
      else if tr_wallet_id ref \<noteq> tx_walletID tx then Some ''WALLET_MISMATCH''
      else if coalesce (tr_round_id ref) \<noteq> tx_roundID tx then Some ''ROUND_MISMATCH''
      else None)"

definition win_verdict :: "Transaction \<Rightarrow> tx_row \<Rightarrow> verdict" where
  "win_verdict tx ref =
     (if tr_transaction_type ref \<noteq> BET then Refuse ''REFERENCE_NOT_FOUND''
      else case mismatch ref tx of Some code \<Rightarrow> Refuse code | None \<Rightarrow> Book CREDIT '''')"

definition reversal_verdict :: "db \<Rightarrow> Transaction \<Rightarrow> tx_row \<Rightarrow> verdict" where
  "reversal_verdict d tx ref =
     (case mismatch ref tx of
        Some code \<Rightarrow> Refuse code
      | None \<Rightarrow>
          if tr_status ref = PENDING \<or> tr_status ref = PENDING_REFERENCE then Wait
          else if tr_status ref \<noteq> PROCESSED then Refuse ''REFERENCE_NOT_SUCCESSFUL''
          else if list_ex (\<lambda>x. reversal_of x = Some (tr_id ref)) (db_txs d) then Refuse ''DOUBLE_REVERSAL''
          else if tr_amount ref \<noteq> money_amount (tx_amount tx) then Refuse ''REVERSAL_VALUE_MISMATCH''
          else case reversal_direction (tx_transactionType tx) (tr_transaction_type ref) of
                 None \<Rightarrow> Refuse ''INVALID_REFERENCE_TYPE''
               | Some dir \<Rightarrow> Book dir (tr_id ref))"

definition verdict_of :: "db \<Rightarrow> Transaction \<Rightarrow> verdict" where
  "verdict_of d tx =
     (let ref = external_row d (tx_provider tx) (tx_externalReference tx) in
      case tx_transactionType tx of
        BET \<Rightarrow> Book DEBIT ''''
      | LOSS \<Rightarrow> Note
      | WIN \<Rightarrow>
          if tx_externalReference tx = '''' then Book CREDIT ''''
          else (case ref of None \<Rightarrow> Refuse ''REFERENCE_NOT_FOUND'' | Some r \<Rightarrow> win_verdict tx r)
      | _ \<Rightarrow>
          if tx_externalReference tx = '''' then Refuse ''MISSING_REFERENCE''
          else (case ref of None \<Rightarrow> Refuse ''REFERENCE_NOT_FOUND'' | Some r \<Rightarrow> reversal_verdict d tx r))"

text \<open>The wallet's answer to a movement: the code of the refusal, and the error that the caller sees.\<close>

definition wallet_refusal :: "wallet_row \<Rightarrow> Direction \<Rightarrow> Money \<Rightarrow> gerr option" where
  "wallet_refusal wr dir amount =
     (if dir = DEBIT \<and> sint (wr_balance wr) < cents amount then Some (wallet_err Wallet_ErrInsufficientBalance)
      else if dir = CREDIT \<and> \<not> in_int64 (sint (wr_balance wr) + cents amount)
        then Some (Errorf ''add balance'' (money_err ErrOverflow))
      else None)"

definition rejects :: "env \<Rightarrow> Transaction \<Rightarrow> string \<Rightarrow> db \<Rightarrow> tx_row \<Rightarrow> db \<Rightarrow> bool" where
  "rejects E tx code d r d' \<longleftrightarrow> (\<exists>tx'. rejected_as tx code tx' \<and> recorded E tx' d r d')"

definition rejection :: "tx_row \<Rightarrow> gerr + ProcessResult \<Rightarrow> bool" where
  "rejection r x \<longleftrightarrow> (\<exists>b. x = Inr \<lparr>pr_TransactionID = tr_id r, pr_Status = ''REJECTED'', pr_Balance = b,
     pr_IdempotentReplay = False\<rparr>)"

text \<open>\<open>carried_out E d tx wr x d'\<close>: the verdict on \<open>tx\<close> is what happened, and \<open>x\<close> reports it.\<close>

definition carried_out :: "env \<Rightarrow> db \<Rightarrow> Transaction \<Rightarrow> wallet_row \<Rightarrow> gerr + ProcessResult \<Rightarrow> db \<Rightarrow> bool" where
  "carried_out E d tx wr x d' \<longleftrightarrow>
     (case verdict_of d tx of
        Refuse code \<Rightarrow> \<exists>r. rejects E tx code d r d' \<and> rejection r x
      | Wait \<Rightarrow> \<exists>r tx'. same_request tx tx' \<and> tx_status tx' = PENDING_REFERENCE \<and> recorded E tx' d r d' \<and>
          x = Inr \<lparr>pr_TransactionID = tr_id r, pr_Status = ''PENDING_REFERENCE'', pr_Balance = no_money,
            pr_IdempotentReplay = False\<rparr>
      | Note \<Rightarrow> \<exists>r tx' b. same_request tx tx' \<and> tx_status tx' = PROCESSED \<and> tx_resultBalance tx' = Some b \<and>
          b = \<lparr>money_amount = wr_balance wr, money_currency = BRL\<rparr> \<and>
          recorded E tx' d r d' \<and> x = Inr (processed_result r b)
      | Book dir ref \<Rightarrow>
          (case wallet_refusal wr dir (tx_amount tx) of
             Some err \<Rightarrow>
               if ref = '''' then \<exists>r. rejects E tx (mapWalletError err) d r d' \<and> x = Inl (wallet_failure err)
               else \<exists>r. rejects E tx (mapWalletErrorForReversal err) d r d' \<and> x = Inl err
           | None \<Rightarrow> \<exists>r b tx'. same_request tx tx' \<and> tx_internalReference tx' = ref \<and>
               moved_db E tx' dir (tx_amount tx) d wr b r d' \<and> x = Inr (processed_result r b)))"

definition lawful :: "bool \<Rightarrow> env \<Rightarrow> Transaction \<Rightarrow> db \<Rightarrow> gerr + ProcessResult \<Rightarrow> db \<Rightarrow> bool" where
  "lawful sep E tx d x d' \<longleftrightarrow> (d' = d \<or> served sep E (tx_provider tx) (tx_walletID tx) (tx_idempotencyKey tx) d d') \<and>
     (calm E \<longrightarrow> (\<forall>wr. known E d tx wr \<longrightarrow> carried_out E d tx wr x d'))"

section \<open>Rejection and parking\<close>

text \<open>A row that is no second reversal can be stored.\<close>

lemma storable_request:
  assumes "new_request sep d tx" and "known E d tx wr" and "same_request tx tx'"
    and "tx_status tx' = PROCESSED \<longrightarrow> (\<forall>x \<in> set (db_txs d). reversal_of x \<noteq> nullString (tx_internalReference tx') \<or>
      reversal_of x = None)"
  shows "storable E tx' d"
proof -
  obtain wid pid where u: "env_uuid E (tx_walletID tx') = Some wid" "wid = wr_id wr" "env_uuid E (tx_playerID tx') = Some pid"
    using assms(2,3) by (auto simp: known_def wallet_at_def same_request_def)
  have "tx_constraints (row_of_tx i wid pid tx') (db_txs d) (db_wallets d) = None"
    if "i \<notin> set (map tr_id (db_txs d))" for i
    unfolding tx_constraints_None
  proof (intro conjI)
    let ?r = "row_of_tx i wid pid tx'"
    show "TransactionType_Valid (tr_transaction_type ?r) \<or> tr_transaction_type ?r = OPENING" "0 \<le> sint (tr_amount ?r)"
        "currency_chk (tr_currency ?r)"
      using assms(1,3) by (auto simp: row_of_tx_def new_request_def same_request_def cents_def)
    show "opening_rules ?r"
      using assms(1,3) by (auto simp: row_of_tx_def new_request_def same_request_def opening_rules_def)
    show "\<forall>x \<in> set (db_txs d). tr_id x \<noteq> tr_id ?r"
      using that by (auto simp: row_of_tx_def)
    show "\<not> clash idempotency_of ?r (db_txs d)"
      using assms(1-3) by (auto simp: clash_def list_ex_iff idempotency_of_def row_of_tx_def new_request_def same_request_def known_def new_key_def
          nullString_def split: option.splits)
    show "\<not> clash opening_of ?r (db_txs d)"
      using assms(1,3) by (auto simp: clash_def opening_of_def row_of_tx_def new_request_def same_request_def)
    show "\<not> clash reversal_of ?r (db_txs d)"
      using assms(4) by (auto simp: clash_def list_ex_iff reversal_of_def row_of_tx_def split: if_splits)
    show "\<exists>w \<in> set (db_wallets d). wr_id w = tr_wallet_id ?r"
      using assms(2) u by (auto simp: row_of_tx_def known_def dest: wallet_at_mem)
  qed
  then show ?thesis using u by (auto simp: storable_def)
qed

lemma rejected_event_marshals:
  "new_request sep d tx \<Longrightarrow> same_request tx tx' \<Longrightarrow> marshal_payload (rejected_event (SetID i tx') code) \<noteq> None"
  by (subst json_Marshal_ok(2)) (auto simp: new_request_def same_request_def SetID_def)

lemma wp_reject_lawful:
  assumes "env_ok E" and "new_request sep (w_db w) tx" and "calm E \<Longrightarrow> verdict_of (w_db w) tx = Refuse code"
    and Q: "\<And>x w'. lawful sep E tx (w_db w) x (w_db w') \<Longrightarrow> Q x w'"
  shows "wp (reject E tx code) Q w"
proof -
  have step: "served sep E (tx_provider tx) (tx_walletID tx) (tx_idempotencyKey tx) (w_db w) (w_db w')" if "rejected_as tx code tx'" "recorded E tx' (w_db w) r (w_db w')" for tx' r w'
    using that by (intro recorded_step [OF assms(1,2)]) (auto simp: rejected_as_def)
  have st: "tx_status tx = PENDING" using assms(2) by (simp add: new_request_def)
  show ?thesis
  proof (rule wp_reject [OF assms(1) st], goal_cases)
    case (1 e w' tx')
    have "\<not> (calm E \<and> known E (w_db w) tx wr)" for wr
      using 1 storable_request [OF assms(2), of E wr tx'] rejected_event_marshals [OF assms(2), of tx']
      by (auto simp: blamed_def rejected_as_def)
    with 1 step show ?case by (intro Q) (auto simp: lawful_def)
  next
    case (2 r tx' b w')
    then show ?case
      using assms(3) step by (intro Q) (auto simp: lawful_def carried_out_def rejects_def rejection_def)
  qed
qed

lemma parked_row:
  assumes "new_request sep d tx" and "same_request tx tx'" and "row_for E tx' r" and "ids_inv (canonical E) d"
    and f: "external_row d (tx_provider tx) (tx_externalReference tx) = Some ref" and "tx_externalReference tx \<noteq> ''''"
    and "tr_wallet_id ref = tx_walletID tx"
  shows "parked_behind r ref" and "tr_wallet_id r = tr_wallet_id ref" and "reference_of d r = Some ref"
proof -
  have ref: "ref \<in> set (db_txs d)" "tr_provider ref = Some (tx_provider tx)" "tr_external_id ref = Some (tx_externalReference tx)"
    using f by (auto simp: external_row_def find_Some_iff)
  then have "canonical E (tr_wallet_id ref)" using assms(4) unfolding ids_inv_def by auto
  then show "tr_wallet_id r = tr_wallet_id ref"
    using assms(2,7) row_for_fields(9) [OF assms(3)] by (simp add: same_request_def)
  then show "parked_behind r ref" "reference_of d r = Some ref"
    using assms(1,2,6) f ref row_for_fields [OF assms(3)]
    by (simp_all add: parked_behind_def reference_of_def external_row_def new_request_def same_request_def nullString_def)
qed

lemma wp_park_lawful:
  assumes "env_ok E" and "new_request sep (w_db w) tx" and "calm E \<Longrightarrow> verdict_of (w_db w) tx = Wait"
    and "ids_inv (canonical E) (w_db w)"
    and ref: "external_row (w_db w) (tx_provider tx) (tx_externalReference tx) = Some ref" "tx_externalReference tx \<noteq> ''''" "tr_wallet_id ref = tx_walletID tx"
      "tr_status ref = PENDING \<or> tr_status ref = PENDING_REFERENCE"
    and Q: "\<And>x w'. lawful sep E tx (w_db w) x (w_db w') \<Longrightarrow> Q x w'"
  shows "wp (park_pending E tx) Q w"
proof -
  have step: "served sep E (tx_provider tx) (tx_walletID tx) (tx_idempotencyKey tx) (w_db w) (w_db w')"
    if "same_request tx tx'" "tx_status tx' = PENDING_REFERENCE" "recorded E tx' (w_db w) r (w_db w')" for tx' r w'
  proof -
    have "row_for E tx' r" using that(3) by (simp add: recorded_def)
    then have "parked_behind r ref \<and> reference_of (w_db w) r = Some ref"
      using parked_row(1,3) [OF assms(2) that(1) _ assms(4) ref(1-3)] by blast
    then show ?thesis using that ref(4) by (intro recorded_step [OF assms(1,2)]) auto
  qed
  have st: "tx_status tx = PENDING" using assms(2) by (simp add: new_request_def)
  show ?thesis
  proof (rule wp_park_pending [OF assms(1) st], goal_cases)
    case (1 e w' tx')
    have "\<not> (calm E \<and> known E (w_db w) tx wr)" for wr
      using 1 storable_request [OF assms(2), of E wr tx'] by (auto simp: blamed_def)
    with 1 step show ?case by (intro Q) (auto simp: lawful_def)
  next
    case (2 r w' tx')
    then show ?case
      using assms(3) step by (intro Q) (auto simp: lawful_def carried_out_def)
  qed
qed

section \<open>Losses\<close>

text \<open>An error is lawful if there is a cause for it or the request's identifiers are unknown.\<close>

lemma lawful_err:
  assumes "d' = d \<or> served sep E (tx_provider tx) (tx_walletID tx) (tx_idempotencyKey tx) d d'" and "blamed E (\<forall>wr. \<not> known E d tx wr)"
  shows "lawful sep E tx d x d'"
  using assms by (auto simp: lawful_def blamed_def)

lemma lawful_note:
  assumes "wallet_at E d (tx_walletID tx) wr" and "recorded E tx' d r d'" and "served sep E (tx_provider tx) (tx_walletID tx) (tx_idempotencyKey tx) d d'"
    and "tx_transactionType tx = LOSS" and "same_request tx tx'" and "tx_status tx' = PROCESSED"
    and "b = \<lparr>money_amount = wr_balance wr, money_currency = BRL\<rparr>" and "tx_resultBalance tx' = Some b"
  shows "lawful sep E tx d (Inr (service_result (SetID (tr_id r) tx') b)) d'"
proof -
  have v: "verdict_of d tx = Note" using assms(4) by (simp add: verdict_of_def Let_def)
  have "wr0 = wr" if "known E d tx wr0" for wr0 using that assms(1) wallet_at_unique by (auto simp: known_def)
  moreover have "service_result (SetID (tr_id r) tx') b = processed_result r b"
    using assms(6) by (simp add: service_result_def processed_result_def)
  ultimately show ?thesis using v assms by (auto simp: lawful_def carried_out_def)
qed

lemma wp_loss_commit:
  assumes "w_txs w t = OpenTx d' s" and rec: "\<And>ib. recorded E tx' (w_db w) r (set_inbox ib d')"
    and step: "\<And>d'. recorded E tx' (w_db w) r d' \<Longrightarrow> served sep E (tx_provider tx) (tx_walletID tx) (tx_idempotencyKey tx) (w_db w) d'"
    and tx: "tx_transactionType tx = LOSS" "same_request tx tx'" "tx_status tx' = PROCESSED"
    and at: "wallet_at E (w_db w) (tx_walletID tx) wr"
    and b: "tx_resultBalance tx' = Some \<lparr>money_amount = wr_balance wr, money_currency = BRL\<rparr>"
    and Q: "\<And>x w'. lawful sep E tx (w_db w) x (w_db w') \<Longrightarrow> Q x w'"
  shows "wp (do { _ \<leftarrow> complete_inbox E t messageID;
    bind_err (tx_Commit E t) (Errorf ''commit loss'') (\<lambda>_. do {
      _ \<leftarrow> count_processed;
      bind_err (getWalletBalance E (tx_walletID (SetID (tr_id r) tx'))) (\<lambda>e. e)
        (\<lambda>b2. ok (service_result (SetID (tr_id r) tx') b2)) }) }) Q w"
proof -
  have rec2: "Q (Inl e) w'" if "w_db w' = w_db w \<or> recorded E tx' (w_db w) r (w_db w')" "\<not> calm E" for e w'
    using that step by (auto simp: blamed_def intro!: Q lawful_err)
  have wid: "tx_walletID (SetID (tr_id r) tx') = tx_walletID tx" using tx(2) by (simp add: SetID_def same_request_def)
  have kept: "wallet_at E (w_db w') (tx_walletID tx) wr" if "recorded E tx' (w_db w) r (w_db w')" for w'
    using that at by (auto simp: wallet_at_def recorded_def)
  have balance: "wp (bind_err (getWalletBalance E (tx_walletID (SetID (tr_id r) tx'))) (\<lambda>e. e)
        (\<lambda>b2. ok (service_result (SetID (tr_id r) tx') b2))) Q w'" if r: "recorded E tx' (w_db w) r (w_db w')" for w'
    unfolding wp_bind_err wid
  proof (rule wp_getWalletBalance, goal_cases)
    case (1 e w2)
    then have "\<not> calm E" using kept [OF r] by (auto simp: blamed_def)
    then show ?case using 1 r by (auto simp: quiet_def intro!: rec2)
  next
    case (2 wr' w2)
    have "wr' = wr" using wallet_at_unique [OF 2(2) kept [OF r]] .
    then show ?case
      using 2 r tx by (auto simp: wp_ret quiet_def intro!: Q lawful_note [OF at r step [OF r] _ _ _ refl b])
  qed
  show ?thesis
    unfolding wp_bind [of "complete_inbox _ _ _"]
  proof (rule wp_complete_inbox [OF assms(1)], goal_cases)
    case (1 w2)
    then show ?case unfolding wp_bind_err by (intro wp_Commit_dead) (auto intro!: rec2)
  next
    case (2 ib w2)
    show ?case
      unfolding wp_bind_err
      by (rule wp_Commit [OF 2(2)])
        (use rec [of ib] 2 in \<open>auto simp: wp_bind count_processed_def quiet_def
          intro!: rec2 wp_count_metric balance\<close>)
  qed
qed

lemma wp_loss_store:
  assumes "env_ok E" and "w_txs w t = OpenTx (w_db w) s" and "new_request sep (w_db w) tx"
    and tx: "tx_transactionType tx = LOSS" "same_request tx tx'" "tx_status tx' = PROCESSED" "tx_internalReference tx' = ''''"
    and at: "wallet_at E (w_db w) (tx_walletID tx) wr"
    and b: "tx_resultBalance tx' = Some \<lparr>money_amount = wr_balance wr, money_currency = BRL\<rparr>"
    and Q: "\<And>x w'. lawful sep E tx (w_db w) x (w_db w') \<Longrightarrow> Q x w'"
  shows "wp (bind_err (record_inbox E t messageID) (\<lambda>e. e) (\<lambda>_.
     bind_err (insert_with_event E t ''insert loss transaction'' ''insert processed outbox event'' tx' loss_event)
       (\<lambda>e. e) (\<lambda>tx'. do {
         _ \<leftarrow> complete_inbox E t messageID;
         bind_err (tx_Commit E t) (Errorf ''commit loss'') (\<lambda>_. do {
           _ \<leftarrow> count_processed;
           bind_err (getWalletBalance E (tx_walletID tx')) (\<lambda>e. e) (\<lambda>b2. ok (service_result tx' b2))
         })
       }))) Q w"
proof -
  have step: "served sep E (tx_provider tx) (tx_walletID tx) (tx_idempotencyKey tx) (w_db w) d'" if "recorded E tx' (w_db w) r d'" for r d'
    using that tx by (intro recorded_step [OF assms(1,3)]) (auto simp: same_request_def)
  have m: "marshal_payload (loss_event (SetID i tx')) \<noteq> None" for i
    using assms(3) tx(2) by (subst json_Marshal_ok(2))
      (auto simp: loss_event_def wager_event_def new_request_def same_request_def SetID_def)
  show ?thesis
    unfolding wp_bind_err [of "record_inbox _ _ _"]
  proof (rule wp_record_inbox [OF assms(2)], goal_cases)
    case (1 e w')
    then show ?case by (auto simp: blamed_def intro!: Q lawful_err)
  next
    case (2 ib w1)
    show ?case
      unfolding sum.case wp_bind_err [of "insert_with_event _ _ _ _ _ _"]
    proof (rule wp_insert_with_event [OF assms(1) 2(2)], goal_cases)
      case (1 i)
      then show ?case using tx by (simp add: loss_event_def wager_event_def status_event_def)
    next
      case (2 e w')
      have "blamed E (\<forall>wr. \<not> known E (w_db w) tx wr)"
        using 2(2) m storable_request [OF assms(3), of E _ tx'] tx by (auto simp: blamed_def nullString_def)
      with 2 \<open>w_db w1 = w_db w\<close> show ?case by (auto intro!: Q lawful_err)
    next
      case (3 r d' w2)
      then have w2: "w_db w2 = w_db w" using \<open>w_db w1 = w_db w\<close> by simp
      show ?case
        unfolding sum.case
        by (rule wp_loss_commit [OF 3(2), where E = E and tx = tx and wr = wr]) (use w2 3 step tx at b Q in auto)
    qed
  qed
qed

lemma wp_processLoss:
  assumes "env_ok E" and "new_request sep (w_db w) tx" and "tx_transactionType tx = LOSS"
    and Q: "\<And>x w'. lawful sep E tx (w_db w) x (w_db w') \<Longrightarrow> Q x w'"
  shows "wp (processLoss E tx messageID) Q w"
  unfolding processLoss_def wp_bind
proof (rule wp_transition, goal_cases)
  case (1 n1 n2 w1)
  define tx1 where "tx1 = TransitionTo_stmt n1 n2 PROCESSED tx"
  have st: "tx_status tx = PENDING" using assms(2) by (simp add: new_request_def)
  have tx1: "same_request tx tx1" "tx_status tx1 = PROCESSED" "tx_internalReference tx1 = ''''" "tx_walletID tx1 = tx_walletID tx"
    using assms(2) st by (auto simp: tx1_def new_request_def same_request_def TransitionTo_stmt_cases)
  have w1: "w_db w1 = w_db w" using 1 by (simp add: quiet_def)
  show ?case
    unfolding tx1_def [symmetric] wp_bind_err [of "TxManager_Begin E"]
  proof (rule wp_Begin, goal_cases)
    case (1 e w')
    then show ?case using w1 by (auto simp: quiet_def blamed_def intro!: Q lawful_err)
  next
    case (2 t w2 s)
    show ?case
      unfolding sum.case wp_defer_Rollback wp_bind_err [of "getWalletBalance _ _"]
    proof (rule wp_getWalletBalance, goal_cases)
      case (1 e w')
      then have "blamed E (\<forall>wr. \<not> known E (w_db w) tx wr)"
        using w1 2 tx1 by (auto simp: blamed_def known_def)
      with 1 show ?case using w1 2 by (auto simp: quiet_def intro!: Q lawful_err)
    next
      case (2 wr w3)
      have "w_txs w3 t = OpenTx (w_db w3) s" "w_db w3 = w_db w" "wallet_at E (w_db w) (tx_walletID tx) wr"
        using 2 \<open>w_txs w2 t = _\<close> \<open>w_db w2 = _\<close> w1 tx1 by (simp_all add: quiet_def)
      then show ?case
        unfolding sum.case Let_def
        using tx1 assms by (intro wp_loss_store [OF assms(1)]) auto
    qed
  qed
qed

section \<open>Movements\<close>

lemma change_refused_known:
  assumes "change_refused E d (tx_walletID tx) (tx_amount tx) dir e" and "known E d tx wr" and "new_request sep d tx"
    and "tx_transactionType tx \<noteq> LOSS" and "dir = DEBIT \<or> dir = CREDIT"
  shows "wallet_refusal wr dir (tx_amount tx) = Some e"
proof -
  have at: "wallet_at E d (tx_walletID tx) wr" and rd: "readable_wallet wr"
    using assms(2) by (auto simp: known_def wallet_at_def)
  moreover have "r = wr" if "wallet_at E d (tx_walletID tx) r" for r by (rule wallet_at_unique [OF that at])
  moreover have "tx_walletID tx \<noteq> ''''" "sint (wr_version wr) \<noteq> MaxInt64"
    using assms(2,3) by (simp_all add: new_request_def known_def)
  ultimately obtain now where "change_of now wr (tx_amount tx) dir = Inl e"
    using assms(1) unfolding change_refused_def by blast
  then show ?thesis
    using assms(3-5) wallet_of_ok [OF rd]
    by (auto simp: change_of_def Wallet_Debit_eq Wallet_Credit_eq wallet_refusal_def new_request_def split: if_splits)
qed

lemma changed_accepted:
  assumes "changed E d i amount dir s wr b d1" and "dir = DEBIT \<or> dir = CREDIT"
  shows "wallet_refusal wr dir amount = None"
  using assms in_int64_cents [of b] by (auto simp: changed_def wallet_refusal_def signed_def)

lemma changed_wallets:
  assumes "changed E d i amount dir s wr b d1"
  shows "wr_id ` set (db_wallets d1) = wr_id ` set (db_wallets d)" "db_txs d1 = db_txs d" "db_ledger d1 = db_ledger d"
  using assms by (simp_all add: changed_def del: table_simps(7))

lemma storable_changed:
  "changed E d i amount dir s wr b d1 \<Longrightarrow> storable E tx d1 = storable E tx d"
  unfolding storable_def
  using constraints_wallets(1) [OF changed_wallets(1)] by (simp add: changed_wallets(2))

text \<open>Every transaction of the ledger is in the table, so a new one can be entered.\<close>

lemma enterable_changed:
  assumes "env_ok E" and "booking_inv d" and "changed E d (tx_walletID tx) amount dir s wr b d1" and "dir = DEBIT \<or> dir = CREDIT"
    and "row_for E tx r" and "tx_constraints r (db_txs d1) (db_wallets d1) = None"
  shows "enterable E (tx_walletID tx) (tr_id r) dir (money_amount amount) (money_currency amount) (wr_balance wr)
    (money_amount b) (add_tx r d1)"
proof -
  note w = changed_wallets [OF assms(3)]
  have at: "wallet_at E d (tx_walletID tx) wr" and b: "0 < cents amount" "money_currency amount = BRL" "0 \<le> cents b"
      "cents b = sint (wr_balance wr) + signed dir (cents amount)"
    using assms(3) by (simp_all add: changed_def)
  have id: "canonical E (tr_id r)" by (rule row_for_id [OF assms(1,5)])
  have "tr_id x \<noteq> tr_id r" if "x \<in> set (db_txs d)" for x
    using assms(6) that by (simp add: tx_constraints_None w)
  then have new: "lr_transaction_id x \<noteq> tr_id r" if "x \<in> set (db_ledger d)" for x
    using assms(2) that unfolding booking_inv_def booked_def by metis
  have mem: "wr_id wr \<in> wr_id ` set (db_wallets d1)" using wallet_at_mem [OF at] w(1) by simp
  have "ledger_constraints (mk_entry i (wr_id wr) (tr_id r) dir (money_amount amount) (money_currency amount) (wr_balance wr)
      (money_amount b) now) (db_ledger (add_tx r d1)) (db_txs (add_tx r d1)) (db_wallets (add_tx r d1)) = None"
    if "i \<notin> set (map lr_id (db_ledger (add_tx r d1)))" for i now
    using that new assms(4) b mem at
    unfolding ledger_constraints_None mk_entry_def exists_id ledger_math_signed
    by (auto simp: w cents_def wallet_at_def readable_wallet_def image_iff)
  then show ?thesis
    using at id by (auto simp: enterable_def wallet_at_def)
qed

lemma events_emittable:
  assumes "env_ok E" and "row_for E tx r" and "wallet_at E d (tx_walletID tx) wr" and "money_currency (tx_amount tx) = BRL"
    and "0 \<le> cents (tx_amount tx)" and "money_currency b1 = BRL" "0 \<le> cents b1"
    and "ev \<in> set (buildTransactionEvents (SetID (tr_id r) tx) dir (tx_amount tx)
      \<lparr>money_amount = wr_balance wr, money_currency = BRL\<rparr> b1 v)"
  shows "emittable E ev"
proof -
  have "0 \<le> cents \<lparr>money_amount = wr_balance wr, money_currency = BRL\<rparr>"
    using assms(3) by (simp add: wallet_at_def readable_wallet_def cents_def)
  then have "marshal_payload ev = Some ev"
    using assms(4-8) by (intro json_Marshal_ok(2)) (auto simp: buildTransactionEvents_def wager_event_def SetID_def split: if_splits)
  moreover have "env_uuid E (ev_AggregateID ev) \<noteq> None"
    using assms(3,8) row_for_id [OF assms(1,2)]
    by (auto simp: buildTransactionEvents_def wager_event_def SetID_def wallet_at_def split: if_splits)
  ultimately show ?thesis by (simp add: emittable_def)
qed

lemma move_ready_known:
  assumes "env_ok E" and "booking_inv d" and "new_request sep d tx" and "known E d tx wr" and "same_request tx tx0"
    and "dir = DEBIT \<or> dir = CREDIT"
    and "\<forall>x \<in> set (db_txs d). reversal_of x \<noteq> nullString (tx_internalReference tx0) \<or> reversal_of x = None"
  shows "move_ready E tx0 dir (tx_amount tx) d"
  unfolding move_ready_def ledgerable_def
proof (intro allI impI conjI, goal_cases)
  case (1 s wr' b d1 tx')
  then have "storable E tx' d"
    using assms(5,7) by (intro storable_request [OF assms(3,4)])
      (auto simp: processed_as_def same_request_def SetResultBalance_def)
  then show ?case using storable_changed [OF 1(1)] by simp
next
  case (2 s wr' b d1 tx' r)
  have "tx_walletID tx0 = tx_walletID tx'" using 2(2) by (simp add: processed_as_def same_request_def SetResultBalance_def)
  then show ?case using enterable_changed [OF assms(1,2) _ assms(6) 2(3,4)] 2(1) by simp
next
  case (3 s wr' b d1 tx' r)
  have sr: "same_request tx tx'" using 3(2) assms(5) by (auto simp: processed_as_def same_request_def SetResultBalance_def)
  have eq: "tx_amount tx = tx_amount tx'" "tx_walletID tx0 = tx_walletID tx'"
    using sr assms(5) by (simp_all add: same_request_def)
  show ?case
    unfolding eq(1)
    using 3(1) assms(3) eq by (intro ballI events_emittable [OF assms(1) 3(3)])
      (auto simp: changed_def new_request_def)
qed

lemma movement_plain:
  assumes "new_request sep d tx" and "moved_db E tx' dir amount d wr b r d'" and "same_request tx tx'"
    and "tx_transactionType tx = BET \<and> dir = DEBIT \<or> tx_transactionType tx = WIN \<and> dir = CREDIT"
  shows "movement (db_txs d) r dir"
proof -
  have "tr_transaction_type r = tx_transactionType tx"
    using assms(2,3) row_for_fields(5)
    by (auto simp: moved_db_def ledgered_def processed_as_def same_request_def SetResultBalance_def)
  then show ?thesis using assms(4) by (auto simp: movement_def)
qed

text \<open>The error path of a movement without reference.\<close>

lemma maybe_rejected_step:
  assumes "env_ok E" and "new_request sep d tx" and "maybe_rejected E tx code d d'"
  shows "d' = d \<or> served sep E (tx_provider tx) (tx_walletID tx) (tx_idempotencyKey tx) d d'"
proof -
  obtain tx' where tx': "rejected_as tx code tx'" "d' = d \<or> (\<exists>r. recorded E tx' d r d')"
    using assms(3) by (auto simp: maybe_rejected_def)
  have sr: "same_request tx tx'" "tx_status tx' = REJECTED" using tx'(1) by (simp_all add: rejected_as_def)
  show ?thesis using tx'(2) recorded_step [OF assms(1,2) sr(1)] sr(2) by blast
qed

lemma lawful_refused:
  assumes "env_ok E" and "new_request sep d tx" and "maybe_rejected E tx code d d'"
    and "\<And>wr. calm E \<Longrightarrow> known E d tx wr \<Longrightarrow> \<exists>dir ref err. verdict_of d tx = Book dir ref \<and>
      wallet_refusal wr dir (tx_amount tx) = Some err \<and>
      (ref = '''' \<and> code = mapWalletError err \<and> x = Inl (wallet_failure err) \<or>
       ref \<noteq> '''' \<and> code = mapWalletErrorForReversal err \<and> x = Inl err)"
  shows "lawful sep E tx d x d'"
proof -
  obtain tx' where tx': "rejected_as tx code tx'" "d' = d \<or> (\<exists>r. recorded E tx' d r d')"
      "calm E \<and> storable E tx' d \<and> (\<forall>i. marshal_payload (rejected_event (SetID i tx') code) \<noteq> None) \<longrightarrow> (\<exists>r. recorded E tx' d r d')"
    using assms(3) by (auto simp: maybe_rejected_def)
  have sr: "same_request tx tx'" "tx_status tx' = REJECTED" using tx'(1) by (simp_all add: rejected_as_def)
  have step: "recorded E tx' d r d' \<Longrightarrow> served sep E (tx_provider tx) (tx_walletID tx) (tx_idempotencyKey tx) d d'" for r
    using recorded_step [OF assms(1,2) sr(1)] sr by blast
  have "\<exists>r. recorded E tx' d r d'" if "calm E" "known E d tx wr" for wr
    using that tx'(3) storable_request [OF assms(2) that(2) sr(1)] sr(2) rejected_event_marshals [OF assms(2) sr(1)] by simp
  then have "carried_out E d tx wr x d'" if "calm E" "known E d tx wr" for wr
    using assms(4) [OF that] that tx'(1) by (fastforce simp: carried_out_def rejects_def)
  then show ?thesis using tx'(2) step by (auto simp: lawful_def)
qed

lemma lawful_moved:
  assumes "served sep E (tx_provider tx) (tx_walletID tx) (tx_idempotencyKey tx) d d'" and "moved_db E tx' dir (tx_amount tx) d wr b r d'" and "same_request tx tx'"
    and "calm E \<Longrightarrow> verdict_of d tx = Book dir (tx_internalReference tx')" and "dir = DEBIT \<or> dir = CREDIT"
  shows "lawful sep E tx d (Inr (processed_result r b)) d'"
proof -
  obtain s d1 where ch: "changed E d (tx_walletID tx') (tx_amount tx) dir s wr b d1"
    using assms(2) by (auto simp: moved_db_def)
  have none: "wallet_refusal wr dir (tx_amount tx) = None" by (rule changed_accepted [OF ch assms(5)])
  have at: "wallet_at E d (tx_walletID tx) wr" using ch assms(3) by (simp add: changed_def same_request_def)
  have "wr0 = wr" if "known E d tx wr0" for wr0 using that at wallet_at_unique by (auto simp: known_def)
  then show ?thesis
    using assms none by (fastforce simp: lawful_def carried_out_def)
qed

lemma wp_book_lawful:
  assumes "env_ok E" and "db_inv sep (canonical E) (w_db w)" and "new_request sep (w_db w) tx"
    and kind: "tx_transactionType tx = BET \<and> dir = DEBIT \<or> tx_transactionType tx = WIN \<and> dir = CREDIT"
    and v: "calm E \<Longrightarrow> verdict_of (w_db w) tx = Book dir ''''"
    and Q: "\<And>x w'. lawful sep E tx (w_db w) x (w_db w') \<Longrightarrow> Q x w'"
  shows "wp (bind_err (TxManager_Begin E) f (\<lambda>t. defer_Rollback t (do {
       change \<leftarrow> applyBalanceChange E (Some t) (tx_walletID tx) (tx_amount tx) dir;
       (case change of
          Inl err \<Rightarrow> fail_wallet E t tx err
        | Inr (balBefore, balAfter, walletVersion) \<Rightarrow>
            bind_err (commitWithLedger E t (SetResultBalance balAfter tx) dir (tx_amount tx) balBefore balAfter
                walletVersion messageID) (\<lambda>e. e) (\<lambda>tx'. do {
              _ \<leftarrow> count_processed;
              ok (service_result tx' balAfter)
            }))
     }))) Q w"
proof -
  have inv: "keys_inv (w_db w)" "booking_inv (w_db w)" using assms(2) by (simp_all add: db_inv_def)
  have st: "tx_status tx = PENDING" and ref: "tx_internalReference tx = ''''" using assms(3) by (simp_all add: new_request_def)
  have dir: "dir = DEBIT \<or> dir = CREDIT" "tx_transactionType tx \<noteq> LOSS" using kind by auto
  have step: "served sep E (tx_provider tx) (tx_walletID tx) (tx_idempotencyKey tx) (w_db w) (w_db w')"
    if "moved_db E tx dir (tx_amount tx) (w_db w) wr b r (w_db w')" for wr b r w'
    using moved_step [OF assms(1,3) that] movement_plain [OF assms(3) that _ kind] by simp
  show ?thesis
  proof (rule wp_move [OF assms(1) st inv(1) dir(1)], goal_cases)
    case (1 e w')
    then show ?case by (auto simp: blamed_def intro!: Q lawful_err)
  next
    case (2 err w')
    show ?case
      by (intro Q lawful_refused [OF assms(1,3) 2(1)])
        (use 2(2) change_refused_known [OF _ _ assms(3) dir(2,1)] v in \<open>auto simp: blamed_def\<close>)
  next
    case (3 e w')
    have "blamed E (\<forall>wr. \<not> known E (w_db w) tx wr)"
      using 3(2) move_ready_known [OF assms(1) inv(2) assms(3) _ _ dir(1), of _ tx] ref
      by (auto simp: blamed_def nullString_def)
    with 3 step show ?case by (auto intro!: Q lawful_err)
  next
    case (4 wr b r w')
    show ?case
      by (intro Q lawful_moved [OF step [OF 4] 4]) (use v ref dir in auto)
  qed
qed

lemma wp_processBet:
  assumes "env_ok E" and "db_inv sep (canonical E) (w_db w)" and "new_request sep (w_db w) tx" and "tx_transactionType tx = BET"
    and "\<And>x w'. lawful sep E tx (w_db w) x (w_db w') \<Longrightarrow> Q x w'"
  shows "wp (processBet E tx (tx_amount tx) messageID) Q w"
  unfolding processBet_eq
  by (rule wp_book_lawful [OF assms(1-3)]) (use assms(4,5) in \<open>auto simp: verdict_of_def Let_def\<close>)

lemma wp_credit_win:
  assumes "env_ok E" and "db_inv sep (canonical E) (w_db w)" and "new_request sep (w_db w) tx" and "tx_transactionType tx = WIN"
    and "calm E \<Longrightarrow> verdict_of (w_db w) tx = Book CREDIT ''''"
    and "\<And>x w'. lawful sep E tx (w_db w) x (w_db w') \<Longrightarrow> Q x w'"
  shows "wp (credit_win E tx (tx_amount tx) messageID) Q w"
  unfolding credit_win_def WalletService_Credit_def
  by (rule wp_book_lawful [OF assms(1-3)]) (use assms(4-6) in auto)

section \<open>References\<close>

text \<open>A reference as the search by provider and external identifier finds it.\<close>

definition found_reference :: "db \<Rightarrow> Transaction \<Rightarrow> tx_row \<Rightarrow> Transaction \<Rightarrow> bool" where
  "found_reference d tx r ref \<longleftrightarrow> external_row d (tx_provider tx) (tx_externalReference tx) = Some r \<and> tx_of_row r = Inr ref"

lemma found_reference_row:
  assumes "found_reference d tx r ref"
  shows "r \<in> set (db_txs d)" "tr_provider r = Some (tx_provider tx)" "tr_external_id r = Some (tx_externalReference tx)"
    "tx_id ref = tr_id r" "tx_provider ref = tx_provider tx" "tx_playerID ref = tr_player_id r" "tx_walletID ref = tr_wallet_id r"
    "tx_amount ref = \<lparr>money_amount = tr_amount r, money_currency = BRL\<rparr>" "tx_roundID ref = coalesce (tr_round_id r)"
    "tx_status ref = tr_status r" "tx_transactionType ref = tr_transaction_type r"
  using assms by (auto simp: found_reference_def external_row_def find_Some_iff coalesce_def RehydrateTransaction_def
      dest!: tx_of_row_Inr)

lemma validateReference_mismatch:
  assumes "found_reference d tx r ref" and "money_currency (tx_amount tx) = BRL"
  shows "map_option mapValidationError (validateReference tx ref) = mismatch r tx"
  using assms(2) found_reference_row [OF assms(1)]
  by (simp add: validateReference_def mismatch_def mapValidationError_def)

lemma validateReference_None:
  "found_reference d tx r ref \<Longrightarrow> validateReference tx ref = None \<Longrightarrow> tr_wallet_id r = tx_walletID tx"
  using found_reference_row [of d tx r ref] by (simp add: validateReference_def split: if_splits)

lemma validateReversalValue_amount:
  assumes "found_reference d tx r ref" and "money_currency (tx_amount tx) = BRL"
  shows "validateReversalValue (tx_amount tx) ref = None \<longleftrightarrow> tr_amount r = money_amount (tx_amount tx)"
  using assms(2) found_reference_row(8) [OF assms(1)]
  by (auto simp: validateReversalValue_def Money_Compare_eq Let_def cents_def sgn_eq_0_iff signed_word_eqI [OF sym] split: if_splits)

lemma wp_find_reference:
  assumes "currency_inv (w_db w)"
    and err: "\<And>e w'. quiet w w' \<Longrightarrow> \<not> calm E \<Longrightarrow> Q (Inl e) w'"
    and none: "\<And>e w'. quiet w w' \<Longrightarrow> (calm E \<Longrightarrow> external_row (w_db w) (tx_provider tx) (tx_externalReference tx) = None) \<Longrightarrow>
      errors_is e (WagerErr Wager_ErrTransactionNotFound) \<Longrightarrow> Q (Inl e) w'"
    and ok: "\<And>r ref w'. quiet w w' \<Longrightarrow> found_reference (w_db w) tx r ref \<Longrightarrow> Q (Inr ref) w'"
  shows "wp (TxRepo_FindByProviderAndExternalID E (tx_provider tx) (tx_externalReference tx)) Q w"
proof (rule wp_FindByProviderAndExternalID, goal_cases)
  case (1 e w')
  have "calm E \<Longrightarrow> external_row (w_db w) (tx_provider tx) (tx_externalReference tx) = None \<and>
      e = wager_err Wager_ErrTransactionNotFound"
    using 1(2) assms(1) by (auto simp: lookup_err_def external_row_def currency_inv_def find_Some_iff)
  then show ?case using 1(1) err none by (cases "calm E") auto
next
  case (2 r ref w')
  then show ?case by (intro ok) (auto simp: found_reference_def external_row_def)
qed

lemma wp_processWin:
  assumes "env_ok E" and "db_inv sep (canonical E) (w_db w)" and "new_request sep (w_db w) tx" and "tx_transactionType tx = WIN"
    and rq: "rq_ProviderID req = tx_provider tx" "rq_ReferenceExternalID req = tx_externalReference tx"
    and Q: "\<And>x w'. lawful sep E tx (w_db w) x (w_db w') \<Longrightarrow> Q x w'"
  shows "wp (processWin E tx req (tx_amount tx) messageID) Q w"
proof -
  have BRL: "money_currency (tx_amount tx) = BRL" using assms(3) by (simp add: new_request_def)
  have v: "verdict_of (w_db w) tx = (if tx_externalReference tx = '''' then Book CREDIT '''' else
      case external_row (w_db w) (tx_provider tx) (tx_externalReference tx) of
        None \<Rightarrow> Refuse ''REFERENCE_NOT_FOUND'' | Some r \<Rightarrow> win_verdict tx r)"
    using assms(4) by (simp add: verdict_of_def Let_def)
  have quiet: "quiet w w' \<Longrightarrow> lawful sep E tx (w_db w') x (w_db w'') \<Longrightarrow> Q x w''" for x w' w''
    using Q by (simp add: quiet_def)
  show ?thesis
  proof (cases "tx_externalReference tx = ''''")
    case True
    then show ?thesis
      using v assms(4) Q rq by (auto simp: processWin_def intro!: wp_credit_win [OF assms(1-3)])
  next
    case False
    have inv: "currency_inv (w_db w)" using assms(2) by (simp add: db_inv_def)
    have "wp (TxRepo_FindByProviderAndExternalID E (tx_provider tx) (tx_externalReference tx)) (\<lambda>found. wp (case found of
           Inl err \<Rightarrow>
             if errors_is err (WagerErr Wager_ErrTransactionNotFound) then reject E tx ''REFERENCE_NOT_FOUND''
             else fail err
         | Inr ref \<Rightarrow>
             (case win_reference_code tx ref of
                Some code \<Rightarrow> reject E tx code
              | None \<Rightarrow> credit_win E tx (tx_amount tx) messageID)) Q) w"
    proof (rule wp_find_reference [OF inv], goal_cases)
      case (1 e w')
      then show ?case
        using assms(3) lawful_err [of "w_db w" "w_db w" sep E tx]
        by (auto simp: wp_ret quiet_def blamed_def intro!: Q wp_reject_lawful [OF assms(1)])
    next
      case (2 e w')
      then show ?case
        using False v assms(3) by (auto simp: quiet_def intro!: wp_reject_lawful [OF assms(1)] Q)
    next
      case (3 r ref w')
      have c: "win_verdict tx r = (case win_reference_code tx ref of Some code \<Rightarrow> Refuse code | None \<Rightarrow> Book CREDIT '''')"
        using found_reference_row [OF 3(2)] BRL by (auto simp: win_reference_code_def win_verdict_def mismatch_def)
      have "external_row (w_db w) (tx_provider tx) (tx_externalReference tx) = Some r"
        using 3(2) by (simp add: found_reference_def)
      then have v': "verdict_of (w_db w') tx = (case win_reference_code tx ref of Some code \<Rightarrow> Refuse code | None \<Rightarrow> Book CREDIT '''')"
        using v c False 3(1) by (simp add: quiet_def)
      show ?case
        unfolding sum.case
        using v' 3(1) assms(2-4)
        by (cases "win_reference_code tx ref")
          (auto simp: quiet_def intro!: wp_reject_lawful [OF assms(1)] wp_credit_win [OF assms(1)] Q)
    qed
    then show ?thesis using False rq by (simp add: processWin_def wp_bind)
  qed
qed

section \<open>Reversals\<close>

lemma wp_fail_reversal:
  assumes "env_ok E" and "tx_status tx = PENDING"
    and Q: "\<And>w'. maybe_rejected E tx (mapWalletErrorForReversal err) (w_db w) (w_db w') \<Longrightarrow> Q (Inl err) w'"
  shows "wp (fail_reversal E t tx err) Q w"
proof -
  have rest: "wp (do { _ \<leftarrow> createAndReject E tx' (mapWalletErrorForReversal err); fail err }) Q w'"
    if "w_db w' = w_db w" "tx_status tx' = PENDING" "rejected_as tx' = rejected_as tx" for w' tx'
    unfolding wp_bind
    by (rule wp_createAndReject' [where ?tx0.0 = tx, OF assms(1) that(2)]) (use that Q in \<open>auto simp: wp_ret\<close>)
  show ?thesis
    unfolding fail_reversal_def wp_bind [of "tx_Rollback t"] wp_Rollback wp_bind [of "set_failure _ _ _"]
  proof (rule wp_set_failure, goal_cases)
    case (1 n w1)
    then have w1: "w_db w1 = w_db w" by (simp add: quiet_def)
    show ?case
      unfolding wp_bind [of "if _ then _ else _"]
      by (rule wp_note_balance, rule rest) (use assms(2) w1 in \<open>auto simp: quiet_def\<close>)
  qed
qed

text \<open>\<open>reversible d tx r dir\<close>: the row \<open>r\<close> is the processed transaction that \<open>tx\<close> reverses by a movement in direction \<open>dir\<close>.\<close>

definition reversible :: "db \<Rightarrow> Transaction \<Rightarrow> tx_row \<Rightarrow> Direction \<Rightarrow> bool" where
  "reversible d tx r dir \<longleftrightarrow>
     r \<in> set (db_txs d) \<and> tr_provider r = Some (tx_provider tx) \<and> tr_status r = PROCESSED \<and>
     tr_wallet_id r = tx_walletID tx \<and> tr_amount r = money_amount (tx_amount tx) \<and>
     (tx_transactionType tx = REFUND \<or> tx_transactionType tx = ROLLBACK) \<and>
     reversal_direction (tx_transactionType tx) (tr_transaction_type r) = Some dir"

lemma reversal_direction_cases: "reversal_direction k k' = Some dir \<Longrightarrow> dir = DEBIT \<or> dir = CREDIT"
  by (auto simp: reversal_direction_def split: TransactionType.splits)

lemma movement_reversal:
  assumes "env_ok E" and "ids_inv (canonical E) d" and "new_request sep d tx" and "reversible d tx ref dir"
    and "moved_db E tx' dir amount d wr b r d'" and "same_request tx tx'" and "tx_internalReference tx' = tr_id ref"
  shows "movement (db_txs d) r dir"
proof -
  obtain tx2 where tx2: "row_for E tx2 r" "processed_as (SetResultBalance b tx') tx2"
    using assms(5) by (auto simp: moved_db_def ledgered_def)
  have sr: "same_request tx tx2" "tx_internalReference tx2 = tr_id ref"
    using tx2(2) assms(6,7) by (auto simp: processed_as_def same_request_def SetResultBalance_def)
  note f = row_for_fields [OF tx2(1)]
  have ref: "ref \<in> set (db_txs d)" using assms(4) by (simp add: reversible_def)
  then have "tr_wallet_id ref \<in> set (map wr_id (db_wallets d))" "canonical E (tr_id ref)"
    using assms(2) by (auto simp: ids_inv_def)
  then have c: "canonical E (tr_wallet_id ref)" "canonical E (tr_id ref)" using assms(2) by (auto simp: ids_inv_def)
  then have "tr_id ref \<noteq> ''''" using env_ok_uuid [OF assms(1)] by blast
  moreover have "tr_wallet_id r = tr_wallet_id ref"
    using c f(9) sr(1) assms(4) by (simp add: same_request_def reversible_def)
  ultimately have "reverses r ref dir"
    using f sr assms(3,4) by (simp add: reverses_def same_request_def reversible_def nullString_def new_request_def)
  then show ?thesis
    using ref f(5) sr(1) assms(4) by (auto simp: movement_def same_request_def reversible_def)
qed

lemma wp_apply_reversal_cases:
  assumes "env_ok E" and "db_inv sep (canonical E) (w_db w)" and "new_request sep (w_db w) tx" and "w_txs w t = OpenTx (w_db w) s"
    and rv: "reversible (w_db w) tx r dir" and id: "tx_id ref = tr_id r"
    and refuse: "\<And>err w'. maybe_rejected E tx (mapWalletErrorForReversal err) (w_db w) (w_db w') \<Longrightarrow>
      blamed E (change_refused E (w_db w) (tx_walletID tx) (tx_amount tx) dir err) \<Longrightarrow> Q (Inl err) w'"
    and late: "\<And>tx0 e w'. same_request tx tx0 \<Longrightarrow> tx_internalReference tx0 = tr_id r \<Longrightarrow>
      w_db w' = w_db w \<or> served sep E (tx_provider tx) (tx_walletID tx) (tx_idempotencyKey tx) (w_db w) (w_db w') \<Longrightarrow>
      blamed E (\<not> move_ready E tx0 dir (tx_amount tx) (w_db w)) \<Longrightarrow> Q (Inl e) w'"
    and moved: "\<And>tx0 wr b r' w'. same_request tx tx0 \<Longrightarrow> tx_internalReference tx0 = tr_id r \<Longrightarrow>
      served sep E (tx_provider tx) (tx_walletID tx) (tx_idempotencyKey tx) (w_db w) (w_db w') \<Longrightarrow>
      moved_db E tx0 dir (tx_amount tx) (w_db w) wr b r' (w_db w') \<Longrightarrow> Q (Inr (processed_result r' b)) w'"
  shows "wp (apply_reversal E t tx ref dir (tx_amount tx) messageID) Q w"
proof -
  have inv: "keys_inv (w_db w)" "ids_inv (canonical E) (w_db w)" using assms(2) by (simp_all add: db_inv_def)
  have dir: "dir = DEBIT \<or> dir = CREDIT" and st: "tx_status tx = PENDING"
    using rv reversal_direction_cases assms(3) by (auto simp: reversible_def new_request_def)
  have eq: "(if dir = DEBIT then WalletService_Debit E (Some t) i a else WalletService_Credit E (Some t) i a) =
      applyBalanceChange E (Some t) i a dir" for i a
    using dir by (auto simp: WalletService_Debit_def WalletService_Credit_def)
  show ?thesis
    unfolding apply_reversal_def eq wp_bind
  proof (rule wp_WalletService_change [OF assms(1) inv(1) assms(4) dir], goal_cases)
    case (1 err w')
    show ?case
      unfolding sum.case by (rule wp_fail_reversal [OF assms(1) st], rule refuse) (use 1 in auto)
  next
    case (2 wr b d1 w1)
    show ?case
      unfolding sum.case prod.case wp_bind
    proof (rule wp_set_reference_id, goal_cases)
      case (1 n w2)
      define tx0 where "tx0 = SetInternalReference n (tx_id ref) tx"
      have tx0: "same_request tx tx0" "tx_status (SetResultBalance b tx0) = PENDING" "tx_internalReference tx0 = tr_id r"
          "tx_walletID tx0 = tx_walletID tx"
        using st id by (simp_all add: tx0_def SetInternalReference_def) (simp add: same_request_def)
      have w2: "w_txs w2 t = OpenTx d1 s" "w_db w2 = w_db w" using 1 2 by (simp_all add: quiet_def)
      have ch: "changed E (w_db w) (tx_walletID tx0) (tx_amount tx) dir s wr b d1" using 2(3) tx0(4) by simp
      have step: "served sep E (tx_provider tx) (tx_walletID tx) (tx_idempotencyKey tx) (w_db w) (w_db w')"
        if "moved_db E tx0 dir (tx_amount tx) (w_db w) wr b r' (w_db w')" for r' w'
        using moved_step [OF assms(1,3) that tx0(1)] movement_reversal [OF assms(1) inv(2) assms(3) rv that tx0(1,3)] .
      show ?case
        unfolding tx0_def [symmetric] wp_bind_err
      proof (rule wp_commit_move [OF assms(1) tx0(2) w2(1) ch refl], goal_cases)
        case (1 e w')
        with w2 step show ?case by (auto intro!: late [OF tx0(1,3)])
      next
        case (2 r' tx' w')
        show ?case
          unfolding sum.case wp_ret service_result_processed [OF 2(2)]
          by (rule moved [OF tx0(1,3) step [OF 2(1)] 2(1)])
      qed
    qed
  qed
qed

lemma wp_apply_reversal:
  assumes "env_ok E" and "db_inv sep (canonical E) (w_db w)" and "new_request sep (w_db w) tx" and "w_txs w t = OpenTx (w_db w) s"
    and rv: "reversible (w_db w) tx r dir" and id: "tx_id ref = tr_id r"
    and v: "calm E \<Longrightarrow> verdict_of (w_db w) tx = Book dir (tr_id r)"
    and free: "calm E \<Longrightarrow> \<forall>x \<in> set (db_txs (w_db w)). reversal_of x \<noteq> Some (tr_id r)"
    and Q: "\<And>x w'. lawful sep E tx (w_db w) x (w_db w') \<Longrightarrow> Q x w'"
  shows "wp (apply_reversal E t tx ref dir (tx_amount tx) messageID) Q w"
proof -
  have inv: "booking_inv (w_db w)" "ids_inv (canonical E) (w_db w)" using assms(2) by (simp_all add: db_inv_def)
  have dir: "dir = DEBIT \<or> dir = CREDIT" "tx_transactionType tx \<noteq> LOSS"
    using rv reversal_direction_cases by (auto simp: reversible_def)
  have "canonical E (tr_id r)" using rv inv(2) by (simp add: reversible_def ids_inv_def)
  then have ne: "tr_id r \<noteq> ''''" using env_ok_uuid [OF assms(1)] by blast
  show ?thesis
  proof (rule wp_apply_reversal_cases [OF assms(1-6)], goal_cases)
    case (1 err w')
    show ?case
      by (intro Q lawful_refused [OF assms(1,3) 1(1)])
        (use 1(2) change_refused_known [OF _ _ assms(3) dir(2,1)] v ne in \<open>auto simp: blamed_def\<close>)
  next
    case (2 tx0 e w')
    have "blamed E (\<forall>wr. \<not> known E (w_db w) tx wr)"
      using 2(4) move_ready_known [OF assms(1) inv(1) assms(3) _ 2(1) dir(1)] free 2(2) ne
      by (auto simp: blamed_def nullString_def)
    with 2(3) show ?case by (intro Q lawful_err)
  next
    case (3 tx0 wr b r' w')
    then show ?case by (intro Q lawful_moved [OF 3(3,4,1)]) (use v dir in auto)
  qed
qed

text \<open>The reference passed every check that comes before the type of a rollback's reference.\<close>

definition admitted :: "env \<Rightarrow> db \<Rightarrow> Transaction \<Rightarrow> tx_row \<Rightarrow> bool" where
  "admitted E d tx r \<longleftrightarrow>
     tr_status r = PROCESSED \<and> tr_wallet_id r = tx_walletID tx \<and> tr_amount r = money_amount (tx_amount tx) \<and>
     (calm E \<longrightarrow> (\<forall>x \<in> set (db_txs d). reversal_of x \<noteq> Some (tr_id r)) \<and>
        verdict_of d tx = (case reversal_direction (tx_transactionType tx) (tr_transaction_type r) of
          None \<Rightarrow> Refuse ''INVALID_REFERENCE_TYPE'' | Some dir \<Rightarrow> Book dir (tr_id r)))"

lemma wp_check_reference:
  assumes "env_ok E" and "db_inv sep (canonical E) (w_db w)" and "new_request sep (w_db w) tx"
    and v: "verdict_of (w_db w) tx = reversal_verdict (w_db w) tx r" and ne: "tx_externalReference tx \<noteq> ''''"
    and f: "found_reference (w_db w) tx r ref"
    and k: "\<And>w'. w_db w' = w_db w \<Longrightarrow> admitted E (w_db w) tx r \<Longrightarrow> wp (k ref) Q w'"
    and Q: "\<And>x w'. lawful sep E tx (w_db w) x (w_db w') \<Longrightarrow> Q x w'"
  shows "wp (case validateReference tx ref of
                Some e \<Rightarrow> reject E tx (mapValidationError e)
              | None \<Rightarrow>
                  if tx_status ref \<noteq> PROCESSED then
                    (if tx_status ref = PENDING \<or> tx_status ref = PENDING_REFERENCE then park_pending E tx
                     else reject E tx ''REFERENCE_NOT_SUCCESSFUL'')
                  else do {
                    hasReversal \<leftarrow> has_reversal E (tx_id ref);
                    (if hasReversal then reject E tx ''DOUBLE_REVERSAL''
                     else case validateReversalValue (tx_amount tx) ref of
                            Some _ \<Rightarrow> reject E tx ''REVERSAL_VALUE_MISMATCH''
                          | None \<Rightarrow> k ref)
                  }) Q w"
proof (cases "validateReference tx ref")
  case (Some e)
  have "mismatch r tx = Some (mapValidationError e)"
    using validateReference_mismatch [OF f] Some assms(3) by (simp add: new_request_def)
  then show ?thesis
    using Some v assms(3) Q by (auto simp: reversal_verdict_def intro!: wp_reject_lawful [OF assms(1)])
next
  case None
  have BRL: "money_currency (tx_amount tx) = BRL" using assms(3) by (simp add: new_request_def)
  have m: "mismatch r tx = None" using validateReference_mismatch [OF f BRL] None by simp
  have wid: "tr_wallet_id r = tx_walletID tx" by (rule validateReference_None [OF f None])
  have ids: "ids_inv (canonical E) (w_db w)" using assms(2) by (simp add: db_inv_def)
  note fr = found_reference_row [OF f]
  have checked: "wp (has_reversal E (tx_id ref)) (\<lambda>hasReversal. wp (if hasReversal then reject E tx ''DOUBLE_REVERSAL''
       else case validateReversalValue (tx_amount tx) ref of
              Some _ \<Rightarrow> reject E tx ''REVERSAL_VALUE_MISMATCH'' | None \<Rightarrow> k ref) Q) w" if st: "tr_status r = PROCESSED"
  proof (rule wp_has_reversal, goal_cases)
    case (1 b w')
    have w': "w_db w' = w_db w" using 1(1) by (simp add: quiet_def)
    have am: "validateReversalValue (tx_amount tx) ref = None \<longleftrightarrow> tr_amount r = money_amount (tx_amount tx)"
      by (rule validateReversalValue_amount [OF f BRL])
    have v': "calm E \<Longrightarrow> verdict_of (w_db w) tx = (if b then Refuse ''DOUBLE_REVERSAL''
        else if validateReversalValue (tx_amount tx) ref \<noteq> None then Refuse ''REVERSAL_VALUE_MISMATCH''
        else case reversal_direction (tx_transactionType tx) (tr_transaction_type r) of
          None \<Rightarrow> Refuse ''INVALID_REFERENCE_TYPE'' | Some dir \<Rightarrow> Book dir (tr_id r))"
      using v m st 1(2) fr(4) am by (simp add: reversal_verdict_def)
    have adm: "admitted E (w_db w) tx r" if "\<not> b" "validateReversalValue (tx_amount tx) ref = None"
      using that v' st wid am 1(2) fr(4) by (auto simp: admitted_def list_ex_iff)
    show ?case
    proof (cases b)
      case True
      then show ?thesis using v' w' assms(3) Q by (auto intro!: wp_reject_lawful [OF assms(1)])
    next
      case False
      then show ?thesis
        using v' w' assms(3) Q adm k
        by (cases "validateReversalValue (tx_amount tx) ref") (auto intro!: wp_reject_lawful [OF assms(1)])
    qed
  qed
  consider "tr_status r = PROCESSED" | "tr_status r = PENDING \<or> tr_status r = PENDING_REFERENCE"
    | "tr_status r \<noteq> PROCESSED \<and> tr_status r \<noteq> PENDING \<and> tr_status r \<noteq> PENDING_REFERENCE" by blast
  then show ?thesis
  proof cases
    case 1
    then show ?thesis using None fr(10) checked by (simp add: wp_bind)
  next
    case 2
    then have "verdict_of (w_db w) tx = Wait" using v m by (auto simp: reversal_verdict_def)
    then have "wp (park_pending E tx) Q w"
      by (intro wp_park_lawful [OF assms(1,3) _ ids _ ne wid 2] Q) (use f in \<open>simp_all add: found_reference_def\<close>)
    then show ?thesis using None fr(10) 2 by auto
  next
    case 3
    then have "verdict_of (w_db w) tx = Refuse ''REFERENCE_NOT_SUCCESSFUL''" using v m by (simp add: reversal_verdict_def)
    then have "wp (reject E tx ''REFERENCE_NOT_SUCCESSFUL'') Q w"
      by (intro wp_reject_lawful [OF assms(1,3)] Q)
    then show ?thesis using None fr(10) 3 by simp
  qed
qed

lemma wp_with_reference:
  assumes "env_ok E" and "db_inv sep (canonical E) (w_db w)" and "new_request sep (w_db w) tx"
    and kind: "tx_transactionType tx = REFUND \<or> tx_transactionType tx = ROLLBACK"
    and rq: "rq_ProviderID req = tx_provider tx" "rq_ReferenceExternalID req = tx_externalReference tx"
    and k: "\<And>r ref w'. w_db w' = w_db w \<Longrightarrow> found_reference (w_db w) tx r ref \<Longrightarrow> admitted E (w_db w) tx r \<Longrightarrow> wp (k ref) Q w'"
    and Q: "\<And>x w'. lawful sep E tx (w_db w) x (w_db w') \<Longrightarrow> Q x w'"
  shows "wp (with_reference E tx req (tx_amount tx) k) Q w"
proof -
  have v: "verdict_of (w_db w) tx = (if tx_externalReference tx = '''' then Refuse ''MISSING_REFERENCE'' else
      case external_row (w_db w) (tx_provider tx) (tx_externalReference tx) of
        None \<Rightarrow> Refuse ''REFERENCE_NOT_FOUND'' | Some r \<Rightarrow> reversal_verdict (w_db w) tx r)"
    using kind by (auto simp: verdict_of_def Let_def)
  have inv: "currency_inv (w_db w)" using assms(2) by (simp add: db_inv_def)
  show ?thesis
  proof (cases "tx_externalReference tx = ''''")
    case True
    then show ?thesis
      using v Q rq by (auto simp: with_reference_def intro!: wp_reject_lawful [OF assms(1,3)])
  next
    case False
    then show ?thesis
      unfolding with_reference_def rq wp_if wp_bind [of "TxRepo_FindByProviderAndExternalID _ _ _"] if_not_P [OF False]
    proof (intro wp_find_reference [OF inv], goal_cases)
      case (1 e w')
      then show ?case
        using assms(3) lawful_err [of "w_db w" "w_db w" sep E tx]
        by (auto simp: wp_ret quiet_def blamed_def intro!: Q wp_reject_lawful [OF assms(1)])
    next
      case (2 e w')
      then show ?case
        using False v assms(3) by (auto simp: quiet_def intro!: wp_reject_lawful [OF assms(1)] Q)
    next
      case (3 r ref w')
      have w': "w_db w' = w_db w" using 3 by (simp add: quiet_def)
      have "verdict_of (w_db w') tx = reversal_verdict (w_db w') tx r"
        using v False 3 w' by (simp add: found_reference_def)
      then show ?case
        unfolding sum.case
        using assms(2,3) 3 w' by (intro wp_check_reference [OF assms(1)]) (auto intro: k Q)
    qed
  qed
qed

lemma wp_reverse:
  assumes "env_ok E" and "db_inv sep (canonical E) (w_db w)" and "new_request sep (w_db w) tx"
    and kind: "tx_transactionType tx = REFUND \<or> tx_transactionType tx = ROLLBACK"
    and f: "found_reference (w_db w) tx r ref" and adm: "admitted E (w_db w) tx r"
    and g: "\<And>t dir. reversal_direction (tx_transactionType tx) (tr_transaction_type r) = Some dir \<Longrightarrow>
      g t = apply_reversal E t tx ref dir (tx_amount tx) messageID"
      "\<And>t. reversal_direction (tx_transactionType tx) (tr_transaction_type r) = None \<Longrightarrow> g t = reject E tx ''INVALID_REFERENCE_TYPE''"
    and Q: "\<And>x w'. lawful sep E tx (w_db w) x (w_db w') \<Longrightarrow> Q x w'"
  shows "wp (bind_err (TxManager_Begin E) h (\<lambda>t. defer_Rollback t (g t))) Q w"
  unfolding wp_bind_err
proof (rule wp_Begin, goal_cases)
  case (1 e w')
  then show ?case by (auto simp: quiet_def blamed_def intro!: Q lawful_err)
next
  case (2 t w' s)
  note fr = found_reference_row [OF f]
  show ?case
  proof (cases "reversal_direction (tx_transactionType tx) (tr_transaction_type r)")
    case None
    then show ?thesis
      using 2 assms(3) adm by (auto simp: g wp_defer_Rollback admitted_def intro!: wp_reject_lawful [OF assms(1)] Q)
  next
    case (Some dir)
    have "reversible (w_db w) tx r dir" using fr adm kind Some by (simp add: reversible_def admitted_def)
    then show ?thesis
      unfolding sum.case wp_defer_Rollback g(1) [OF Some]
      using 2 assms(2,3) adm Some fr(4)
      by (intro wp_apply_reversal [OF assms(1), where r = r and s = s]) (auto simp: admitted_def intro!: Q)
  qed
qed

lemma wp_processRefund:
  assumes "env_ok E" and "db_inv sep (canonical E) (w_db w)" and "new_request sep (w_db w) tx" and "tx_transactionType tx = REFUND"
    and "rq_ProviderID req = tx_provider tx" "rq_ReferenceExternalID req = tx_externalReference tx"
    and "\<And>x w'. lawful sep E tx (w_db w) x (w_db w') \<Longrightarrow> Q x w'"
  shows "wp (processRefund E tx req (tx_amount tx) messageID) Q w"
  unfolding processRefund_def
proof (rule wp_with_reference [OF assms(1-3) _ assms(5,6)], goal_cases)
  case (2 r ref w')
  then show ?case
    using assms(2-4,7) by (intro wp_reverse [OF assms(1), where r = r and ref = ref]) (auto simp: reversal_direction_def)
qed (use assms in auto)

lemma wp_processRollback:
  assumes "env_ok E" and "db_inv sep (canonical E) (w_db w)" and "new_request sep (w_db w) tx" and "tx_transactionType tx = ROLLBACK"
    and "rq_ProviderID req = tx_provider tx" "rq_ReferenceExternalID req = tx_externalReference tx"
    and "\<And>x w'. lawful sep E tx (w_db w) x (w_db w') \<Longrightarrow> Q x w'"
  shows "wp (processRollback E tx req (tx_amount tx) messageID) Q w"
  unfolding processRollback_def
proof (rule wp_with_reference [OF assms(1-3) _ assms(5,6)], goal_cases)
  case (2 r ref w')
  then show ?case
    using assms(2-4,7) found_reference_row(11) [OF 2(2)]
    by (intro wp_reverse [OF assms(1), where r = r and ref = ref])
      (auto simp: reversal_direction_def split: TransactionType.splits)
qed (use assms in auto)

section \<open>ProcessTransaction\<close>

text \<open>The transaction that \<^verbatim>\<open>ProcessTransaction\<close> makes of a new request.\<close>

definition build_transaction :: "env \<Rightarrow> time \<Rightarrow> Request \<Rightarrow> string \<Rightarrow> gerr + Transaction" where
  "build_transaction E now req key =
     (if \<not> TransactionType_Valid (TransactionType_of (rq_Kind req)) then Inl (wager_err Wager_ErrInvalidTransactionType)
      else case ParseMoney (dto_Amount (rq_Money req)) (dto_Currency (rq_Money req)) of
        Inl err \<Rightarrow> Inl (ErrorfV (wager_err Wager_ErrInvalidMoney) (money_err err))
      | Inr parsed \<Rightarrow> NewExternalTransaction now '''' (rq_ProviderID req) (rq_ExternalTransactionID req) key
          (request_hash E req) (rq_WalletID req) (rq_PlayerID req) (rq_RoundID req) (rq_GameID req)
          (TransactionType_of (rq_Kind req)) parsed (rq_ReferenceExternalID req))"

definition key_row :: "db \<Rightarrow> string \<Rightarrow> string \<Rightarrow> tx_row option" where
  "key_row d p k = find (\<lambda>r. tr_provider r = Some p \<and> tr_idempotency_key r = Some k) (db_txs d)"

text \<open>\<open>replayed E d r x\<close>: \<open>x\<close> repeats the answer about the transaction \<open>r\<close>.\<close>

definition replayed :: "env \<Rightarrow> db \<Rightarrow> tx_row \<Rightarrow> gerr + ProcessResult \<Rightarrow> bool" where
  "replayed E d r x \<longleftrightarrow>
     (\<exists>b. x = Inr \<lparr>pr_TransactionID = tr_id r, pr_Status = TransactionStatus_string (tr_status r), pr_Balance = b,
          pr_IdempotentReplay = True\<rparr> \<and>
        (case tr_result_balance r of
           Some a \<Rightarrow> b = \<lparr>money_amount = a, money_currency = BRL\<rparr>
         | None \<Rightarrow> \<exists>wr. wallet_at E d (tr_wallet_id r) wr \<and> b = \<lparr>money_amount = wr_balance wr, money_currency = BRL\<rparr>)) \<or>
     tr_result_balance r = None \<and> (\<forall>wr. \<not> wallet_at E d (tr_wallet_id r) wr) \<and> isl x"

text \<open>\<open>answered\<close>: what a request gets when nothing fails.\<close>

definition answered :: "env \<Rightarrow> Request \<Rightarrow> string \<Rightarrow> db \<Rightarrow> gerr + ProcessResult \<Rightarrow> db \<Rightarrow> bool" where
  "answered E req key d x d' \<longleftrightarrow>
     (case key_row d (rq_ProviderID req) key of
        Some r \<Rightarrow> d' = d \<and>
          (if coalesce (tr_payload_hash r) \<noteq> '''' \<and> coalesce (tr_payload_hash r) \<noteq> request_hash E req
           then x = Inl (wager_err Wager_ErrPayloadConflict) else replayed E d r x)
      | None \<Rightarrow>
          if external_row d (rq_ProviderID req) (rq_ExternalTransactionID req) \<noteq> None
          then d' = d \<and> x = Inl (wager_err Wager_ErrExternalIDReuse)
          else \<exists>now. case build_transaction E now req key of
                 Inl err \<Rightarrow> d' = d \<and> x = Inl err
               | Inr tx \<Rightarrow> \<forall>wr. known E d tx wr \<longrightarrow> carried_out E d tx wr x d')"

lemma build_transaction_fields:
  assumes "build_transaction E now req key = Inr tx"
  shows "new_request False d tx" "tx_provider tx = rq_ProviderID req" "tx_externalReference tx = rq_ReferenceExternalID req"
    "tx_transactionType tx = TransactionType_of (rq_Kind req)"
    "ParseMoney (dto_Amount (rq_Money req)) (dto_Currency (rq_Money req)) = Inr (tx_amount tx)"
    "tx_payloadHash tx = request_hash E req" "tx_walletID tx = rq_WalletID req" "tx_idempotencyKey tx = key"
    "tx_externalID tx = rq_ExternalTransactionID req" "tx_playerID tx = rq_PlayerID req"
proof -
  obtain m where m: "ParseMoney (dto_Amount (rq_Money req)) (dto_Currency (rq_Money req)) = Inr m"
      and n: "NewExternalTransaction now '''' (rq_ProviderID req) (rq_ExternalTransactionID req) key
          (request_hash E req) (rq_WalletID req) (rq_PlayerID req) (rq_RoundID req) (rq_GameID req)
          (TransactionType_of (rq_Kind req)) m (rq_ReferenceExternalID req) = Inr tx"
    using assms by (auto simp: build_transaction_def split: if_splits sum.splits)
  have BRL: "money_currency m = BRL" "0 \<le> cents m"
    using ParseMoney_Inr [OF m] by auto
  show "new_request False d tx" "tx_provider tx = rq_ProviderID req" "tx_externalReference tx = rq_ReferenceExternalID req"
    "tx_transactionType tx = TransactionType_of (rq_Kind req)"
    "ParseMoney (dto_Amount (rq_Money req)) (dto_Currency (rq_Money req)) = Inr (tx_amount tx)"
    "tx_payloadHash tx = request_hash E req" "tx_walletID tx = rq_WalletID req" "tx_idempotencyKey tx = key"
    "tx_externalID tx = rq_ExternalTransactionID req" "tx_playerID tx = rq_PlayerID req"
    using n m BRL by (auto simp: NewExternalTransaction_def new_request_def IsNegative_cents IsZero_cents split: if_splits)
qed

lemma build_transaction_new:
  assumes "build_transaction E now req key = Inr tx" and "key_row d (rq_ProviderID req) key = None"
    and "external_row d (rq_ProviderID req) (rq_ExternalTransactionID req) = None"
  shows "new_request sep d tx" and "new_key d tx"
proof -
  note f = build_transaction_fields [OF assms(1)]
  show "new_key d tx" using assms(2) f(2,8) by (auto simp: new_key_def key_row_def find_None_iff)
  show "new_request sep d tx"
    using f(1) [of d] assms(3) f(2,9) by (auto simp: new_request_def external_row_def find_None_iff)
qed

lemma key_lookup_calm:
  assumes "currency_inv d" and "lookup_err E d (\<lambda>r. tr_provider r = Some p \<and> tr_idempotency_key r = Some k) e" and "calm E"
  shows "key_row d p k = None" and "e = wager_err Wager_ErrTransactionNotFound"
  using assms by (auto simp: lookup_err_def key_row_def currency_inv_def find_Some_iff)

lemma wp_handleReplay:
  assumes "tx_of_row r = Inr ex"
    and Q: "\<And>x w'. quiet w w' \<Longrightarrow> (calm E \<Longrightarrow> replayed E (w_db w) r x) \<Longrightarrow> Q x w'"
  shows "wp (handleReplay E ex) Q w"
proof -
  have ex: "tx_id ex = tr_id r" "tx_status ex = tr_status r" "tx_walletID ex = tr_wallet_id r"
      "tx_resultBalance ex = map_option (\<lambda>b. \<lparr>money_amount = b, money_currency = BRL\<rparr>) (tr_result_balance r)"
    using tx_of_row_Inr [OF assms(1)] by (simp_all add: RehydrateTransaction_def)
  show ?thesis
  proof (cases "tr_result_balance r")
    case None
    then show ?thesis
      unfolding handleReplay_def wp_bind_err
      using ex by (auto simp: wp_ret replayed_def blamed_def intro!: wp_getWalletBalance Q) blast
  next
    case (Some a)
    then show ?thesis
      unfolding handleReplay_def wp_bind_err using ex by (auto simp: wp_ret replayed_def intro!: Q)
  qed
qed

lemma wp_dispatch:
  assumes "env_ok E" and "db_inv sep (canonical E) (w_db w)" and "new_request sep (w_db w) tx"
    and "tx_provider tx = rq_ProviderID req" "tx_externalReference tx = rq_ReferenceExternalID req"
    and "tx_transactionType tx = TransactionType_of (rq_Kind req)"
    and "\<And>x w'. lawful sep E tx (w_db w) x (w_db w') \<Longrightarrow> Q x w'"
  shows "wp (dispatch E tx req (tx_amount tx) messageID) Q w"
proof -
  have "TransactionType_Valid (tx_transactionType tx)" using assms(3) by (simp add: new_request_def)
  then show ?thesis
    unfolding dispatch_def assms(6) [symmetric]
    using assms(4,5,7)
    by (cases "tx_transactionType tx")
      (auto intro!: wp_processBet [OF assms(1-3)] wp_processWin [OF assms(1-3)] wp_processLoss [OF assms(1,3)]
        wp_processRefund [OF assms(1-3)] wp_processRollback [OF assms(1-3)])
qed

text \<open>No refusal of a wallet is taken for a duplicate.\<close>

lemma wallet_refusal_not_duplicate:
  "wallet_refusal wr dir a = Some err \<Longrightarrow> \<not> errors_is err (WagerErr Wager_ErrIdempotentDuplicate) \<and>
     \<not> errors_is (wallet_failure err) (WagerErr Wager_ErrIdempotentDuplicate)"
  by (auto simp: wallet_refusal_def wallet_failure_def split: if_splits)

lemma carried_out_not_duplicate:
  "carried_out E d tx wr (Inl err) d' \<Longrightarrow> \<not> errors_is err (WagerErr Wager_ErrIdempotentDuplicate)"
  by (auto simp: carried_out_def rejection_def dest!: wallet_refusal_not_duplicate
      split: verdict.splits option.splits if_splits)

lemma wp_process_built:
  assumes "env_ok E" and inv: "db_inv sep (canonical E) (w_db w)" and key: "key_row (w_db w) (rq_ProviderID req) key = None"
    and ext: "external_row (w_db w) (rq_ProviderID req) (rq_ExternalTransactionID req) = None"
    and b: "build_transaction E now req key = Inr tx"
    and Q: "\<And>x w'. w_db w' = w_db w \<or> served sep E (rq_ProviderID req) (rq_WalletID req) key (w_db w) (w_db w') \<Longrightarrow>
      (calm E \<Longrightarrow> answered E req key (w_db w) x (w_db w')) \<Longrightarrow> Q x w'"
  shows "wp (process_built E req (tx_amount tx) key messageID tx) Q w"
proof -
  note n = build_transaction_fields [OF b] and new = build_transaction_new [OF b key ext]
  have fin: "Q x w2" if l: "lawful sep E tx (w_db w) x0 (w_db w2)"
      and x: "x = x0 \<or> (\<exists>err. x0 = Inl err \<and> errors_is err (WagerErr Wager_ErrIdempotentDuplicate))" for x x0 w2
  proof (rule Q)
    show "w_db w2 = w_db w \<or> served sep E (rq_ProviderID req) (rq_WalletID req) key (w_db w) (w_db w2)" using l n(2,7,8) by (simp add: lawful_def)
    have "carried_out E (w_db w) tx wr x (w_db w2)" if "calm E" "known E (w_db w) tx wr" for wr
      using that l x carried_out_not_duplicate by (fastforce simp: lawful_def)
    then show "calm E \<Longrightarrow> answered E req key (w_db w) x (w_db w2)"
      using key ext b unfolding answered_def by (auto intro!: exI [of _ now])
  qed
  show ?thesis
    unfolding process_built_def wp_bind [of "dispatch _ _ _ _ _"]
  proof (rule wp_dispatch [OF assms(1) inv new(1) n(2-4)], goal_cases)
    case (1 x w2)
    show ?case
    proof (cases x)
      case (Inr r)
      then show ?thesis using fin [OF 1] by (simp add: wp_ret)
    next
      case (Inl err)
      then show ?thesis
        using 1 fin by (auto simp: wp_ret wp_bind quiet_def intro!: wp_FindByIdempotencyKey wp_handleReplay fin [where x0 = x])
    qed
  qed
qed

lemma wp_process_new:
  assumes "env_ok E" and inv: "db_inv sep (canonical E) (w_db w)" and key: "key_row (w_db w) (rq_ProviderID req) key = None"
    and ne: "key \<noteq> ''''"
    and Q: "\<And>x w'. w_db w' = w_db w \<or> served sep E (rq_ProviderID req) (rq_WalletID req) key (w_db w) (w_db w') \<Longrightarrow>
      (calm E \<Longrightarrow> answered E req key (w_db w) x (w_db w')) \<Longrightarrow> Q x w'"
  shows "wp (process_new E req key messageID) Q w"
proof -
  let ?ext = "external_row (w_db w) (rq_ProviderID req) (rq_ExternalTransactionID req)"
  let ?m = "ParseMoney (dto_Amount (rq_Money req)) (dto_Currency (rq_Money req))"
  let ?valid = "TransactionType_Valid (TransactionType_of (rq_Kind req))"
  have reuse: "list_ex (\<lambda>r. tr_provider r = Some (rq_ProviderID req) \<and> tr_external_id r = Some (rq_ExternalTransactionID req) \<and>
       tr_idempotency_key r \<noteq> nullString key) (db_txs (w_db w)) \<longleftrightarrow> ?ext \<noteq> None"
    using key ne by (auto simp: list_ex_iff external_row_def key_row_def find_None_iff nullString_def)
  have refuse: "Q (Inl e) w'" if "w_db w' = w_db w" "?ext = None" "build_transaction E now req key = Inl e" for e w' now
    using that key by (intro Q) (auto simp: answered_def intro!: exI [of _ now])
  have eq: "process_new E req key messageID =
     bind_err (TxRepo_ExternalTransactionExists E (rq_ProviderID req) (rq_ExternalTransactionID req) key)
       (Errorf ''check external id'') (\<lambda>extExists.
     if extExists then fail (wager_err Wager_ErrExternalIDReuse)
     else if \<not> ?valid \<or> isl ?m then fail (projl (build_transaction E 0 req key))
     else do { now \<leftarrow> time_Now E; (case build_transaction E now req key of
        Inl err \<Rightarrow> fail err | Inr tx \<Rightarrow> process_built E req (projr ?m) key messageID tx) })"
    unfolding process_new_def by (cases ?m) (auto simp: build_transaction_def fun_eq_iff cong: sum.case_cong intro!: arg_cong2 [where f = "bind_err _"])
  show ?thesis
    unfolding eq wp_bind_err
  proof (rule wp_ExternalTransactionExists, goal_cases)
    case (1 e w')
    then show ?case by (auto simp: quiet_def intro!: Q)
  next
    case (2 w')
    then have w': "w_db w' = w_db w" by (simp add: quiet_def)
    have bad: "\<not> ?valid \<or> isl ?m \<Longrightarrow> build_transaction E 0 req key = Inl (projl (build_transaction E 0 req key))"
      by (cases ?m) (auto simp: build_transaction_def)
    have good: "wp (time_Now E) (\<lambda>now. wp (case build_transaction E now req key of
        Inl err \<Rightarrow> fail err | Inr tx \<Rightarrow> process_built E req (projr ?m) key messageID tx) Q) w'" if none: "?ext = None"
    proof (rule wp_time_Now, goal_cases)
      case (1 now w2)
      then have w2: "w_db w2 = w_db w" using w' by (simp add: quiet_def)
      show ?case
      proof (cases "build_transaction E now req key")
        case (Inl e)
        then show ?thesis using w2 none by (auto simp: wp_ret intro!: refuse)
      next
        case (Inr tx)
        then have m: "projr ?m = tx_amount tx" using build_transaction_fields(5) [OF Inr] by simp
        show ?thesis
          unfolding Inr sum.case m
          by (rule wp_process_built [OF assms(1) _ _ _ Inr]) (use inv key none w2 Q in auto)
      qed
    qed
    show ?case
      unfolding sum.case reuse
      using key w' bad good refuse by (cases ?ext) (auto simp: wp_ret wp_bind answered_def intro!: Q)
  qed
qed

lemma effective_key_nonempty: "effective_key key req \<noteq> ''''"
  by (simp add: effective_key_def)

lemma wp_known_key:
  assumes "key_row (w_db w) (rq_ProviderID req) key = Some r" and "tx_of_row r = Inr ex"
    and Q: "\<And>x w'. w_db w' = w_db w \<Longrightarrow> (calm E \<Longrightarrow> answered E req key (w_db w) x (w_db w')) \<Longrightarrow> Q x w'"
  shows "wp (if tx_payloadHash ex \<noteq> '''' \<and> tx_payloadHash ex \<noteq> request_hash E req
    then fail (wager_err Wager_ErrPayloadConflict) else handleReplay E ex) Q w"
proof -
  have h: "tx_payloadHash ex = coalesce (tr_payload_hash r)"
    using tx_of_row_Inr [OF assms(2)] by (simp add: RehydrateTransaction_def)
  show ?thesis
    using assms(1) by (auto simp: h wp_ret answered_def quiet_def intro!: wp_handleReplay [OF assms(2)] Q)
qed

lemma wp_ProcessTransaction:
  assumes "env_ok E" and inv: "db_inv sep (canonical E) (w_db w)"
    and Q: "\<And>x w'. w_db w' = w_db w \<or> served sep E (rq_ProviderID req) (rq_WalletID req) (effective_key key0 req) (w_db w) (w_db w') \<Longrightarrow>
      (calm E \<Longrightarrow> answered E req (effective_key key0 req) (w_db w) x (w_db w')) \<Longrightarrow> Q x w'"
  shows "wp (ProcessTransaction E req key0 messageID) Q w"
proof -
  let ?key = "effective_key key0 req"
  define Q' where "Q' x = wp (do { _ \<leftarrow> count_metric (\<lambda>m. m\<lparr>mt_durations := Suc (mt_durations m)\<rparr>); ret x }) Q"
    for x :: "gerr + ProcessResult"
  have Q': "Q' x w'" if "w_db w' = w_db w \<or> served sep E (rq_ProviderID req) (rq_WalletID req) ?key (w_db w) (w_db w')"
      "calm E \<Longrightarrow> answered E req ?key (w_db w) x (w_db w')" for x w'
    unfolding Q'_def wp_bind wp_ret using that by (intro wp_count_metric Q) (auto simp: quiet_def)
  have cur: "currency_inv (w_db w)" using inv by (simp add: db_inv_def)
  show ?thesis
    unfolding ProcessTransaction_def Let_def
    unfolding wp_bind [of "do { existing \<leftarrow> TxRepo_FindByIdempotencyKey _ _ _; _ existing }"] Q'_def [symmetric]
      wp_bind [of "TxRepo_FindByIdempotencyKey _ _ _"]
  proof (rule wp_FindByIdempotencyKey, goal_cases)
    case (1 e w')
    then have w': "w_db w' = w_db w" by (simp add: quiet_def)
    show ?case
    proof (cases "e = wager_err Wager_ErrTransactionNotFound")
      case True
      then have "key_row (w_db w) (rq_ProviderID req) ?key = None" using 1(2) by (simp add: lookup_err_def key_row_def)
      then show ?thesis
        unfolding sum.case using True w' inv effective_key_nonempty
        by (auto intro!: wp_process_new [OF assms(1)] Q')
    next
      case False
      then have "\<not> calm E" using key_lookup_calm(2) [OF cur 1(2)] by blast
      then show ?thesis using False w' by (auto simp: wp_ret intro!: Q')
    qed
  next
    case (2 r ex w')
    then have k: "key_row (w_db w) (rq_ProviderID req) ?key = Some r" by (simp add: key_row_def)
    show ?case
      unfolding sum.case wp_bind [of "count_metric _"]
      by (rule wp_count_metric, rule wp_known_key [OF _ 2(3), where req = req and key = ?key and E = E])
        (use 2 k in \<open>auto simp: quiet_def intro!: Q'\<close>)
  qed
qed

end
