(* ===== verification/Wallet_Opening.thy ===== *)
theory Wallet_Opening
  imports Wager_Refinement
begin

text \<open>
  \<^verbatim>\<open>CreateWallet\<close> of \<^verbatim>\<open>internal/wallet/service.go\<close>: it opens at most one wallet, atomically with its opening
  transaction, ledger entry and events, and does so whenever the input is in order and nothing
  fails.
\<close>

section \<open>Statements\<close>

definition new_wallet_row :: "env \<Rightarrow> string \<Rightarrow> string \<Rightarrow> Money \<Rightarrow> time \<Rightarrow> wallet_row \<Rightarrow> bool" where
  "new_wallet_row E playerID providerID bal s r \<longleftrightarrow>
     canonical E (wr_id r) \<and> env_uuid E playerID = Some (wr_player_id r) \<and> wr_provider_id r = providerID \<and>
     wr_currency r = money_currency bal \<and> wr_balance r = money_amount bal \<and> wr_version r = 1 \<and>
     wr_created_at r = s \<and> wr_updated_at r = s"

text \<open>\<open>vacant\<close>: the player has no wallet of this currency with the provider.\<close>

definition vacant :: "env \<Rightarrow> string \<Rightarrow> Currency \<Rightarrow> string \<Rightarrow> db \<Rightarrow> bool" where
  "vacant E playerID cur providerID d \<longleftrightarrow>
     (\<exists>p. env_uuid E playerID = Some p \<and> (\<forall>x \<in> set (db_wallets d). owner_of x \<noteq> (p, cur, providerID)))"

lemma fresh_wallet: "fresh_ids E \<Longrightarrow> env_gen E n d \<notin> set (map wr_id (db_wallets d))"
  unfolding fresh_ids_def by (metis Un_iff set_append)

lemma wp_CreateWalletTx:
  assumes "env_ok E" and "w_txs w t = OpenTx d s"
    and err: "\<And>e w'. w_db w' = w_db w \<Longrightarrow>
      blamed E (\<not> (vacant E playerID cur providerID d \<and> currency_chk cur \<and> 0 \<le> cents bal)) \<Longrightarrow> Q (Inl e) w'"
    and ok: "\<And>r w'. w_db w' = w_db w \<Longrightarrow> w_txs w' t = OpenTx (add_wallet r d) s \<Longrightarrow> new_wallet_row E playerID providerID bal s r \<Longrightarrow>
      wallet_constraints r (db_wallets d) = None \<Longrightarrow> Q (Inr (wr_id r)) w'"
    and "cur = money_currency bal"
  shows "wp (WalletRepo_CreateWalletTx E t playerID providerID cur bal) Q w"
  unfolding WalletRepo_CreateWalletTx_def wp_bind_err
proof (rule wp_tx_stmt [OF assms(2)], goal_cases)
  case (1 e w' n)
  have "fresh_ids E \<Longrightarrow> sql_insert_wallet playerID providerID cur (money_amount bal) (stmt_ctx E s n) d = Inl e \<Longrightarrow>
      \<not> (vacant E playerID cur providerID d \<and> currency_chk cur \<and> 0 \<le> cents bal)"
    using fresh_wallet [of E n d]
    by (auto simp: sql_insert_wallet_def as_uuid_def vacant_def wallet_constraints_def owner_of_def cents_def list_ex_iff
        image_iff Let_def split: option.splits if_splits)
  with 1 show ?case by (auto intro!: err simp: blamed_def calm_def)
next
  case (2 x d' w' n)
  let ?r = "\<lambda>p. \<lparr>wr_id = env_gen E n d, wr_player_id = p, wr_provider_id = providerID, wr_currency = cur,
    wr_balance = money_amount bal, wr_version = 1, wr_created_at = s, wr_updated_at = s\<rparr>"
  from 2(2) obtain p where p: "env_uuid E playerID = Some p" "wallet_constraints (?r p) (db_wallets d) = None"
      "x = wr_id (?r p)" "d' = add_wallet (?r p) d"
    by (auto simp: sql_insert_wallet_def as_uuid_Inr Let_def add_wallet_def split: option.splits)
  then have "new_wallet_row E playerID providerID bal s (?r p)" using assms(1,5) by (simp add: new_wallet_row_def)
  with 2 p show ?case using ok [of w' "?r p"] by (simp add: wp_rules)
qed

lemma wp_CreateOpeningTx:
  assumes "env_ok E" and "w_txs w t = OpenTx d s" and "canonical E wid"
    and err: "\<And>e w'. w_db w' = w_db w \<Longrightarrow>
      blamed E (\<forall>i pid. env_uuid E playerID = Some pid \<longrightarrow> i \<notin> set (map tr_id (db_txs d)) \<longrightarrow>
        tx_constraints (opening_row i wid pid (money_amount bal) cur s) (db_txs d) (db_wallets d) \<noteq> None) \<Longrightarrow> Q (Inl e) w'"
    and ok: "\<And>i pid w'. w_db w' = w_db w \<Longrightarrow> canonical E i \<Longrightarrow>
      w_txs w' t = OpenTx (add_tx (opening_row i wid pid (money_amount bal) cur s) d) s \<Longrightarrow>
      tx_constraints (opening_row i wid pid (money_amount bal) cur s) (db_txs d) (db_wallets d) = None \<Longrightarrow> Q (Inr i) w'"
    and player: "env_uuid E playerID = Some pid0"
  shows "wp (WalletRepo_CreateOpeningTx E t wid playerID bal cur) Q w"
  unfolding WalletRepo_CreateOpeningTx_def wp_bind_err
proof (rule wp_tx_stmt [OF assms(2)], goal_cases)
  case (1 e w' n)
  have "calm E \<Longrightarrow> tx_constraints (opening_row (env_gen E n d) wid pid0 (money_amount bal) cur s) (db_txs d) (db_wallets d) \<noteq> None"
    using 1(3) assms(3) player
    by (auto simp: blamed_def sql_insert_opening_def as_uuid_def insert_tx_def split: option.splits)
  moreover have "calm E \<Longrightarrow> tx_constraints (opening_row i wid pid0 (money_amount bal) cur s) (db_txs d) (db_wallets d) \<noteq> None"
    if "i \<notin> set (map tr_id (db_txs d))" for i
    using calculation fresh_tx [of E n d] that
    by (auto simp: tx_constraints_def opening_row_def calm_def clash_def idempotency_of_def opening_of_def reversal_of_def
        opening_rules_def list_ex_iff image_iff split: if_splits)
  ultimately show ?case using 1 player by (auto intro!: err simp: blamed_def)
next
  case (2 x d' w' n)
  then obtain pid where "x = env_gen E n d" "d' = add_tx (opening_row (env_gen E n d) wid pid (money_amount bal) cur s) d"
      "tx_constraints (opening_row (env_gen E n d) wid pid (money_amount bal) cur s) (db_txs d) (db_wallets d) = None"
    using assms(3) by (auto simp: sql_insert_opening_def as_uuid_Inr insert_tx_Inr add_tx_def opening_row_def)
  then show ?case using 2 assms(1) by (simp add: wp_rules ok)
qed

lemma CreateLedgerEntryTx_eq:
  "WalletRepo_CreateLedgerEntryTx E t e = TxRepo_CreateWalletLedgerEntryTx E t (le_walletID e) (le_transactionID e)
     (le_direction e) (money_amount (le_amount e)) (le_currency e) (money_amount (le_balanceBefore e))
     (money_amount (le_balanceAfter e))"
  by (simp add: WalletRepo_CreateLedgerEntryTx_def TxRepo_CreateWalletLedgerEntryTx_def)

lemma wp_create_outbox_events:
  assumes "w_txs w t = OpenTx d s"
    and "\<And>e w'. w_db w' = w_db w \<Longrightarrow> blamed E (\<exists>ev \<in> set evs. \<not> emittable E ev) \<Longrightarrow> Q (Inl e) w'"
    and "\<And>rs w'. w_db w' = w_db w \<Longrightarrow> w_txs w' t = OpenTx (add_events rs d) s \<Longrightarrow>
      list_all2 (outbox_for E) evs rs \<Longrightarrow> Q (Inr ()) w'"
  shows "wp (create_outbox_events E t evs) Q w"
  using assms
proof (induction evs arbitrary: w d Q)
  case Nil
  then show ?case by (simp add: wp_rules)
next
  case (Cons ev evs)
  show ?case
  proof (cases "json_Marshal ev")
    case (Inl e)
    then have "\<not> emittable E ev" by (simp add: emittable_def marshal_payload_def)
    then show ?thesis using Inl by (auto simp: wp_ret blamed_def intro!: Cons.prems(2))
  next
    case (Inr p)
    then have eq: "WalletRepo_CreateOutboxEventTx E t (ev_AggregateType ev) (ev_AggregateID ev) (ev_EventType ev) (Some p) =
        TxRepo_CreateOutboxEventTx E t (ev_AggregateType ev) (ev_AggregateID ev) (ev_EventType ev) (marshal_payload ev)"
      by (simp add: WalletRepo_CreateOutboxEventTx_def TxRepo_CreateOutboxEventTx_def marshal_payload_def)
    show ?thesis
      unfolding create_outbox_events.simps Inr sum.case wp_bind_err eq
    proof (rule wp_CreateOutboxEventTx [OF Cons.prems(1)], goal_cases)
      case (1 e w')
      then show ?case by (auto simp: blamed_def intro!: Cons.prems(2))
    next
      case (2 r w')
      show ?case
        unfolding sum.case
        by (rule Cons.IH [OF 2(2)]) (use 2 in \<open>auto simp: blamed_def intro!: Cons.prems(2,3)\<close>)
    qed
  qed
qed

section \<open>Opening\<close>

text \<open>\<open>opened E playerID providerID bal d wr d'\<close>: \<open>d'\<close> is \<open>d\<close> with the new wallet \<open>wr\<close> and, unless it is empty, its opening.\<close>

definition opened :: "env \<Rightarrow> string \<Rightarrow> string \<Rightarrow> Money \<Rightarrow> db \<Rightarrow> wallet_row \<Rightarrow> db \<Rightarrow> bool" where
  "opened E playerID providerID bal d wr d' \<longleftrightarrow>
     (\<exists>s. new_wallet_row E playerID providerID bal s wr) \<and> wallet_constraints wr (db_wallets d) = None \<and>
     (if IsZero bal then d' = add_wallet wr d
      else \<exists>r l evs. d' = add_events evs (add_ledger l (add_tx r (add_wallet wr d))) \<and>
        (\<exists>i pid s. canonical E i \<and> r = opening_row i (wr_id wr) pid (money_amount bal) (money_currency bal) s) \<and>
        tx_constraints r (db_txs d) (db_wallets d @ [wr]) = None \<and> entry_for (wr\<lparr>wr_balance := 0\<rparr>) r CREDIT l \<and>
        lr_balance_after l = wr_balance wr \<and>
        ledger_constraints l (db_ledger d) (db_txs d @ [r]) (db_wallets d @ [wr]) = None \<and>
        announced (status_event PROCESSED) r evs)"

lemma opened_step:
  assumes "opened E playerID providerID bal d wr d'" and "money_currency bal = BRL" and "0 \<le> cents bal"
  shows "db_step sep (canonical E) d d'"
proof (cases "IsZero bal")
  case True
  then show ?thesis
    using assms by (auto simp: opened_def new_wallet_row_def IsZero_def intro!: db_step.open_empty)
next
  case False
  then have "0 < sint (money_amount bal)" using assms(3) by (auto simp: IsZero_def cents_def signed_word_eqI less_le)
  with False show ?thesis
    using assms(1,2) by (auto simp: opened_def new_wallet_row_def opening_row_def intro!: db_step.open_funded)
qed

text \<open>What must hold of the input and the tables for the wallet to be opened.\<close>

definition openable :: "env \<Rightarrow> string \<Rightarrow> string \<Rightarrow> Money \<Rightarrow> db \<Rightarrow> bool" where
  "openable E playerID providerID bal d \<longleftrightarrow>
     TrimSpace providerID \<noteq> '''' \<and> TrimSpace playerID \<noteq> '''' \<and> money_currency bal = BRL \<and> 0 \<le> cents bal \<and>
     vacant E playerID BRL providerID d \<and> (\<forall>n. env_clock E n \<noteq> zero_time)"

definition wallet_made :: "string \<Rightarrow> string \<Rightarrow> Money \<Rightarrow> wallet_row \<Rightarrow> Wallet \<Rightarrow> bool" where
  "wallet_made playerID providerID bal wr w \<longleftrightarrow>
     wal_id w = wr_id wr \<and> wal_playerID w = TrimSpace playerID \<and> wal_providerID w = TrimSpace providerID \<and>
     wal_currency w = money_currency bal \<and> wal_balance w = bal \<and> wal_version w = 1"

lemma opening_storable:
  assumes "ids_inv (canonical E) d" and "wallet_constraints wr (db_wallets d) = None" and "i \<notin> set (map tr_id (db_txs d))"
    and "money_currency bal = BRL" and "0 \<le> cents bal"
  shows "tx_constraints (opening_row i (wr_id wr) pid (money_amount bal) (money_currency bal) s) (db_txs d)
    (db_wallets d @ [wr]) = None"
proof -
  have w: "tr_wallet_id x \<noteq> wr_id wr" if "x \<in> set (db_txs d)" for x
  proof -
    have "tr_wallet_id x \<in> wr_id ` set (db_wallets d)" using assms(1) that unfolding ids_inv_def by auto
    then show ?thesis using assms(2) unfolding wallet_constraints_None by auto
  qed
  show ?thesis
    unfolding tx_constraints_None
  proof (intro conjI)
    let ?r = "opening_row i (wr_id wr) pid (money_amount bal) (money_currency bal) s"
    show "TransactionType_Valid (tr_transaction_type ?r) \<or> tr_transaction_type ?r = OPENING" "0 \<le> sint (tr_amount ?r)"
        "currency_chk (tr_currency ?r)" "opening_rules ?r" "\<not> clash idempotency_of ?r (db_txs d)"
        "\<not> clash reversal_of ?r (db_txs d)"
      using assms(4,5) by (simp_all add: opening_row_def cents_def opening_rules_def clash_def idempotency_of_def reversal_of_def)
    show "\<forall>x \<in> set (db_txs d). tr_id x \<noteq> tr_id ?r" using assms(3) by (auto simp: opening_row_def)
    show "\<not> clash opening_of ?r (db_txs d)"
      using w by (auto simp: clash_def opening_of_def opening_row_def list_ex_iff split: if_splits)
    show "\<exists>w \<in> set (db_wallets d @ [wr]). wr_id w = tr_wallet_id ?r" by (simp add: opening_row_def)
  qed
qed

lemma opening_enterable:
  assumes "booking_inv d" and "canonical E (wr_id wr)" and "canonical E (tr_id r)" and "0 < cents bal" and "money_currency bal = BRL"
    and "\<forall>x \<in> set (db_txs d). tr_id x \<noteq> tr_id r"
  shows "enterable E (wr_id wr) (tr_id r) CREDIT (money_amount bal) (money_currency bal) 0 (money_amount bal)
    (add_tx r (add_wallet wr d))"
proof -
  have "lr_transaction_id x \<noteq> tr_id r" if "x \<in> set (db_ledger d)" for x
    using assms(1,6) that unfolding booking_inv_def booked_def by metis
  then show ?thesis
    using assms(2-5) unfolding enterable_def ledger_constraints_None ledger_math_signed
    by (auto simp: mk_entry_def cents_def signed_def)
qed

lemma openedI:
  assumes "new_wallet_row E playerID providerID bal s0 wr" "wallet_constraints wr (db_wallets d) = None" "\<not> IsZero bal"
    and "canonical E i" "r = opening_row i (wr_id wr) pid (money_amount bal) (money_currency bal) s"
    and "tx_constraints r (db_txs d) (db_wallets d @ [wr]) = None" "entry_for (wr\<lparr>wr_balance := 0\<rparr>) r CREDIT l"
    and "lr_balance_after l = wr_balance wr"
    and "ledger_constraints l (db_ledger d) (db_txs d @ [r]) (db_wallets d @ [wr]) = None"
    and "announced (status_event PROCESSED) r evs"
  shows "opened E playerID providerID bal d wr (add_events evs (add_ledger l (add_tx r (add_wallet wr d))))"
  using assms unfolding opened_def by (simp, intro conjI exI) (assumption | rule refl)+

text \<open>The ledger entry and the events of the opening transaction \<open>i\<close>.\<close>

definition opening_entry :: "time \<Rightarrow> string \<Rightarrow> string \<Rightarrow> Money \<Rightarrow> LedgerEntry" where
  "opening_entry now wid i bal = \<lparr>le_id = '''', le_walletID = wid, le_transactionID = i, le_direction = CREDIT,
     le_amount = bal, le_currency = money_currency bal, le_balanceBefore = \<lparr>money_amount = 0, money_currency = BRL\<rparr>,
     le_balanceAfter = bal, le_createdAt = now\<rparr>"

lemma opening_events_emittable:
  assumes "wallet_made playerID providerID bal wr wl" and "money_currency bal = BRL" and "0 < cents bal"
    and "canonical E (wr_id wr)" and "canonical E i" and "ev \<in> set (buildWalletCreatedEvents wl i (opening_entry now (wr_id wr) i bal))"
  shows "emittable E ev"
proof -
  have "marshal_payload ev = Some ev"
    using assms by (intro json_Marshal_ok(2)) (auto simp: buildWalletCreatedEvents_def opening_entry_def wallet_made_def cents_def)
  then show ?thesis
    using assms by (auto simp: emittable_def buildWalletCreatedEvents_def wallet_made_def)
qed

lemma wp_opening_entry:
  assumes "booking_inv d" and r: "r = opening_row i (wr_id wr) pid (money_amount bal) (money_currency bal) s"
    and "w_txs w t = OpenTx (add_tx r (add_wallet wr d)) s"
    and wr: "new_wallet_row E playerID providerID bal s0 wr" and wc: "wallet_constraints wr (db_wallets d) = None"
    and made: "wallet_made playerID providerID bal wr wl" and bal: "money_currency bal = BRL" "0 < cents bal"
    and i: "canonical E i" and tc: "tx_constraints r (db_txs d) (db_wallets d @ [wr]) = None"
    and err: "\<And>e w'. w_db w' = w_db w \<Longrightarrow> \<not> calm E \<Longrightarrow> Q (Inl e) w'"
    and ok: "\<And>w' d'. w_db w' = w_db w \<Longrightarrow> w_txs w' t = OpenTx d' s \<Longrightarrow> opened E playerID providerID bal d wr d' \<Longrightarrow> Q (Inr ()) w'"
  shows "wp (bind_err (WalletRepo_CreateLedgerEntryTx E t (opening_entry now (wr_id wr) i bal)) (\<lambda>e. e) (\<lambda>_.
    create_outbox_events E t (buildWalletCreatedEvents wl i (opening_entry now (wr_id wr) i bal)))) Q w"
proof -
  have can: "canonical E (wr_id wr)" "wr_balance wr = money_amount bal" using wr by (simp_all add: new_wallet_row_def)
  have id: "tr_id r = i" by (simp add: r opening_row_def)
  have new: "\<forall>x \<in> set (db_txs d). tr_id x \<noteq> tr_id r" using tc by (simp add: tx_constraints_None)
  have enter: "enterable E (wr_id wr) i CREDIT (money_amount bal) (money_currency bal) 0 (money_amount bal) (add_tx r (add_wallet wr d))"
    using opening_enterable [OF assms(1) can(1) _ bal(2,1) new] i id by simp
  have nz: "\<not> IsZero bal" using bal(2) by (simp add: IsZero_cents)
  show ?thesis
    unfolding wp_bind_err CreateLedgerEntryTx_eq
  proof (rule wp_CreateWalletLedgerEntryTx [OF assms(3)], goal_cases)
    case (1 e w')
    then show ?case using enter by (auto simp: blamed_def opening_entry_def intro!: err)
  next
    case (2 l w1)
    have ent: "entry_for (wr\<lparr>wr_balance := 0\<rparr>) r CREDIT l" "lr_balance_after l = wr_balance wr"
      using 2(3) can i by (auto simp: entry_row_def entry_for_def opening_row_def opening_entry_def r)
    show ?case
      unfolding sum.case
    proof (rule wp_create_outbox_events [OF 2(2)], goal_cases)
      case (1 e w')
      then show ?case
        using opening_events_emittable [OF made bal can(1) i] \<open>w_db w1 = w_db w\<close> by (auto simp: blamed_def intro!: err)
    next
      case (2 rs w2)
      have "announced (status_event PROCESSED) r rs"
        using 2(3) i id by (auto simp: buildWalletCreatedEvents_def list_all2_Cons1 outbox_for_def announced_def status_event_def)
      then have "opened E playerID providerID bal d wr (add_events rs (add_ledger l (add_tx r (add_wallet wr d))))"
        using \<open>ledger_constraints l _ _ _ = None\<close> by (intro openedI [OF wr wc nz i r tc ent]) simp
      with 2 \<open>w_db w1 = w_db w\<close> show ?case by (intro ok) auto
    qed
  qed
qed

lemma wp_create_opening:
  assumes "env_ok E" and "db_inv sep (canonical E) d" and "w_txs w t = OpenTx (add_wallet wr d) s"
    and wr: "new_wallet_row E playerID providerID bal s0 wr" and wc: "wallet_constraints wr (db_wallets d) = None"
    and made: "wallet_made playerID providerID bal wr wl" and bal: "money_currency bal = BRL" "0 < cents bal"
    and err: "\<And>e w'. w_db w' = w_db w \<Longrightarrow> \<not> calm E \<Longrightarrow> Q (Inl e) w'"
    and ok: "\<And>w' d'. w_db w' = w_db w \<Longrightarrow> w_txs w' t = OpenTx d' s \<Longrightarrow> opened E playerID providerID bal d wr d' \<Longrightarrow> Q (Inr ()) w'"
  shows "wp (create_opening E t wl (wr_id wr) playerID bal) Q w"
proof -
  let ?row = "\<lambda>i pid. opening_row i (wr_id wr) pid (money_amount bal) (money_currency bal) s"
  have inv: "ids_inv (canonical E) d" "booking_inv d" using assms(2) by (simp_all add: db_inv_def)
  have can: "canonical E (wr_id wr)" "env_uuid E playerID = Some (wr_player_id wr)"
    using wr by (simp_all add: new_wallet_row_def)
  have wid: "wr_id wr \<noteq> ''''" using can(1) env_ok_uuid [OF assms(1)] by blast
  have z: "NewMoney 0 (money_currency bal) = Inr \<lparr>money_amount = 0, money_currency = BRL\<rparr>"
    using bal by (simp add: NewMoney_def Currency_Valid_def)
  have entry: "NewLedgerEntry now '''' (wr_id wr) i CREDIT bal \<lparr>money_amount = 0, money_currency = BRL\<rparr> bal =
      Inr (opening_entry now (wr_id wr) i bal)" if "i \<noteq> ''''" for i now
    using bal wid that by (simp add: NewLedgerEntry_Inr opening_entry_def cents_def signed_def)
  show ?thesis
    unfolding create_opening_def Let_def wp_bind_err [of "WalletRepo_CreateOpeningTx _ _ _ _ _ _"]
  proof (rule wp_CreateOpeningTx [OF assms(1,3) can(1) _ _ can(2)], goal_cases)
    case (1 e w')
    obtain i where i: "i \<notin> set (map tr_id (db_txs d))" by (metis List.finite_set ex_new_if_finite infinite_UNIV_listI)
    then have "tx_constraints (?row i (wr_player_id wr)) (db_txs d) (db_wallets d @ [wr]) = None"
      using opening_storable [OF inv(1) wc] bal by simp
    with 1 can i show ?case by (auto simp: blamed_def intro!: err)
  next
    case (2 i pid w1)
    have "i \<noteq> ''''" using 2(2) env_ok_uuid [OF assms(1)] by blast
    note e = entry [OF this]
    show ?case
      unfolding sum.case wp_bind_err [of "ret _"] wp_ret z lift_money_simps wp_bind
    proof (rule wp_time_Now, goal_cases)
      case (1 now w2)
      have "w_db w2 = w_db w" "w_txs w2 t = OpenTx (add_tx (?row i pid) (add_wallet wr d)) s"
        using 1 2 by (simp_all add: quiet_def)
      then show ?case
        unfolding e sum.case wp_bind_err [of "ret _"] wp_ret
        using 2 by (intro wp_opening_entry [OF inv(2) refl _ wr wc made bal]) (auto intro: err ok)
    qed
  qed
qed

lemma wp_FindByPlayer:
  assumes "\<And>e w'. quiet w w' \<Longrightarrow> (calm E \<Longrightarrow> vacant E playerID cur providerID (w_db w) \<Longrightarrow> errors_is e (WalletErr Wallet_ErrWalletNotFound)) \<Longrightarrow>
      Q (Inl e) w'"
    and "\<And>x w'. quiet w w' \<Longrightarrow> \<not> vacant E playerID cur providerID (w_db w) \<Longrightarrow> Q (Inr x) w'"
  shows "wp (WalletRepo_FindByPlayerAndCurrencyAndProvider E playerID cur providerID) Q w"
  unfolding WalletRepo_FindByPlayerAndCurrencyAndProvider_def wp_bind_err
proof (rule wp_pool_select, goal_cases)
  case (1 c x d')
  then show ?case by (auto dest: select_only)
next
  case (2 e w' n)
  then show ?case
    by (auto simp: blamed_def sql_select_wallet_by_player_def as_uuid_def vacant_def split: option.splits intro!: assms(1))
next
  case (3 x w' n)
  then obtain p where p: "env_uuid E playerID = Some p"
      "x = find (\<lambda>r. wr_player_id r = p \<and> wr_currency r = cur \<and> wr_provider_id r = providerID) (db_wallets (w_db w))"
    by (auto simp: sql_select_wallet_by_player_def as_uuid_Inr)
  show ?case
  proof (cases x)
    case None
    then show ?thesis using 3 by (auto simp: wp_ret scanned_wallet_def intro!: assms(1))
  next
    case (Some r)
    then have "owner_of r = (p, cur, providerID) \<and> r \<in> set (db_wallets (w_db w))"
      using p(2) by (auto simp: find_Some_iff owner_of_def)
    then have "\<not> vacant E playerID cur providerID (w_db w)" using p(1) by (auto simp: vacant_def)
    then show ?thesis
      using 3 Some by (cases "scanned_wallet x") (auto simp: wp_ret intro!: assms)
  qed
qed

lemma RehydrateWallet_new:
  assumes "env_ok E" and "new_wallet_row E playerID providerID bal s wr" and "0 \<le> cents bal"
  shows "RehydrateWallet (wr_id wr) playerID providerID (money_currency bal) bal 1 now now = Inr wl \<Longrightarrow>
      wallet_made playerID providerID bal wr wl \<and> money_currency bal = BRL"
    and "openable E playerID providerID bal d \<Longrightarrow> now \<noteq> zero_time \<Longrightarrow>
      \<exists>wl. RehydrateWallet (wr_id wr) playerID providerID (money_currency bal) bal 1 now now = Inr wl"
proof -
  have t: "TrimSpace (wr_id wr) = wr_id wr" "wr_id wr \<noteq> ''''"
    using assms(1,2) env_ok_uuid by (auto simp: new_wallet_row_def)
  show "RehydrateWallet (wr_id wr) playerID providerID (money_currency bal) bal 1 now now = Inr wl \<Longrightarrow>
      wallet_made playerID providerID bal wr wl \<and> money_currency bal = BRL"
    using t by (auto simp: RehydrateWallet_def Let_def wallet_made_def split: if_splits)
  show "openable E playerID providerID bal d \<Longrightarrow> now \<noteq> zero_time \<Longrightarrow>
      \<exists>wl. RehydrateWallet (wr_id wr) playerID providerID (money_currency bal) bal 1 now now = Inr wl"
    using t assms(3) by (auto simp: RehydrateWallet_def Let_def openable_def IsNegative_cents)
qed

lemma wp_clock: "(\<And>n w'. quiet w w' \<Longrightarrow> Q (env_clock E n) w') \<Longrightarrow> wp (time_Now E) Q w"
  by (simp add: time_Now_def wp_rules tick_def wp_State quiet_def)

text \<open>The rest of \<^verbatim>\<open>CreateWallet\<close>, after the row is inserted.\<close>

lemma wp_finish_wallet:
  assumes "env_ok E" and "db_inv sep (canonical E) (w_db w)" and "w_txs w t = OpenTx (add_wallet wr (w_db w)) s"
    and wr: "new_wallet_row E playerID providerID bal s0 wr" and wc: "wallet_constraints wr (db_wallets (w_db w)) = None"
    and pos: "0 \<le> cents bal"
    and err: "\<And>e w'. w_db w' = w_db w \<or> (money_currency bal = BRL \<and> opened E playerID providerID bal (w_db w) wr (w_db w')) \<Longrightarrow>
      blamed E (\<not> openable E playerID providerID bal (w_db w)) \<Longrightarrow> Q (Inl e) w'"
    and ok: "\<And>wl w'. opened E playerID providerID bal (w_db w) wr (w_db w') \<Longrightarrow> money_currency bal = BRL \<Longrightarrow>
      wallet_made playerID providerID bal wr wl \<Longrightarrow> Q (Inr wl) w'"
  shows "wp (do {
      now \<leftarrow> time_Now E;
      bind_err (ret (RehydrateWallet (wr_id wr) playerID providerID (money_currency bal) bal 1 now now))
        (Errorf ''rehydrate wallet'') (\<lambda>w.
      bind_err (if IsZero bal then ok () else create_opening E t w (wr_id wr) playerID bal) (\<lambda>e. e) (\<lambda>_.
      bind_err (tx_Commit E t) (Errorf ''commit wallet creation'') (\<lambda>_. ok w)))
    }) Q w"
  unfolding wp_bind
proof (rule wp_clock, goal_cases)
  case (1 n w1)
  let ?h = "RehydrateWallet (wr_id wr) playerID providerID (money_currency bal) bal 1 (env_clock E n) (env_clock E n)"
  have w1: "w_db w1 = w_db w" "w_txs w1 t = OpenTx (add_wallet wr (w_db w)) s" using 1 assms(3) by (simp_all add: quiet_def)
  show ?case
  proof (cases ?h)
    case (Inl e)
    have "env_clock E n \<noteq> zero_time" if "openable E playerID providerID bal (w_db w)"
      using that by (simp add: openable_def)
    then have "\<not> openable E playerID providerID bal (w_db w)"
      using RehydrateWallet_new(2) [OF assms(1) wr pos] Inl by fastforce
    then show ?thesis using Inl w1 by (auto simp: wp_rules blamed_def intro!: err)
  next
    case (Inr wl)
    note made = RehydrateWallet_new(1) [OF assms(1) wr pos Inr]
    have commit: "wp (bind_err (tx_Commit E t) (Errorf ''commit wallet creation'') (\<lambda>_. ok wl)) Q w'"
      if "w_db w' = w_db w" "w_txs w' t = OpenTx d' s" "opened E playerID providerID bal (w_db w) wr d'" for w' d'
      unfolding wp_bind_err by (rule wp_Commit [OF that(2)])
        (use that made in \<open>auto simp: wp_ret blamed_def intro!: err ok\<close>)
    show ?thesis
    proof (cases "IsZero bal")
      case True
      then have "opened E playerID providerID bal (w_db w) wr (add_wallet wr (w_db w))"
        using wr wc by (auto simp: opened_def)
      then show ?thesis using Inr True commit [OF w1] by (simp add: wp_bind_err wp_ret cong: sum.case_cong)
    next
      case False
      then have p: "0 < cents bal" using pos by (simp add: IsZero_cents)
      have "wp (create_opening E t wl (wr_id wr) playerID bal) (\<lambda>r. case r of Inl e \<Rightarrow> Q (Inl e)
          | Inr x \<Rightarrow> wp (bind_err (tx_Commit E t) (Errorf ''commit wallet creation'') (\<lambda>_. ok wl)) Q) w1"
        using made p w1 wr wc assms(2) commit
        by (intro wp_create_opening [OF assms(1), where d = "w_db w" and s = s and ?s0.0 = s0 and providerID = providerID])
          (auto simp: blamed_def intro!: err)
      then show ?thesis using Inr False by (simp add: wp_bind_err wp_ret cong: sum.case_cong)
    qed
  qed
qed

lemma wp_store_wallet:
  assumes "env_ok E" and "db_inv sep (canonical E) (w_db w)" and pos: "0 \<le> cents bal"
    and err: "\<And>e w' wr. w_db w' = w_db w \<or> (money_currency bal = BRL \<and> opened E playerID providerID bal (w_db w) wr (w_db w')) \<Longrightarrow>
      blamed E (\<not> openable E playerID providerID bal (w_db w)) \<Longrightarrow> Q (Inl e) w'"
    and ok: "\<And>wl wr w'. opened E playerID providerID bal (w_db w) wr (w_db w') \<Longrightarrow> money_currency bal = BRL \<Longrightarrow>
      wallet_made playerID providerID bal wr wl \<Longrightarrow> Q (Inr wl) w'"
  shows "wp (store_wallet E providerID playerID bal) Q w"
  unfolding store_wallet_def wp_bind_err [of "TxManager_Begin E"]
proof (rule wp_Begin, goal_cases)
  case (1 e w2)
  then show ?case by (auto simp: quiet_def blamed_def intro!: err)
next
  case (2 t w2 s)
  show ?case
    unfolding sum.case wp_defer_Rollback wp_bind_err [of "WalletRepo_CreateWalletTx _ _ _ _ _ _"]
  proof (rule wp_CreateWalletTx [OF assms(1) 2(2)], goal_cases)
    case (1 e w3)
    then show ?case using 2 pos by (auto simp: blamed_def openable_def intro!: err)
  next
    case (2 r w3)
    then show ?case
      unfolding sum.case using \<open>w_db w2 = w_db w\<close> assms(2) pos
      by (intro wp_finish_wallet [OF assms(1)]) (auto intro: err ok)
  qed simp
qed

lemma wp_CreateWallet:
  assumes "env_ok E" and "db_inv sep (canonical E) (w_db w)"
    and err: "\<And>e w' wr. w_db w' = w_db w \<or> (money_currency bal = BRL \<and> 0 \<le> cents bal \<and>
        opened E playerID providerID bal (w_db w) wr (w_db w')) \<Longrightarrow>
      blamed E (\<not> openable E playerID providerID bal (w_db w)) \<Longrightarrow> Q (Inl e) w'"
    and ok: "\<And>wl wr w'. opened E playerID providerID bal (w_db w) wr (w_db w') \<Longrightarrow> money_currency bal = BRL \<Longrightarrow> 0 \<le> cents bal \<Longrightarrow>
      wallet_made playerID providerID bal wr wl \<Longrightarrow> Q (Inr wl) w'"
  shows "wp (CreateWallet E providerID playerID bal) Q w"
proof (cases "providerID = '''' \<or> playerID = '''' \<or> money_currency bal = '''' \<or> IsNegative bal")
  case True
  then have "\<not> openable E playerID providerID bal (w_db w)"
    using TrimSpace_graphic [of "''''"] by (auto simp: openable_def IsNegative_cents BRL_def)
  then show ?thesis using True by (auto simp: CreateWallet_def wp_ret blamed_def intro!: err)
next
  case False
  then have pos: "0 \<le> cents bal" by (simp add: IsNegative_cents)
  have v: "vacant E playerID (money_currency bal) providerID (w_db w)" if "openable E playerID providerID bal (w_db w)"
    using that by (simp add: openable_def)
  have "wp (WalletRepo_FindByPlayerAndCurrencyAndProvider E playerID (money_currency bal) providerID) (\<lambda>existing. wp (case existing of
           Inr _ \<Rightarrow> fail (wallet_err Wallet_ErrDuplicateWallet)
         | Inl err \<Rightarrow>
             if \<not> errors_is err (WalletErr Wallet_ErrWalletNotFound) then fail (Errorf ''check existing wallet'' err)
             else store_wallet E providerID playerID bal) Q) w"
  proof (rule wp_FindByPlayer, goal_cases)
    case (2 x w')
    then show ?case using v by (auto simp: wp_ret quiet_def blamed_def intro!: err)
  next
    case (1 e w')
    then have w': "w_db w' = w_db w" by (simp add: quiet_def)
    have "wp (store_wallet E providerID playerID bal) Q w'"
      using w' assms(2) pos by (intro wp_store_wallet [OF assms(1)]) (auto intro: err ok)
    moreover have "blamed E (\<not> openable E playerID providerID bal (w_db w))" if "\<not> errors_is e (WalletErr Wallet_ErrWalletNotFound)"
      using that 1(2) v by (auto simp: blamed_def)
    ultimately show ?case using w' by (auto simp: wp_ret intro!: err)
  qed
  then show ?thesis using False by (simp add: CreateWallet_def wp_bind)
qed

end
