(* ===== verification/Scenario.thy ===== *)
theory Scenario
  imports Wager_Handlers Wallet_Opening
begin

text \<open>
  A concrete environment and concrete tables, in which the theorems of the development are
  applied: every text of graphic characters is an identifier, the server generates one that
  is longer than all in use, clocks stand still and nothing fails.
\<close>

definition all_ids :: "db \<Rightarrow> string list" where
  "all_ids d = map wr_id (db_wallets d) @ map tr_id (db_txs d) @ map lr_id (db_ledger d) @ map or_id (db_outbox d)"

definition next_id :: "db \<Rightarrow> string" where
  "next_id d = replicate (Suc (foldr (\<lambda>i n. max (length i) n) (all_ids d) 0)) CHR ''i''"

definition sample_uuid :: "string \<Rightarrow> string option" where
  "sample_uuid s = (if s \<noteq> '''' \<and> list_all graphic s then Some s else None)"

definition sample_env :: env where
  "sample_env = \<lparr>env_clock = (\<lambda>_. 5000), env_pg_now = (\<lambda>_. 6000), env_gen = (\<lambda>_. next_id), env_uuid = sample_uuid,
     env_sha256 = (\<lambda>s. s), env_fault = (\<lambda>_. None), env_rows = (\<lambda>_. None), env_zone = (\<lambda>_. 0)\<rparr>"

lemma longer_than_all: "i \<in> set is \<Longrightarrow> length i \<le> foldr (\<lambda>i n. max (length i) n) is 0"
  by (induction "is") auto

lemma next_id_fresh: "next_id d \<notin> set (all_ids d)"
proof
  assume "next_id d \<in> set (all_ids d)"
  from longer_than_all [OF this] show False by (simp add: next_id_def)
qed

lemma next_id_graphic: "list_all graphic (next_id d)" "next_id d \<noteq> ''''"
  by (simp_all add: next_id_def list_all_iff graphic_def)

lemma sample_env_ok: "env_ok sample_env"
  using next_id_graphic by (auto simp: env_ok_def sample_env_def sample_uuid_def TrimSpace_graphic split: if_splits)

lemma sample_env_calm: "calm sample_env"
  using next_id_fresh by (simp add: calm_def no_faults_def fresh_ids_def sample_env_def all_ids_def)

lemma sample_env_uuid: "env_uuid sample_env = sample_uuid"
  by (simp add: sample_env_def)

lemma sample_canonical: "canonical sample_env s \<longleftrightarrow> s \<noteq> '''' \<and> list_all graphic s"
  by (simp add: sample_env_uuid sample_uuid_def)

section \<open>Runs\<close>

text \<open>The tables after a run of \<open>m\<close> on \<open>d\<close>, and its answer.\<close>

definition after :: "'a eff \<Rightarrow> db \<Rightarrow> db" where
  "after m d = w_db (snd (run_state m (init_world d)))"

definition answer :: "'a eff \<Rightarrow> db \<Rightarrow> 'a" where
  "answer m d = fst (run_state m (init_world d))"

text \<open>A wallet of 100.00 is opened, 25.00 are staked on it, and the bet is rolled back.\<close>

definition wallet_db :: db where
  "wallet_db = after (CreateWallet sample_env ''prov'' ''p1'' \<lparr>money_amount = 10000, money_currency = BRL\<rparr>) empty_db"

definition sample_request :: "string \<Rightarrow> string \<Rightarrow> string \<Rightarrow> string \<Rightarrow> Request" where
  "sample_request kind ext amount ref = \<lparr>rq_ProviderID = ''prov'', rq_ExternalTransactionID = ext, rq_PlayerID = ''p1'',
     rq_WalletID = ''i'', rq_RoundID = ''r1'', rq_GameID = ''g1'', rq_Kind = kind,
     rq_Money = \<lparr>dto_Amount = amount, dto_Currency = BRL\<rparr>, rq_ReferenceExternalID = ref, rq_IdempotencyKey = ''''\<rparr>"

text \<open>The wallet of \<open>wallet_db\<close> as a row.\<close>

definition sample_wallet_row :: wallet_row where
  "sample_wallet_row = \<lparr>wr_id = ''i'', wr_player_id = ''p1'', wr_provider_id = ''prov'', wr_currency = BRL,
     wr_balance = 10000, wr_version = 1, wr_created_at = 6000, wr_updated_at = 6000\<rparr>"

definition bet_db :: db where
  "bet_db = after (ProcessTransaction sample_env (sample_request ''BET'' ''x1'' ''25.00'' '''') '''' '''') wallet_db"

definition rollback_db :: db where
  "rollback_db = after (ProcessTransaction sample_env (sample_request ''ROLLBACK'' ''x2'' ''25.00'' ''x1'') '''' '''') bet_db"

definition summary :: "db \<Rightarrow> int64 list \<times> (string \<times> TransactionStatus \<times> (string \<times> string) option \<times> string option) list \<times>
    (string \<times> Direction \<times> int64) list" where
  "summary d = (map wr_balance (db_wallets d),
     map (\<lambda>r. (tr_id r, tr_status r, external_of r, reversal_of r)) (db_txs d),
     map (\<lambda>l. (lr_transaction_id l, lr_direction l, lr_amount l)) (db_ledger d))"

lemma wallet_db_wallets: "db_wallets wallet_db = [sample_wallet_row]"
  by code_simp

lemma wallet_db_txs: "map (\<lambda>r. (tr_id r, tr_external_id r, tr_idempotency_key r)) (db_txs wallet_db) = [(''ii'', None, None)]"
  by code_simp

lemma wallet_db_at: "wallet_at sample_env wallet_db ''i'' sample_wallet_row"
  by (simp add: wallet_at_def wallet_db_wallets sample_env_uuid sample_uuid_def sample_wallet_row_def graphic_def
      readable_wallet_def TrimSpace_graphic zero_time_def)

lemma init_world_db [simp]: "w_db (init_world d) = d"
  by (simp add: init_world_def)

lemma wallet_db_inv: "db_inv True (canonical sample_env) wallet_db"
proof -
  have "wp (CreateWallet sample_env ''prov'' ''p1'' \<lparr>money_amount = 10000, money_currency = BRL\<rparr>)
      (\<lambda>x w'. db_inv True (canonical sample_env) (w_db w')) (init_world empty_db)"
    by (rule wp_CreateWallet [OF sample_env_ok]) (auto simp: db_inv_empty intro: db_inv_step [OF opened_step])
  then show ?thesis by (simp add: wallet_db_def wp_run after_def)
qed

lemma bet_db_inv: "db_inv True (canonical sample_env) bet_db"
proof -
  have "wp (ProcessTransaction sample_env (sample_request ''BET'' ''x1'' ''25.00'' '''') '''' '''')
      (\<lambda>x w'. db_inv True (canonical sample_env) (w_db w')) (init_world wallet_db)"
    by (rule wp_ProcessTransaction [OF sample_env_ok]) (auto simp: wallet_db_inv intro: db_inv_step)
  then show ?thesis by (simp add: bet_db_def wp_run after_def)
qed

end
