(* ===== verification/Queue_Client.thy ===== *)
theory Queue_Client
  imports Runtime
begin

text \<open>
  \<^verbatim>\<open>internal/infra/sqs/sqs.go\<close> and the state of a worker process. The queue service itself, the
  AWS SDK and the context of the process are not part of the program: \<open>aws\<close> says what each call
  returns, as a function of the number of calls made so far, so that a statement for every
  \<open>aws\<close> holds for every behaviour of the service. A call that fails may have taken effect.

  The state of a worker is the world of the services, the number of calls, the messages that
  the service accepted and those it deleted.
\<close>

section \<open>Messages and the service\<close>

record sqs_message =
  msg_MessageId :: "string option"
  msg_ReceiptHandle :: "string option"
  msg_Body :: "string option"

record SendMessageInput =
  sm_QueueUrl :: string
  sm_MessageBody :: string
  sm_MessageGroupId :: "string option"
  sm_MessageDeduplicationId :: "string option"

record aws =
  aws_receive :: "nat \<Rightarrow> gerr + sqs_message list"
  aws_send :: "nat \<Rightarrow> fault option"
  aws_delete :: "nat \<Rightarrow> fault option"
  aws_attributes :: "nat \<Rightarrow> gerr option"
  aws_done :: "nat \<Rightarrow> bool"
  aws_jsonb :: "Event \<Rightarrow> string"

text \<open>
  What the code relies on: a context that is done stays done, and the database returns the JSON
  text of an event.
\<close>

definition aws_ok :: "aws \<Rightarrow> bool" where
  "aws_ok A \<longleftrightarrow> (\<forall>n. aws_done A n \<longrightarrow> aws_done A (Suc n)) \<and> (\<forall>ev. aws_jsonb A ev \<noteq> '''')"

record node =
  nd_world :: world
  nd_calls :: nat
  nd_sent :: "SendMessageInput list"
  nd_deleted :: "string option list"

type_synonym 'a act = "(node, 'a) state"

definition init_node :: "db \<Rightarrow> node" where
  "init_node d = \<lparr>nd_world = init_world d, nd_calls = 0, nd_sent = [], nd_deleted = []\<rparr>"

abbreviation nd_db :: "node \<Rightarrow> db" where
  "nd_db n \<equiv> w_db (nd_world n)"

text \<open>A call of a service of the program.\<close>

definition on_services :: "'a eff \<Rightarrow> 'a act" where
  "on_services m = State (\<lambda>n. case run_state m (nd_world n) of (x, w) \<Rightarrow> (x, n\<lparr>nd_world := w\<rparr>))"

definition next_call :: "nat act" where
  "next_call = State (\<lambda>n. (nd_calls n, n\<lparr>nd_calls := Suc (nd_calls n)\<rparr>))"

section \<open>The client\<close>

definition ReceiveMessage :: "aws \<Rightarrow> (node, gerr + sqs_message list) state" where
  "ReceiveMessage A = do { k \<leftarrow> next_call; ret (aws_receive A k) }"

definition DeleteMessage :: "aws \<Rightarrow> string option \<Rightarrow> (node, gerr + unit) state" where
  "DeleteMessage A receiptHandle = do {
     k \<leftarrow> next_call;
     State (\<lambda>n. let n' = n\<lparr>nd_deleted := nd_deleted n @ [receiptHandle]\<rparr> in
       case aws_delete A k of
         None \<Rightarrow> (Inr (), n')
       | Some flt \<Rightarrow> (Inl (flt_err flt), if flt_applied flt then n' else n))
   }"

definition GetQueueAttributes :: "aws \<Rightarrow> (node, gerr + unit) state" where
  "GetQueueAttributes A = do {
     k \<leftarrow> next_call;
     ret (case aws_attributes A k of None \<Rightarrow> Inr () | Some e \<Rightarrow> Inl e)
   }"

definition aws_SendMessage :: "aws \<Rightarrow> SendMessageInput \<Rightarrow> (node, gerr + unit) state" where
  "aws_SendMessage A input = do {
     k \<leftarrow> next_call;
     State (\<lambda>n. let n' = n\<lparr>nd_sent := nd_sent n @ [input]\<rparr> in
       case aws_send A k of
         None \<Rightarrow> (Inr (), n')
       | Some flt \<Rightarrow> (Inl (flt_err flt), if flt_applied flt then n' else n))
   }"

definition send_input :: "string \<Rightarrow> string \<Rightarrow> string \<Rightarrow> string \<Rightarrow> SendMessageInput" where
  "send_input queueURL body messageGroupID messageDeduplicationID =
     \<lparr>sm_QueueUrl = queueURL, sm_MessageBody = body,
      sm_MessageGroupId = (if messageGroupID \<noteq> '''' then Some messageGroupID else None),
      sm_MessageDeduplicationId =
        (if HasSuffix queueURL ''.fifo'' \<and> messageDeduplicationID \<noteq> '''' then Some messageDeduplicationID else None)\<rparr>"

definition Client_SendMessage :: "aws \<Rightarrow> string \<Rightarrow> string \<Rightarrow> string \<Rightarrow> string \<Rightarrow> (node, gerr + unit) state" where
  "Client_SendMessage A queueURL body messageGroupID messageDeduplicationID =
     (if TrimSpace queueURL = '''' then fail (Text ''queue URL is required'')
      else if body = '''' then fail (Text ''message body is required'')
      else if HasSuffix queueURL ''.fifo'' \<and> TrimSpace messageGroupID = ''''
        then fail (Text ''message group ID is required for FIFO queues'')
      else bind_err (aws_SendMessage A (send_input queueURL body messageGroupID messageDeduplicationID))
             (Errorf ''send SQS message'') ok)"

section \<open>Waiting\<close>

definition ctx_Err :: "aws \<Rightarrow> bool act" where
  "ctx_Err A = do { k \<leftarrow> next_call; ret (aws_done A k) }"

text \<open>\<^verbatim>\<open>sleepContext\<close>: whether the context ended while waiting.\<close>

definition sleepContext :: "aws \<Rightarrow> bool act" where
  "sleepContext A = do { k \<leftarrow> next_call; ret (aws_done A k) }"

definition ctx_error :: "gerr \<Rightarrow> bool" where
  "ctx_error err \<longleftrightarrow> errors_is err ContextCanceled \<or> errors_is err ContextDeadlineExceeded"

section \<open>Lemmas\<close>

lemma wp_on_services: "wp (on_services m) Q n \<longleftrightarrow> wp m (\<lambda>x w. Q x (n\<lparr>nd_world := w\<rparr>)) (nd_world n)"
  by (simp add: on_services_def wp_State wp_def split: prod.splits)

lemma wp_next_call: "wp next_call Q n \<longleftrightarrow> Q (nd_calls n) (n\<lparr>nd_calls := Suc (nd_calls n)\<rparr>)"
  by (simp add: next_call_def wp_State)

lemma wp_ctx_Err: "wp (ctx_Err A) Q n \<longleftrightarrow> Q (aws_done A (nd_calls n)) (n\<lparr>nd_calls := Suc (nd_calls n)\<rparr>)"
  by (simp add: ctx_Err_def wp_rules wp_next_call)

lemma wp_sleepContext: "wp (sleepContext A) Q n \<longleftrightarrow> Q (aws_done A (nd_calls n)) (n\<lparr>nd_calls := Suc (nd_calls n)\<rparr>)"
  by (simp add: sleepContext_def wp_rules wp_next_call)

lemma wp_DeleteMessage:
  "wp (DeleteMessage A h) Q n \<longleftrightarrow>
     (let m = n\<lparr>nd_calls := Suc (nd_calls n)\<rparr>; m' = m\<lparr>nd_deleted := nd_deleted n @ [h]\<rparr> in
      case aws_delete A (nd_calls n) of
        None \<Rightarrow> Q (Inr ()) m'
      | Some flt \<Rightarrow> Q (Inl (flt_err flt)) (if flt_applied flt then m' else m))"
  by (simp add: DeleteMessage_def wp_rules wp_next_call wp_State Let_def split: option.splits)

lemma wp_aws_SendMessage:
  "wp (aws_SendMessage A i) Q n \<longleftrightarrow>
     (let m = n\<lparr>nd_calls := Suc (nd_calls n)\<rparr>; m' = m\<lparr>nd_sent := nd_sent n @ [i]\<rparr> in
      case aws_send A (nd_calls n) of
        None \<Rightarrow> Q (Inr ()) m'
      | Some flt \<Rightarrow> Q (Inl (flt_err flt)) (if flt_applied flt then m' else m))"
  by (simp add: aws_SendMessage_def wp_rules wp_next_call wp_State Let_def split: option.splits)

lemma wp_ReceiveMessage:
  "wp (ReceiveMessage A) Q n \<longleftrightarrow> Q (aws_receive A (nd_calls n)) (n\<lparr>nd_calls := Suc (nd_calls n)\<rparr>)"
  by (simp add: ReceiveMessage_def wp_rules wp_next_call)

lemmas act_rules = wp_on_services wp_ctx_Err wp_sleepContext wp_DeleteMessage wp_aws_SendMessage wp_ReceiveMessage

section \<open>A sample service\<close>

text \<open>The queue is empty, every call succeeds, and the context ends at the twentieth call.\<close>

definition sample_aws :: aws where
  "sample_aws = \<lparr>aws_receive = (\<lambda>_. Inr []), aws_send = (\<lambda>_. None), aws_delete = (\<lambda>_. None), aws_attributes = (\<lambda>_. None),
     aws_done = (\<lambda>k. 20 \<le> k), aws_jsonb = (\<lambda>ev. ''{}'')\<rparr>"

lemma sample_aws_ok: "aws_ok sample_aws"
  by (simp add: aws_ok_def sample_aws_def)

end
