(* ===== verification/Json_Text.thy ===== *)
theory Json_Text
  imports Domain_Events
begin

text \<open>
  Reading JSON, as \<^verbatim>\<open>encoding/json\<close> does for the bodies of HTTP requests and queue messages:
  the grammar with its limit on nesting, the decoding of strings, and the decoding of an object
  into a Go struct. The lemmas show that a text printed by \<open>json_map\<close> reads back as the map,
  so the text that is hashed for an idempotency key determines the request.
\<close>

section \<open>Values\<close>

datatype json =
    JNull
  | JBool bool
  | JNumber string
  | JString string
  | JArray "json list"
  | JObject "(string \<times> json) list"

section \<open>Strings\<close>

definition is_ws :: "char \<Rightarrow> bool" where
  "is_ws c \<longleftrightarrow> c = CHR '' '' \<or> c = CHR 0x09 \<or> c = CHR 0x0A \<or> c = CHR 0x0D"

definition skip_ws :: "string \<Rightarrow> string" where
  "skip_ws s = dropWhile is_ws s"

definition hex_val :: "char \<Rightarrow> nat option" where
  "hex_val c =
     (if 48 \<le> byte c \<and> byte c \<le> 57 then Some (byte c - 48)
      else if 97 \<le> byte c \<and> byte c \<le> 102 then Some (byte c - 87)
      else if 65 \<le> byte c \<and> byte c \<le> 70 then Some (byte c - 55)
      else None)"

fun hex4 :: "string \<Rightarrow> (nat \<times> string) option" where
  "hex4 (a # b # c # d # s) =
     (case (hex_val a, hex_val b, hex_val c, hex_val d) of
        (Some x, Some y, Some z, Some w) \<Rightarrow> Some (((x * 16 + y) * 16 + z) * 16 + w, s)
      | _ \<Rightarrow> None)"
| "hex4 _ = None"

definition utf8_encode :: "nat \<Rightarrow> string" where
  "utf8_encode n =
     (if n < 0x80 then [char_of n]
      else if n < 0x800 then [char_of (0xC0 + n div 64), char_of (0x80 + n mod 64)]
      else if n < 0x10000 then
        [char_of (0xE0 + n div 4096), char_of (0x80 + n div 64 mod 64), char_of (0x80 + n mod 64)]
      else
        [char_of (0xF0 + n div 262144), char_of (0x80 + n div 4096 mod 64), char_of (0x80 + n div 64 mod 64),
         char_of (0x80 + n mod 64)])"

definition replacement :: string where
  "replacement = [CHR 0xEF, CHR 0xBF, CHR 0xBD]"

definition surrogate :: "nat \<Rightarrow> bool" where
  "surrogate n \<longleftrightarrow> 0xD800 \<le> n \<and> n < 0xE000"

text \<open>
  The rune of \<^verbatim>\<open>\uXXXX\<close> at the front of a text, and the rest: a high surrogate takes the low one
  after it, any other surrogate is the replacement character.
\<close>

definition unescape_u :: "string \<Rightarrow> (string \<times> string) option" where
  "unescape_u s =
     (case hex4 s of
        None \<Rightarrow> None
      | Some (n, r) \<Rightarrow>
          if \<not> surrogate n then Some (utf8_encode n, r)
          else (case r of
                  a # b # r' \<Rightarrow>
                    (case hex4 r' of
                       Some (m, r'') \<Rightarrow>
                         if a = CHR 0x5C \<and> b = CHR ''u'' \<and> n < 0xDC00 \<and> 0xDC00 \<le> m \<and> m < 0xE000
                         then Some (utf8_encode (0x10000 + (n - 0xD800) * 1024 + (m - 0xDC00)), r'')
                         else Some (replacement, r)
                     | None \<Rightarrow> Some (replacement, r))
                | _ \<Rightarrow> Some (replacement, r)))"

definition unescape :: "char \<Rightarrow> string option" where
  "unescape c =
     (if c = CHR 0x22 \<or> c = CHR 0x5C \<or> c = CHR ''/'' then Some [c]
      else if c = CHR ''b'' then Some [CHR 0x08]
      else if c = CHR ''f'' then Some [CHR 0x0C]
      else if c = CHR ''n'' then Some [CHR 0x0A]
      else if c = CHR ''r'' then Some [CHR 0x0D]
      else if c = CHR ''t'' then Some [CHR 0x09]
      else None)"

text \<open>
  The string after its opening quote, decoded, and what follows its closing quote. Bytes that are
  not UTF-8 become the replacement character, one each; \<open>k\<close> bytes are copied as they are.
\<close>

function (sequential) parse_string :: "nat \<Rightarrow> string \<Rightarrow> (string \<times> string) option" where
  "parse_string k [] = None"
| "parse_string (Suc k) (c # s) = map_option (apfst ((#) c)) (parse_string k s)"
| "parse_string 0 (c # s) =
     (if c = CHR 0x22 then Some ([], s)
      else if byte c < 32 then None
      else if c = CHR 0x5C then
        (case s of
           [] \<Rightarrow> None
         | e # r \<Rightarrow>
             if e = CHR ''u'' then
               (case unescape_u r of
                  None \<Rightarrow> None
                | Some (t, r') \<Rightarrow>
                    if length r' < length r then map_option (apfst ((@) t)) (parse_string 0 r') else None)
             else (case unescape e of
                     None \<Rightarrow> None
                   | Some t \<Rightarrow> map_option (apfst ((@) t)) (parse_string 0 r)))
      else if byte c < 128 then map_option (apfst ((#) c)) (parse_string 0 s)
      else let n = utf8_len (c # s) in
        if n = 0 then map_option (apfst ((@) replacement)) (parse_string 0 s)
        else map_option (apfst ((#) c)) (parse_string (n - 1) s))"
  by pat_completeness auto
termination by (relation "measure (\<lambda>(k, s). length s)") auto

section \<open>Numbers and literals\<close>

definition digits1 :: "string \<Rightarrow> (string \<times> string) option" where
  "digits1 s = (let d = takeWhile is_digit s in if d = [] then None else Some (d, dropWhile is_digit s))"

definition parse_int :: "string \<Rightarrow> (string \<times> string) option" where
  "parse_int s =
     (case s of
        [] \<Rightarrow> None
      | c # r \<Rightarrow> if c = CHR ''0'' then Some ([c], r) else digits1 s)"

definition parse_frac :: "string \<Rightarrow> (string \<times> string) option" where
  "parse_frac s =
     (case s of
        c # r \<Rightarrow> if c = CHR ''.'' then map_option (apfst ((#) c)) (digits1 r) else Some ([], s)
      | [] \<Rightarrow> Some ([], s))"

definition parse_exp :: "string \<Rightarrow> (string \<times> string) option" where
  "parse_exp s =
     (case s of
        c # r \<Rightarrow>
          if c = CHR ''e'' \<or> c = CHR ''E'' then
            (case r of
               d # r' \<Rightarrow>
                 if d = CHR ''+'' \<or> d = CHR ''-'' then map_option (apfst (\<lambda>t. c # d # t)) (digits1 r')
                 else map_option (apfst ((#) c)) (digits1 r)
             | [] \<Rightarrow> None)
          else Some ([], s)
      | [] \<Rightarrow> Some ([], s))"

definition parse_number :: "string \<Rightarrow> (json \<times> string) option" where
  "parse_number s =
     (let (sign, r) = (case s of c # t \<Rightarrow> if c = CHR ''-'' then ([c], t) else ([], s) | [] \<Rightarrow> ([], s)) in
      case parse_int r of
        None \<Rightarrow> None
      | Some (i, r1) \<Rightarrow>
          (case parse_frac r1 of
             None \<Rightarrow> None
           | Some (f, r2) \<Rightarrow>
               (case parse_exp r2 of
                  None \<Rightarrow> None
                | Some (e, r3) \<Rightarrow> Some (JNumber (sign @ i @ f @ e), r3))))"

definition parse_literal :: "string \<Rightarrow> (json \<times> string) option" where
  "parse_literal s =
     (if HasPrefix s ''null'' then Some (JNull, drop 4 s)
      else if HasPrefix s ''true'' then Some (JBool True, drop 4 s)
      else if HasPrefix s ''false'' then Some (JBool False, drop 5 s)
      else None)"

section \<open>Values\<close>

text \<open>
  \<open>d\<close> is the number of arrays and objects that may still be opened; \<^verbatim>\<open>encoding/json\<close> allows 10000.
  The comparisons of lengths always hold: they make the recursion visible to the termination
  proof.
\<close>

function parse_value :: "nat \<Rightarrow> string \<Rightarrow> (json \<times> string) option"
  and parse_elements :: "nat \<Rightarrow> string \<Rightarrow> (json list \<times> string) option"
  and parse_members :: "nat \<Rightarrow> string \<Rightarrow> ((string \<times> json) list \<times> string) option" where
  "parse_value d s =
     (case skip_ws s of
        [] \<Rightarrow> None
      | c # r \<Rightarrow>
          if c = CHR 0x22 then map_option (apfst JString) (parse_string 0 r)
          else if c = CHR ''['' then
            (if d = 0 then None
             else case skip_ws r of
               [] \<Rightarrow> None
             | e # t \<Rightarrow>
                 if e = CHR '']'' then Some (JArray [], t)
                 else if length r < length s then map_option (apfst JArray) (parse_elements (d - 1) r)
                 else None)
          else if c = CHR ''{'' then
            (if d = 0 then None
             else case skip_ws r of
               [] \<Rightarrow> None
             | e # t \<Rightarrow>
                 if e = CHR ''}'' then Some (JObject [], t)
                 else if length r < length s then map_option (apfst JObject) (parse_members (d - 1) r)
                 else None)
          else if c = CHR ''-'' \<or> is_digit c then parse_number (c # r)
          else parse_literal (c # r))"
| "parse_elements d s =
     (case parse_value d s of
        None \<Rightarrow> None
      | Some (v, r) \<Rightarrow>
          (case skip_ws r of
             [] \<Rightarrow> None
           | c # t \<Rightarrow>
               if c = CHR '','' \<and> length t < length s then map_option (apfst ((#) v)) (parse_elements d t)
               else if c = CHR '']'' then Some ([v], t)
               else None))"
| "parse_members d s =
     (case skip_ws s of
        [] \<Rightarrow> None
      | q # k \<Rightarrow>
          if q \<noteq> CHR 0x22 then None
          else (case parse_string 0 k of
                  None \<Rightarrow> None
                | Some (key, r) \<Rightarrow>
                    (case skip_ws r of
                       [] \<Rightarrow> None
                     | c # t \<Rightarrow>
                         if c \<noteq> CHR '':'' \<or> \<not> length t < length s then None
                         else (case parse_value d t of
                                 None \<Rightarrow> None
                               | Some (v, r') \<Rightarrow>
                                   (case skip_ws r' of
                                      [] \<Rightarrow> None
                                    | e # u \<Rightarrow>
                                        if e = CHR '','' \<and> length u < length s
                                        then map_option (apfst ((#) (key, v))) (parse_members d u)
                                        else if e = CHR ''}'' then Some ([(key, v)], u)
                                        else None)))))"
  by pat_completeness auto
termination
  by (relation "measures [\<lambda>x. case x of Inl (_, s) \<Rightarrow> length s | Inr (Inl (_, s)) \<Rightarrow> length s | Inr (Inr (_, s)) \<Rightarrow> length s,
      \<lambda>x. case x of Inl _ \<Rightarrow> 0 | _ \<Rightarrow> 1]") auto

definition json_depth :: nat where
  "json_depth = 10000"

text \<open>
  \<^verbatim>\<open>json.Unmarshal\<close> wants one value and nothing else. A \<^verbatim>\<open>json.Decoder\<close> stops after the first value;
  one that is not an array or object has to be followed by white space or the end.
\<close>

definition json_text :: "string \<Rightarrow> json option" where
  "json_text s =
     (case parse_value json_depth s of
        Some (v, r) \<Rightarrow> if skip_ws r = [] then Some v else None
      | None \<Rightarrow> None)"

fun container :: "json \<Rightarrow> bool" where
  "container (JArray _) \<longleftrightarrow> True"
| "container (JObject _) \<longleftrightarrow> True"
| "container _ \<longleftrightarrow> False"

definition json_first :: "string \<Rightarrow> json option" where
  "json_first s =
     (case parse_value json_depth s of
        Some (v, r) \<Rightarrow> if container v \<or> r = [] \<or> is_ws (hd r) then Some v else None
      | None \<Rightarrow> None)"

section \<open>Structs\<close>

text \<open>
  Names of fields are compared exactly first, then folded as \<^verbatim>\<open>bytes.EqualFold\<close> does: against the
  names of the program's structs, which are ASCII, these are the upper-case letters, the Kelvin
  sign and the long s.
\<close>

definition fold_char :: "char \<Rightarrow> char" where
  "fold_char c = (if 65 \<le> byte c \<and> byte c \<le> 90 then char_of (byte c + 32) else c)"

fun fold_name :: "string \<Rightarrow> string" where
  "fold_name [] = []"
| "fold_name (a # s) =
     (if HasPrefix (a # s) [CHR 0xE2, CHR 0x84, CHR 0xAA] then CHR ''k'' # fold_name (drop 2 s)
      else if HasPrefix (a # s) [CHR 0xC5, CHR 0xBF] then CHR ''s'' # fold_name (drop 1 s)
      else fold_char a # fold_name s)"

text \<open>A field is its name and how a value is stored in it; the flag tells a mismatch of types.\<close>

type_synonym 's field = "string \<times> (json \<Rightarrow> 's \<Rightarrow> 's \<times> bool)"

definition find_field :: "'s field list \<Rightarrow> string \<Rightarrow> 's field option" where
  "find_field fs name =
     (case find (\<lambda>f. fst f = name) fs of
        Some f \<Rightarrow> Some f
      | None \<Rightarrow> find (\<lambda>f. fold_name (fst f) = fold_name name) fs)"

fun decode_members :: "'s field list \<Rightarrow> (string \<times> json) list \<Rightarrow> 's \<Rightarrow> 's \<times> bool" where
  "decode_members fs [] x = (x, False)"
| "decode_members fs ((name, v) # ms) x =
     (case find_field fs name of
        None \<Rightarrow> decode_members fs ms x
      | Some (_, put) \<Rightarrow>
          (let (x', bad) = put v x; (x'', bad') = decode_members fs ms x' in (x'', bad \<or> bad')))"

definition decode_struct :: "'s field list \<Rightarrow> json \<Rightarrow> 's \<Rightarrow> 's \<times> bool" where
  "decode_struct fs v x =
     (case v of
        JNull \<Rightarrow> (x, False)
      | JObject ms \<Rightarrow> decode_members fs ms x
      | _ \<Rightarrow> (x, True))"

definition text_field :: "string \<Rightarrow> ((string \<Rightarrow> string) \<Rightarrow> 's \<Rightarrow> 's) \<Rightarrow> 's field" where
  "text_field name upd = (name, \<lambda>v x.
     (case v of
        JNull \<Rightarrow> (x, False)
      | JString s \<Rightarrow> (upd (\<lambda>_. s) x, False)
      | _ \<Rightarrow> (x, True)))"

definition struct_field :: "string \<Rightarrow> 't field list \<Rightarrow> ('s \<Rightarrow> 't) \<Rightarrow> (('t \<Rightarrow> 't) \<Rightarrow> 's \<Rightarrow> 's) \<Rightarrow> 's field" where
  "struct_field name fs get upd = (name, \<lambda>v x.
     (let (y, bad) = decode_struct fs v (get x) in (upd (\<lambda>_. y) x, bad)))"

text \<open>The value read into \<open>x\<close>, or \<open>None\<close> for an error, of syntax or of types.\<close>

definition unmarshal :: "'s field list \<Rightarrow> json option \<Rightarrow> 's \<Rightarrow> 's option" where
  "unmarshal fs j x =
     (case j of
        None \<Rightarrow> None
      | Some v \<Rightarrow> (case decode_struct fs v x of (y, bad) \<Rightarrow> if bad then None else Some y))"

section \<open>Printed strings read back\<close>

text \<open>What the printer makes of a text: bytes that are not UTF-8 are replaced.\<close>

fun to_utf8 :: "nat \<Rightarrow> string \<Rightarrow> string" where
  "to_utf8 k [] = []"
| "to_utf8 (Suc k) (c # s) = c # to_utf8 k s"
| "to_utf8 0 (c # s) =
     (if byte c < 128 then c # to_utf8 0 s
      else let n = utf8_len (c # s) in
        if n = 0 then replacement @ to_utf8 0 s else c # to_utf8 (n - 1) s)"

lemma utf8_len_le: "utf8_len s \<le> length s"
  by (induction s rule: utf8_len.induct) auto

lemma utf8_len_range: "utf8_len s = 0 \<or> 2 \<le> utf8_len s \<and> utf8_len s \<le> 4"
  by (induction s rule: utf8_len.induct) auto

lemma utf8_len_first: "utf8_len (c # s) \<noteq> 0 \<Longrightarrow> 0xC2 \<le> byte c"
  by (cases "c # s" rule: utf8_len.cases) (auto split: if_splits)

lemma utf8_len_prefix:
  "utf8_len s = n \<Longrightarrow> n \<noteq> 0 \<Longrightarrow> utf8_len (take n s @ u) = n"
proof (induction s rule: utf8_len.induct)
  case (1 a b c d s)
  then show ?case by (cases u; cases "tl u"; cases "tl (tl u)") (auto split: if_splits simp: eval_nat_numeral)
next
  case (2 a b c)
  then show ?case by (cases u; cases "tl u"; cases "tl (tl u)") (auto split: if_splits simp: eval_nat_numeral)
next
  case (3 a b)
  then show ?case by (cases u; cases "tl u"; cases "tl (tl u)") (auto split: if_splits simp: eval_nat_numeral)
qed auto

lemma hex_val_hex_digit: "n < 16 \<Longrightarrow> hex_val (hex_digit n) = Some n"
  by (auto simp: hex_val_def hex_digit_def byte_def)

lemma byte_char_of [simp]: "n < 256 \<Longrightarrow> byte (char_of n) = n"
  by (simp add: byte_def)

lemma char_of_byte [simp]: "char_of (byte c) = c"
  by (simp add: byte_def)

lemma byte_less: "byte c < 256"
  by (simp add: byte_def)

lemma unescape_byte:
  assumes "byte c < 128"
  shows "unescape_u (CHR ''0'' # CHR ''0'' # hex_digit (byte c div 16) # hex_digit (byte c mod 16) # s) = Some ([c], s)"
proof -
  have h: "hex_val CHR ''0'' = Some 0" by (simp add: hex_val_def byte_def)
  have "hex4 (CHR ''0'' # CHR ''0'' # hex_digit (byte c div 16) # hex_digit (byte c mod 16) # s) = Some (byte c, s)"
    using assms by (simp add: h hex_val_hex_digit)
  then show ?thesis using assms by (simp add: unescape_u_def surrogate_def utf8_encode_def)
qed

lemma byte_inj: "byte c = byte d \<longleftrightarrow> c = d"
  by (simp add: byte_def)

lemma parse_ascii:
  assumes "byte c < 128"
  shows "parse_string 0 (json_ascii c @ r) = map_option (apfst ((#) c)) (parse_string 0 r)"
proof -
  have esc: "c = CHR 0x08" if "byte c = 8" using that byte_inj [of c "CHR 0x08"] by (simp add: byte_def)
  have esc2: "c = CHR 0x0C" if "byte c = 12" using that byte_inj [of c "CHR 0x0C"] by (simp add: byte_def)
  have esc3: "c = CHR 0x0A" if "byte c = 10" using that byte_inj [of c "CHR 0x0A"] by (simp add: byte_def)
  have esc4: "c = CHR 0x0D" if "byte c = 13" using that byte_inj [of c "CHR 0x0D"] by (simp add: byte_def)
  have esc5: "c = CHR 0x09" if "byte c = 9" using that byte_inj [of c "CHR 0x09"] by (simp add: byte_def)
  have bs: "byte CHR 0x5C = 92" by (simp add: byte_def)
  show ?thesis
    using assms esc esc2 esc3 esc4 esc5 unescape_byte [OF assms, of r]
    by (auto simp: json_ascii_def unescape_def bs fun_eq_iff intro!: arg_cong [where f = "\<lambda>f. map_option f _"])
qed

lemma char_codes:
  "char_of (239 :: nat) = CHR 0xEF" "char_of (191 :: nat) = CHR 0xBF" "char_of (189 :: nat) = CHR 0xBD"
  "char_of (226 :: nat) = CHR 0xE2" "char_of (128 :: nat) = CHR 0x80" "char_of (168 :: nat) = CHR 0xA8"
  "char_of (169 :: nat) = CHR 0xA9"
  by code_simp+

lemma parse_fffd: "parse_string 0 (CHR 0x5C # ''ufffd'' @ r) = map_option (apfst ((@) replacement)) (parse_string 0 r)"
proof -
  have "unescape_u (''fffd'' @ r) = Some (replacement, r)"
    by (simp add: unescape_u_def hex_val_def byte_def surrogate_def utf8_encode_def replacement_def char_codes)
  then show ?thesis by (simp add: byte_def)
qed

lemma parse_line_separator:
  "parse_string 0 (CHR 0x5C # ''u2028'' @ r) = map_option (apfst ((@) [CHR 0xE2, CHR 0x80, CHR 0xA8])) (parse_string 0 r)"
  "parse_string 0 (CHR 0x5C # ''u2029'' @ r) = map_option (apfst ((@) [CHR 0xE2, CHR 0x80, CHR 0xA9])) (parse_string 0 r)"
proof -
  have "unescape_u (''2028'' @ r) = Some ([CHR 0xE2, CHR 0x80, CHR 0xA8], r)"
    "unescape_u (''2029'' @ r) = Some ([CHR 0xE2, CHR 0x80, CHR 0xA9], r)"
    by (simp_all add: unescape_u_def hex_val_def byte_def surrogate_def utf8_encode_def char_codes)
  then show "parse_string 0 (CHR 0x5C # ''u2028'' @ r) = map_option (apfst ((@) [CHR 0xE2, CHR 0x80, CHR 0xA8])) (parse_string 0 r)"
    "parse_string 0 (CHR 0x5C # ''u2029'' @ r) = map_option (apfst ((@) [CHR 0xE2, CHR 0x80, CHR 0xA9])) (parse_string 0 r)"
    by (simp_all add: byte_def)
qed

lemma json_chars_copy: "k \<le> length s \<Longrightarrow> json_chars k s = take k s @ json_chars 0 (drop k s)"
proof (induction k arbitrary: s)
  case (Suc k)
  then show ?case by (cases s) auto
qed simp

lemma to_utf8_copy: "k \<le> length s \<Longrightarrow> to_utf8 k s = take k s @ to_utf8 0 (drop k s)"
proof (induction k arbitrary: s)
  case (Suc k)
  then show ?case by (cases s) auto
qed simp

lemma parse_copy:
  "k \<le> length s \<Longrightarrow> parse_string k (take k s @ r) = map_option (apfst ((@) (take k s))) (parse_string 0 r)"
proof (induction k arbitrary: s)
  case 0
  then show ?case by (cases "parse_string 0 r") auto
next
  case (Suc k)
  then show ?case by (cases s) (auto simp: option.map_comp apfst_compose comp_def)
qed

lemma apfst_append: "map_option (apfst ((@) x)) (map_option (apfst ((@) y)) m) = map_option (apfst ((@) (x @ y))) m"
  by (cases m) auto

lemma apfst_Cons: "map_option (apfst ((#) c)) m = map_option (apfst ((@) [c])) m"
  by (cases m) auto

lemma parse_utf8:
  assumes "128 \<le> byte c" and n: "utf8_len (c # s) = n" "n \<noteq> 0"
  shows "parse_string 0 (c # take (n - 1) s @ r) = map_option (apfst ((@) (c # take (n - 1) s))) (parse_string 0 r)"
proof -
  have le: "n - 1 \<le> length s" using utf8_len_le [of "c # s"] n by simp
  have "utf8_len (c # take (n - 1) s @ r) = n"
    using utf8_len_prefix [OF n, of r] n(2) by (cases n) auto
  moreover have "c \<noteq> CHR 0x22" "c \<noteq> CHR 0x5C" using assms(1) by (auto simp: byte_def)
  ultimately show ?thesis
    using assms by (simp add: Let_def parse_copy [OF le, unfolded One_nat_def] apfst_Cons apfst_append)
qed

lemmas parse_string_simps = parse_string.simps
declare parse_string.simps [simp del]

lemma parse_json_chars:
  "parse_string 0 (json_chars 0 s @ r) = map_option (apfst ((@) (to_utf8 0 s))) (parse_string 0 r)"
proof (induction "length s" arbitrary: s rule: less_induct)
  case less
  show ?case
  proof (cases s)
    case Nil
    then show ?thesis by (cases "parse_string 0 r") auto
  next
    case (Cons c t)
    let ?n = "utf8_len (c # t)"
    have IH: "parse_string 0 (json_chars 0 u @ r) = map_option (apfst ((@) (to_utf8 0 u))) (parse_string 0 r)"
      if "length u < length s" for u using less that by blast
    consider (ascii) "byte c < 128" | (bad) "128 \<le> byte c" "?n = 0"
      | (ls) "128 \<le> byte c" "?n \<noteq> 0" "take 3 (c # t) = [CHR 0xE2, CHR 0x80, CHR 0xA8]"
      | (ps) "128 \<le> byte c" "?n \<noteq> 0" "take 3 (c # t) = [CHR 0xE2, CHR 0x80, CHR 0xA9]"
      | (rune) "128 \<le> byte c" "?n \<noteq> 0" "take 3 (c # t) \<noteq> [CHR 0xE2, CHR 0x80, CHR 0xA8]"
          "take 3 (c # t) \<noteq> [CHR 0xE2, CHR 0x80, CHR 0xA9]"
      by linarith
    then show ?thesis
    proof cases
      case ascii
      then show ?thesis
        using IH [of t] Cons by (simp add: parse_ascii apfst_Cons apfst_append)
    next
      case bad
      then show ?thesis
        using IH [of t] Cons parse_fffd [of "json_chars 0 t @ r"] by (simp add: Let_def apfst_append)
    next
      case ls
      then obtain u where t: "c = CHR 0xE2" "t = CHR 0x80 # CHR 0xA8 # u" by (cases t; cases "tl t") auto
      have "?n = 3" by (cases u) (simp_all add: t byte_def cont_def)
      then have "json_chars 0 s = CHR 0x5C # ''u2028'' @ json_chars 0 u" "to_utf8 0 s = [CHR 0xE2, CHR 0x80, CHR 0xA8] @ to_utf8 0 u"
        using ls Cons t by (simp_all add: Let_def numeral_2_eq_2)
      then show ?thesis
        using IH [of u] Cons t parse_line_separator(1) [of "json_chars 0 u @ r"] by (simp add: apfst_append)
    next
      case ps
      then obtain u where t: "c = CHR 0xE2" "t = CHR 0x80 # CHR 0xA9 # u" by (cases t; cases "tl t") auto
      have "?n = 3" by (cases u) (simp_all add: t byte_def cont_def)
      then have "json_chars 0 s = CHR 0x5C # ''u2029'' @ json_chars 0 u" "to_utf8 0 s = [CHR 0xE2, CHR 0x80, CHR 0xA9] @ to_utf8 0 u"
        using ps Cons t by (simp_all add: Let_def numeral_2_eq_2)
      then show ?thesis
        using IH [of u] Cons t parse_line_separator(2) [of "json_chars 0 u @ r"] by (simp add: apfst_append)
    next
      case rune
      have le: "?n - 1 \<le> length t" using utf8_len_le [of "c # t"] by simp
      have "parse_string 0 (json_chars 0 s @ r) =
          parse_string 0 (c # take (?n - 1) t @ json_chars 0 (drop (?n - 1) t) @ r)"
        using rune Cons by (auto simp: Let_def json_chars_copy [OF le, unfolded One_nat_def])
      also have "\<dots> = map_option (apfst ((@) (c # take (?n - 1) t))) (parse_string 0 (json_chars 0 (drop (?n - 1) t) @ r))"
        using rune by (intro parse_utf8) auto
      also have "\<dots> = map_option (apfst ((@) (to_utf8 0 s))) (parse_string 0 r)"
        using rune Cons IH [of "drop (?n - 1) t"] by (simp add: Let_def apfst_append to_utf8_copy [OF le, unfolded One_nat_def])
      finally show ?thesis .
    qed
  qed
qed

lemma parse_json_string: "parse_string 0 (tl (json_string s) @ r) = Some (to_utf8 0 s, r)"
  by (simp add: json_string_def parse_json_chars) (simp add: parse_string_simps)

lemma skip_ws_Cons [simp]: "\<not> is_ws c \<Longrightarrow> skip_ws (c # s) = c # s"
  by (simp add: skip_ws_def)

lemma not_ws [simp]:
  "\<not> is_ws CHR 0x22" "\<not> is_ws CHR '':''" "\<not> is_ws CHR '',''" "\<not> is_ws CHR ''{''" "\<not> is_ws CHR ''}''"
  by (simp_all add: is_ws_def)

lemma json_string_Cons: "json_string s = CHR 0x22 # tl (json_string s)"
  by (simp add: json_string_def)

lemma parse_value_string: "parse_value d (json_string s @ r) = Some (JString (to_utf8 0 s), r)"
  by (subst json_string_Cons) (simp add: parse_json_string)

text \<open>The members of a printed map, as they read back.\<close>

definition read_members :: "(string \<times> string) list \<Rightarrow> (string \<times> json) list" where
  "read_members kvs = map (\<lambda>(k, v). (to_utf8 0 k, JString (to_utf8 0 v))) kvs"

lemma parse_json_members:
  "kvs \<noteq> [] \<Longrightarrow> parse_members d (json_members kvs @ CHR ''}'' # r) = Some (read_members kvs, r)"
proof (induction kvs rule: json_members.induct)
  case (2 k v)
  have "parse_members d (CHR 0x22 # tl (json_string k) @ CHR '':'' # json_string v @ CHR ''}'' # r) =
      Some (read_members [(k, v)], r)"
    by (simp add: parse_json_string parse_value_string read_members_def del: parse_value.simps)
  then show ?case using json_string_Cons [of k] by (metis append.assoc append_Cons append_Nil json_members.simps(2))
next
  case (3 k v kv kvs)
  have IH: "parse_members d (json_members (kv # kvs) @ CHR ''}'' # r) = Some (read_members (kv # kvs), r)"
    using 3 by simp
  have "parse_members d (CHR 0x22 # tl (json_string k) @ CHR '':'' # json_string v @ CHR '','' #
        json_members (kv # kvs) @ CHR ''}'' # r) = Some (read_members ((k, v) # kv # kvs), r)"
    using IH by (subst parse_members.simps)
      (simp add: parse_json_string parse_value_string read_members_def del: parse_value.simps parse_members.simps)
  then show ?case using json_string_Cons [of k] by (metis append.assoc append_Cons append_Nil json_members.simps(3))
qed simp

lemma json_members_first: "kvs \<noteq> [] \<Longrightarrow> \<exists>t. json_members kvs = CHR 0x22 # t"
  by (induction kvs rule: json_members.induct) (auto simp: json_string_def)

lemma json_map_reads_back:
  assumes "kvs \<noteq> []"
  shows "json_text (json_map kvs) = Some (JObject (read_members (sort_key fst kvs)))"
proof -
  have ne: "sort_key fst kvs \<noteq> []" using assms by (metis length_0_conv length_sort)
  obtain t where t: "json_members (sort_key fst kvs) = CHR 0x22 # t" using json_members_first [OF ne] ..
  note m = parse_json_members [OF ne, of 9999 "[]"]
  have "parse_value json_depth (json_map kvs) = Some (JObject (read_members (sort_key fst kvs)), [])"
    using m by (subst parse_value.simps) (simp add: json_map_def t json_depth_def del: parse_members.simps)
  then show ?thesis by (simp add: json_text_def skip_ws_def del: parse_value.simps)
qed

lemma to_utf8_Nil [simp]: "to_utf8 0 s = [] \<longleftrightarrow> s = []"
  by (cases s) (auto simp: Let_def replacement_def)

lemma to_utf8_ascii: "list_all (\<lambda>c. byte c < 128) s \<Longrightarrow> to_utf8 0 s = s"
  by (induction s) auto

declare to_utf8.simps [simp del]

lemma member_read_back:
  assumes "json_map kvs = json_map kvs'" and "(k, v) \<in> set kvs" and "kvs' \<noteq> []"
  shows "\<exists>k' v'. (k', v') \<in> set kvs' \<and> to_utf8 0 k' = to_utf8 0 k \<and> to_utf8 0 v' = to_utf8 0 v"
proof -
  have "kvs \<noteq> []" using assms(2) by auto
  then have "read_members (sort_key fst kvs) = read_members (sort_key fst kvs')"
    using assms(1,3) json_map_reads_back by (metis json.inject(5) option.inject)
  then have "set (read_members (sort_key fst kvs)) = set (read_members (sort_key fst kvs'))" by simp
  then have "(\<lambda>(k, v). (to_utf8 0 k, JString (to_utf8 0 v))) ` set kvs =
      (\<lambda>(k, v). (to_utf8 0 k, JString (to_utf8 0 v))) ` set kvs'"
    unfolding read_members_def set_map set_sort .
  then have "(\<lambda>(k, v). (to_utf8 0 k, JString (to_utf8 0 v))) (k, v) \<in> (\<lambda>(k, v). (to_utf8 0 k, JString (to_utf8 0 v))) ` set kvs'"
    using imageI [OF assms(2)] by metis
  then show ?thesis by fastforce
qed

section \<open>Properties\<close>



end
