(* ===== verification/Wager_Resolution.thy ===== *)
theory Wager_Resolution
  imports Wager_Handlers
begin

text \<open>
  \<^verbatim>\<open>ResolvePendingReference\<close> against the specification: whatever fails on the way, a parked
  transaction is settled, dismissed, postponed, or postponed and then dismissed.
\<close>

section \<open>Updates of one transaction row\<close>

text \<open>\<open>parked_in E d r i\<close>: the row \<open>r\<close> waits under the identifier \<open>i\<close>.\<close>

definition parked_in :: "env \<Rightarrow> db \<Rightarrow> tx_row \<Rightarrow> string \<Rightarrow> bool" where
  "parked_in E d r i \<longleftrightarrow> r \<in> set (db_txs d) \<and> tr_status r = PENDING_REFERENCE \<and> tr_id r = i \<and> canonical E i \<and>
     distinct (map tr_id (db_txs d))"

lemma find_by_id:
  "distinct (map tr_id rs) \<Longrightarrow> r \<in> set rs \<Longrightarrow> find (\<lambda>x. tr_id x = tr_id r) rs = Some r"
  by (induction rs) (auto simp: image_iff)

lemma wp_update_row:
  assumes "w_txs w t = OpenTx d s" and "distinct (map tr_id (db_txs d))" and "r \<in> set (db_txs d)" and "canonical E (tr_id r)"
    and keeps: "\<And>n r'. f (stmt_ctx E s n) r = Inr r' \<Longrightarrow> tr_id r' = tr_id r"
    and err: "\<And>e w'. w_db w' = w_db w \<Longrightarrow> w_txs w' t = AbortedTx \<or> w_txs w' t = OpenTx d s \<or>
        (\<exists>n r'. f (stmt_ctx E s n) r = Inr r' \<and> w_txs w' t = OpenTx (set_tx_row r' d) s) \<Longrightarrow> Q (Inl e) w'"
    and ok: "\<And>n r' w'. w_db w' = w_db w \<Longrightarrow> f (stmt_ctx E s n) r = Inr r' \<Longrightarrow>
        tx_constraints r' (filter (\<lambda>x. tr_id x \<noteq> tr_id r) (db_txs d)) (db_wallets d) = None \<Longrightarrow>
        w_txs w' t = OpenTx (set_tx_row r' d) s \<Longrightarrow> Q (Inr 1) w'"
  shows "wp (tx_stmt E t (as_uuid (tr_id r) (\<lambda>u. update_tx u f))) Q w"
proof -
  have run: "\<exists>r'. f (stmt_ctx E s n) r = Inr r' \<and> x = 1 \<and> d' = set_tx_row r' d \<and>
      tx_constraints r' (filter (\<lambda>x. tr_id x \<noteq> tr_id r) (db_txs d)) (db_wallets d) = None"
    if "as_uuid (tr_id r) (\<lambda>u. update_tx u f) (stmt_ctx E s n) d = Inr (x, d')" for n x d'
    using that assms(4) find_by_id [OF assms(2,3)] keeps
    by (auto simp: as_uuid_Inr update_tx_Inr set_tx_row_def)
  show ?thesis
  proof (rule wp_tx_stmt [OF assms(1)], goal_cases)
    case (1 e w' n)
    then show ?case using run unfolding left_tx_def by (intro err) (assumption, blast)
  next
    case (2 x d' w' n)
    then show ?case using run [OF 2(2)] ok by blast
  qed
qed

lemma wp_UpdateStatusTx:
  assumes "w_txs w t = OpenTx d s" and "distinct (map tr_id (db_txs d))" and "r \<in> set (db_txs d)" and "canonical E (tr_id r)"
    and "\<And>e w'. w_db w' = w_db w \<Longrightarrow> Q (Inl e) w'"
    and "\<And>w'. w_db w' = w_db w \<Longrightarrow> w_txs w' t = OpenTx (set_tx_row (set_status st (nullString code) s r) d) s \<Longrightarrow> Q (Inr ()) w'"
  shows "wp (TxRepo_UpdateStatusTx E t (tr_id r) st code) Q w"
  unfolding TxRepo_UpdateStatusTx_def sql_update_status_def wp_bind_err
  by (rule wp_update_row [OF assms(1-4)]) (auto simp: wp_ret intro!: assms(5,6))

lemma wp_SetInternalReferenceTx:
  assumes "w_txs w t = OpenTx d s" and "distinct (map tr_id (db_txs d))" and "r \<in> set (db_txs d)" and "canonical E (tr_id r)"
    and "\<And>e w'. w_db w' = w_db w \<Longrightarrow> Q (Inl e) w'"
    and "\<And>w'. w_db w' = w_db w \<Longrightarrow>
      tx_constraints (set_reference ref s r) (filter (\<lambda>x. tr_id x \<noteq> tr_id r) (db_txs d)) (db_wallets d) = None \<Longrightarrow>
      w_txs w' t = OpenTx (set_tx_row (set_reference ref s r) d) s \<Longrightarrow> Q (Inr ()) w'"
  shows "wp (TxRepo_SetInternalReferenceTx E t (tr_id r) ref) Q w"
  unfolding TxRepo_SetInternalReferenceTx_def sql_set_internal_reference_def wp_bind_err
  by (rule wp_update_row [OF assms(1-4)]) (auto simp: wp_ret set_reference_def intro!: assms(5,6))

section \<open>Counting an attempt, rejecting\<close>

lemma wp_count_attempt:
  assumes "w_txs w t = OpenTx d s" and "parked_in E d r (tx_id tx)"
    and Q: "\<And>w'. w_db w' = w_db w \<or> w_db w' = d \<or> (\<exists>now. w_db w' = set_tx_row (next_attempt now r) d) \<Longrightarrow> Q () w'"
  shows "wp (count_attempt E t tx) Q w"
proof -
  have p: "distinct (map tr_id (db_txs d))" "r \<in> set (db_txs d)" "canonical E (tr_id r)" "tx_id tx = tr_id r"
    using assms(2) by (auto simp: parked_in_def)
  have commit: "wp (tx_Commit E t) (\<lambda>_. Q ()) w'"
    if "w_db w' = w_db w" "w_txs w' t = AbortedTx \<or> w_txs w' t = OpenTx d s \<or>
        (\<exists>now. w_txs w' t = OpenTx (set_tx_row (next_attempt now r) d) s)" for w'
    using that(2)
  proof (elim disjE exE)
    assume "w_txs w' t = AbortedTx"
    then show ?thesis using that(1) by (intro wp_Commit_dead Q) auto
  next
    assume "w_txs w' t = OpenTx d s"
    then show ?thesis by (rule wp_Commit) (use that(1) Q in auto)
  next
    fix now
    assume "w_txs w' t = OpenTx (set_tx_row (next_attempt now r) d) s"
    then show ?thesis by (rule wp_Commit) (use that(1) Q in auto)
  qed
  show ?thesis
    unfolding count_attempt_def TxRepo_IncrementRefAttemptsTx_def sql_increment_ref_attempts_def wp_bind wp_bind_err wp_ret p(4)
    by (rule wp_update_row [OF assms(1) p(1-3)]) (auto simp: wp_ret intro!: commit split: if_splits)
qed

lemma wp_reject_row:
  assumes "w_txs w t = OpenTx d s" and "parked_in E d r (tx_id tx)"
    and Q: "\<And>x w'. w_db w' = w_db w \<or> db_step sep (canonical E) d (w_db w') \<Longrightarrow> Q x w'"
  shows "wp (reject_row E t tx code) Q w"
proof -
  have p: "distinct (map tr_id (db_txs d))" "r \<in> set (db_txs d)" "canonical E (tr_id r)" "tx_id tx = tr_id r"
    using assms(2) by (auto simp: parked_in_def)
  let ?r = "set_status REJECTED (nullString code) s r"
  show ?thesis
    unfolding reject_row_def wp_bind_err p(4)
  proof (rule wp_UpdateStatusTx [OF assms(1) p(1-3)], goal_cases)
    case (1 e w1)
    then show ?case by (auto intro: Q)
  next
    case (2 w1)
    show ?case
      unfolding sum.case wp_bind_err
    proof (rule wp_emit [OF 2(2)], goal_cases)
      case (1 e w2)
      then show ?case using 2 by (auto intro: Q)
    next
      case (2 o0 w2)
      have "announced (status_event REJECTED) ?r [o0]"
        using outbox_announces [OF 2(3), of ?r] p by simp
      then have "db_step sep (canonical E) d (add_events [o0] (set_tx_row ?r d))"
        using assms(2) by (intro db_step.dismiss) (auto simp: parked_in_def)
      then show ?case
        unfolding sum.case wp_bind_err
        by (intro wp_Commit [OF 2(2)]) (use 2 \<open>w_db w1 = w_db w\<close> in \<open>auto simp: wp_ret intro!: Q\<close>)
    qed
  qed
qed

lemma wp_resolveRejectTx:
  assumes "w_txs w t = OpenTx d s" and "parked_in E d r (tx_id tx)"
    and Q: "\<And>x w'. w_db w' = w_db w \<or> db_step sep (canonical E) d (w_db w') \<Longrightarrow> Q x w'"
  shows "wp (resolveRejectTx E t tx code) Q w"
  unfolding resolveRejectTx_def wp_bind
proof (rule wp_set_failure, rule wp_transition, goal_cases)
  case (1 n w1 n1 n2 w2)
  then have w2: "w_txs w2 t = OpenTx d s" "w_db w2 = w_db w" using assms(1) by (simp_all add: quiet_def)
  show ?case
    unfolding wp_bind_err
    by (rule wp_reject_row [OF w2(1)])
      (use assms(2) w2(2) in \<open>auto simp: quiet_def split: sum.split intro!: Q wp_rejected_result\<close>)
qed

lemma wp_resolveRejectInPlace:
  assumes "parked_in E (w_db w) r (tx_id tx)"
    and Q: "\<And>x w'. w_db w' = w_db w \<or> db_step sep (canonical E) (w_db w) (w_db w') \<Longrightarrow> Q x w'"
  shows "wp (resolveRejectInPlace E tx code) Q w"
  unfolding resolveRejectInPlace_def wp_bind
proof (rule wp_set_failure, rule wp_transition, goal_cases)
  case (1 n w1 n1 n2 w2)
  then have w2: "w_db w2 = w_db w" by (simp add: quiet_def)
  show ?case
    unfolding wp_bind_err
  proof (rule wp_Begin, goal_cases)
    case (1 e w')
    then show ?case using w2 by (auto simp: quiet_def intro!: Q)
  next
    case (2 t w3 s)
    show ?case
      unfolding sum.case wp_defer_Rollback wp_bind_err
      by (rule wp_reject_row [OF 2(2)])
        (use assms(1) w2 2 in \<open>auto simp: quiet_def split: sum.split intro!: Q wp_rejected_result\<close>)
  qed
qed

lemma wp_resolve_wallet_error:
  assumes "parked_in E (w_db w) r (tx_id tx)"
    and Q: "\<And>x w'. w_db w' = w_db w \<or> db_step sep (canonical E) (w_db w) (w_db w') \<Longrightarrow> Q x w'"
  shows "wp (resolve_wallet_error E t tx err) Q w"
  unfolding resolve_wallet_error_def wp_bind wp_Rollback
proof (rule wp_set_failure, goal_cases)
  case (1 n w1)
  then have w1: "w_db w1 = w_db w" by (simp add: quiet_def)
  show ?case
    unfolding wp_bind_err
  proof (rule wp_Begin, goal_cases)
    case (1 e w')
    then show ?case using w1 by (auto simp: quiet_def intro!: Q)
  next
    case (2 t' w3 s)
    show ?case
      unfolding sum.case wp_defer_Rollback wp_bind_err
      by (rule wp_reject_row [OF 2(2)]) (use assms(1) w1 2 in \<open>auto simp: wp_ret split: sum.split intro!: Q\<close>)
  qed
qed

section \<open>Settling\<close>

lemma ledger_constraints_txs:
  "tr_id ` set ts = tr_id ` set ts' \<Longrightarrow>
   ledger_constraints l ls ts ws = None \<longleftrightarrow> ledger_constraints l ls ts' ws = None"
proof -
  have "(\<exists>t \<in> set ts. tr_id t = u) \<longleftrightarrow> u \<in> tr_id ` set ts" for ts :: "tx_row list" and u by auto
  then show "tr_id ` set ts = tr_id ` set ts' \<Longrightarrow> ?thesis" by (simp add: ledger_constraints_None)
qed

lemma ids_set_tx_row: "tr_id ` set (db_txs (set_tx_row r d)) = tr_id ` set (db_txs d)"
  using map_replace_id [of tr_id r "tr_id r" "db_txs d"] by (metis image_set table_simps(13))

lemma set_tx_row_twice: "tr_id r' = tr_id r \<Longrightarrow> set_tx_row r' (set_tx_row r d) = set_tx_row r' d"
  by (simp add: set_tx_row_def replace_id_def)

text \<open>\<open>settles d r ref dir\<close>: the parked row \<open>r\<close> can be settled by reversing \<open>ref\<close> in direction \<open>dir\<close>.\<close>

definition settles :: "db \<Rightarrow> tx_row \<Rightarrow> tx_row \<Rightarrow> Direction \<Rightarrow> bool" where
  "settles d r ref dir \<longleftrightarrow> ref \<in> set (db_txs d) \<and> tr_status ref = PROCESSED \<and> tr_wallet_id ref = tr_wallet_id r \<and>
     tr_amount ref = tr_amount r \<and> tr_provider ref = tr_provider r \<and>
     (tr_transaction_type r = REFUND \<or> tr_transaction_type r = ROLLBACK) \<and>
     reversal_direction (tr_transaction_type r) (tr_transaction_type ref) = Some dir"

lemma settle_step:
  assumes "parked_in E d r i" and "settles d r ref dir" and "wr \<in> set (db_wallets d)" and "wr_id wr = tr_wallet_id r"
    and "\<not> clash reversal_of (settled (tr_id ref) s r) (filter (\<lambda>x. tr_id x \<noteq> tr_id r) (db_txs d))"
    and "entry_row E (tr_wallet_id r) (tr_id r) dir (tr_amount r) cur (wr_balance wr) (lr_balance_after l) l"
    and "canonical E (tr_wallet_id r)"
    and "ledger_constraints l (db_ledger d) (db_txs (set_tx_row (settled (tr_id ref) s r) d)) (db_wallets d) = None"
    and "announced (status_event PROCESSED) (settled (tr_id ref) s r) evs"
  shows "db_step sep (canonical E) d (add_events evs (add_ledger l (set_tx_row (settled (tr_id ref) s r)
      (set_wallet (wr_id wr) (with_balance wr (lr_balance_after l) s) d))))"
proof (rule db_step.settle [where r = r and ref = "tr_id ref" and dir = dir])
  show "r \<in> set (db_txs d)" "tr_status r = PENDING_REFERENCE" using assms(1) by (simp_all add: parked_in_def)
  show "movement (db_txs d) (settled (tr_id ref) s r) dir"
    using assms(2) by (auto simp: movement_def settles_def reverses_def)
  have "reversal_of (settled (tr_id ref) s r) = Some (tr_id ref)"
    using assms(2) by (auto simp: reversal_of_def settles_def)
  then have "reversal_of x \<noteq> Some (tr_id ref)" if "x \<in> set (db_txs d)" "tr_id x \<noteq> tr_id r" for x
    using assms(5) that by (auto simp: clash_def list_ex_iff)
  moreover have "reversal_of x = None" if "x \<in> set (db_txs d)" "tr_id x = tr_id r" for x
    using assms(1) that row_unique [of tr_id "db_txs d" x r] by (auto simp: parked_in_def reversal_of_def)
  ultimately show "list_all (\<lambda>x. reversal_of x \<noteq> Some (tr_id ref)) (db_txs d)" by (force simp: list_all_iff)
  show "entry_for wr (settled (tr_id ref) s r) dir l"
    using assms(1,4,6,7) by (auto simp: entry_for_def entry_row_def parked_in_def)
  show "ledger_constraints l (db_ledger d) (db_txs d) (db_wallets d) = None"
    using assms(8) ledger_constraints_txs [OF ids_set_tx_row] by blast
qed (fact assms(3,9) refl)+

lemma events_announce:
  assumes "list_all2 (outbox_for E) (buildTransactionEvents tx dir amount b0 b1 v) rs" and "tx_id tx = tr_id r"
    and "canonical E (tr_id r)"
  shows "announced (status_event PROCESSED) r rs"
proof -
  have "SetID (tr_id r) tx = tx" using assms(2) by (simp add: SetID_def)
  then show ?thesis using build_events_announce [of E r tx dir amount b0 b1 v rs] assms by simp
qed

lemma wp_resolve_commit:
  assumes "env_ok E" and "w_txs w t = OpenTx d1 s" and "parked_in E d r (tx_id tx)" and "settles d r ref dir"
    and tx: "tx_of_row r = Inr tx" and ref: "tx_id refTx = tr_id ref" and c: "canonical E (tr_wallet_id r)"
    and ch: "changed E d (tr_wallet_id r) (tx_amount tx) dir s wr b d1"
    and Q: "\<And>x w'. w_db w' = w_db w \<or> db_step sep (canonical E) d (w_db w') \<Longrightarrow> Q x w'"
  shows "wp (resolve_commit E t tx refTx dir (tx_amount tx) \<lparr>money_amount = wr_balance wr, money_currency = BRL\<rparr> b v) Q w"
proof -
  have d1: "d1 = set_wallet (wr_id wr) (with_balance wr (money_amount b) s) d"
    and wr: "wr \<in> set (db_wallets d)" "wr_id wr = tr_wallet_id r"
    using ch c wallet_at_mem [of E d "tr_wallet_id r" wr] by (auto simp: changed_def wallet_at_def)
  have p: "distinct (map tr_id (db_txs d1))" "r \<in> set (db_txs d1)" "canonical E (tr_id r)" "tx_id tx = tr_id r"
    using assms(3) by (auto simp: parked_in_def d1)
  have f: "tx_walletID tx = tr_wallet_id r" "money_amount (tx_amount tx) = tr_amount r"
    using tx_of_row_Inr [OF tx] by (simp_all add: RehydrateTransaction_def)
  let ?r1 = "set_status PROCESSED None s r"
  let ?r2 = "settled (tr_id ref) s r"
  have r2: "set_reference (tr_id ref) s ?r1 = ?r2" by (simp add: settled_def)
  show ?thesis
    unfolding resolve_commit_def wp_bind ref
  proof (rule wp_set_reference_id, rule wp_transition, goal_cases)
    case (1 n w1 n1 n2 w2)
    let ?tx = "TransitionTo_stmt n1 n2 PROCESSED (SetResultBalance b (SetInternalReference n (tr_id ref) tx))"
    have w2: "w_txs w2 t = OpenTx d1 s" "w_db w2 = w_db w" using 1 assms(2) by (simp_all add: quiet_def)
    have i: "tx_id ?tx = tr_id r" "tx_walletID ?tx = tr_wallet_id r"
      using p(4) f by (simp_all add: SetResultBalance_def SetInternalReference_def TransitionTo_stmt_cases)
    show ?case
      unfolding wp_bind_err i
    proof (rule wp_UpdateStatusTx [OF w2(1) p(1-3)], goal_cases)
      case (1 e w3)
      then show ?case using w2 by (auto intro: Q)
    next
      case (2 w3)
      have p2: "distinct (map tr_id (db_txs (set_tx_row ?r1 d1)))" "?r1 \<in> set (db_txs (set_tx_row ?r1 d1))"
          "canonical E (tr_id ?r1)"
        using p by (auto simp: map_replace_id set_replace_id)
      from 2 have w3: "w_txs w3 t = OpenTx (set_tx_row ?r1 d1) s" "w_db w3 = w_db w"
        using w2 by (simp_all add: nullString_def)
      have id1: "tr_id r = tr_id ?r1" by simp
      show ?case
        unfolding sum.case wp_bind_err id1
      proof (rule wp_SetInternalReferenceTx [OF w3(1) p2], goal_cases)
        case (1 e w4)
        then show ?case using w3 by (auto intro: Q)
      next
        case (2 w4)
        have w4: "w_txs w4 t = OpenTx (set_tx_row ?r2 d1) s" "w_db w4 = w_db w"
          using 2(1,3) w3(2) by (simp_all add: r2 set_tx_row_twice)
        have nc: "\<not> clash reversal_of ?r2 (filter (\<lambda>x. tr_id x \<noteq> tr_id r) (db_txs d))"
          using 2(2) by (simp add: r2 tx_constraints_None d1 replace_id_def clash_def list_ex_iff) (use p in auto)
        show ?case
          unfolding sum.case wp_bind_err set_status_simps
        proof (rule wp_CreateWalletLedgerEntryTx [OF w4(1)], goal_cases)
          case (1 e w5)
          then show ?case using w4 by (auto intro: Q)
        next
          case (2 l w5)
          have lc: "ledger_constraints l (db_ledger d) (db_txs (set_tx_row ?r2 d)) (db_wallets d) = None"
            using 2(4) constraints_wallets(2) [OF changed_wallets(1) [OF ch]] by (simp add: d1)
          have b: "lr_balance_after l = money_amount b" using 2(3) by (simp add: entry_row_def)
          have en: "entry_row E (tr_wallet_id r) (tr_id r) dir (tr_amount r) (money_currency (tx_amount tx))
              (wr_balance wr) (lr_balance_after l) l"
            using 2(3) f by (simp add: b)
          show ?case
            unfolding sum.case wp_bind_err
          proof (rule wp_emit_all [OF 2(2)], goal_cases)
            case (1 e w6)
            then show ?case using 2 w4 by (auto intro: Q)
          next
            case (2 rs w6)
            have "announced (status_event PROCESSED) ?r2 rs"
              using events_announce [OF 2(3)] i(1) p(3) by simp
            from settle_step [OF assms(3,4) wr nc en c lc this]
            have st: "db_step sep (canonical E) d (add_events rs (add_ledger l (set_tx_row ?r2 d1)))" unfolding d1 b .
            have w6: "w_db w6 = w_db w" using 2(1) \<open>w_db w5 = w_db w4\<close> w4(2) by simp
            show ?case
              unfolding sum.case wp_bind_err
              by (rule wp_Commit [OF 2(2)]; unfold sum.case wp_ret; rule Q) (use st w6 in metis)+
          qed
        qed
      qed
    qed
  qed
qed

section \<open>Resolving\<close>

lemma parked_reference:
  assumes "db_inv sep U d" and "r \<in> set (db_txs d)" and "tr_status r = PENDING_REFERENCE" and "tx_of_row r = Inr tx"
    and "found_reference d tx rr ref"
  shows "tr_wallet_id rr = tr_wallet_id r" "tr_provider rr = tr_provider r"
proof -
  have tx: "tx_provider tx = coalesce (tr_provider r)" "tx_externalReference tx = coalesce (tr_external_reference r)"
    using tx_of_row_Inr [OF assms(4)] by (simp_all add: RehydrateTransaction_def)
  obtain x where x: "reference_of d r = Some x" "parked_behind r x"
    using assms(1-3) unfolding db_inv_def parked_inv_def by blast
  then have "x = rr"
    using assms(5) tx by (auto simp: reference_of_def found_reference_def external_row_def coalesce_def split: if_splits)
  then show "tr_wallet_id rr = tr_wallet_id r" "tr_provider rr = tr_provider r"
    using x(2) by (simp_all add: parked_behind_def)
qed

lemma change_service:
  "(if dir = DEBIT then WalletService_Debit E t i a else WalletService_Credit E t i a) = applyBalanceChange E t i a dir"
  if "dir = DEBIT \<or> dir = CREDIT"
  using that by (auto simp: WalletService_Debit_def WalletService_Credit_def)

lemma wp_resolve_processed:
  assumes "env_ok E" and inv: "db_inv sep (canonical E) (w_db w)" and opened: "w_txs w t = OpenTx (w_db w) s"
    and p: "parked_in E (w_db w) r (tx_id tx)" and tx: "tx_of_row r = Inr tx" and ref: "found_reference (w_db w) tx rr ref"
    and st: "tx_status ref = PROCESSED"
    and Q: "\<And>x w'. w_db w' = w_db w \<or> db_step sep (canonical E) (w_db w) (w_db w') \<Longrightarrow> Q x w'"
  shows "wp (resolve_processed E t tx ref) Q w"
proof -
  have r: "r \<in> set (db_txs (w_db w))" "tr_status r = PENDING_REFERENCE" using p by (simp_all add: parked_in_def)
  have f: "tx_walletID tx = tr_wallet_id r" "tx_amount tx = \<lparr>money_amount = tr_amount r, money_currency = BRL\<rparr>"
      "tx_transactionType tx = tr_transaction_type r"
    using tx_of_row_Inr [OF tx] by (simp_all add: RehydrateTransaction_def)
  note rr = found_reference_row [OF ref] parked_reference [OF inv r tx ref]
  have c: "canonical E (tr_wallet_id r)" and keys: "keys_inv (w_db w)"
    using inv r(1) by (auto simp: db_inv_def ids_inv_def)
  show ?thesis
    unfolding resolve_processed_def wp_bind
  proof (rule wp_has_reversal, goal_cases)
    case (1 h w1)
    then have w1: "w_txs w1 t = OpenTx (w_db w) s" "w_db w1 = w_db w" using opened by (simp_all add: quiet_def)
    have rej: "wp (resolveRejectTx E t tx code) Q w1" for code
      by (rule wp_resolveRejectTx [OF w1(1) p]) (use w1(2) in \<open>auto intro: Q\<close>)
    show ?case
    proof (cases "reversal_direction (tx_transactionType tx) (tx_transactionType ref)")
      case None
      then show ?thesis using rej by (simp split: option.split)
    next
      case (Some dir)
      note dir = reversal_direction_cases [OF Some]
      have move: "wp (applyBalanceChange E (Some t) (tx_walletID tx) (tx_amount tx) dir) (\<lambda>change. wp (case change of
            Inl err \<Rightarrow> resolve_wallet_error E t tx err
          | Inr (balBefore, balAfter, walletVersion) \<Rightarrow>
              resolve_commit E t tx ref dir (tx_amount tx) balBefore balAfter walletVersion) Q) w1"
        if am: "tr_amount rr = tr_amount r"
      proof (rule wp_WalletService_change [OF assms(1) keys w1(1) dir], goal_cases)
        case (1 e w2)
        then show ?case
          unfolding sum.case by (intro wp_resolve_wallet_error Q) (use p w1 in auto)
      next
        case (2 wr b d1 w2)
        have "settles (w_db w) r rr dir"
          using rr st Some am f unfolding settles_def
          by (auto simp: reversal_direction_def split: TransactionType.splits)
        then show ?case
          unfolding sum.case prod.case
          by (rule wp_resolve_commit [OF assms(1) 2(2) p _ tx rr(4) c 2(3) [unfolded f(1)]])
            (use 2(1) w1(2) in \<open>auto intro: Q\<close>)
      qed
      have "validateReversalValue (tx_amount tx) ref = None \<longleftrightarrow> tr_amount rr = tr_amount r"
        using validateReversalValue_amount [OF ref] f(2) by simp
      then show ?thesis
        using rej move Some
        by (simp add: wp_bind change_service [OF dir] split: option.split)
    qed
  qed
qed

lemma next_attempt_parked:
  assumes "parked_in E d r i"
  shows "parked_in E (set_tx_row (next_attempt now r) d) (next_attempt now r) i"
  using assms by (auto simp: parked_in_def map_replace_id set_replace_id)

lemma wp_resolve_claimed:
  assumes "env_ok E" and inv: "db_inv sep (canonical E) (w_db w)" and opened: "w_txs w t = OpenTx (w_db w) s"
    and p: "parked_in E (w_db w) r (tx_id tx)" and tx: "tx_of_row r = Inr tx"
    and Q: "\<And>x w'. db_steps sep (canonical E) (w_db w) (w_db w') \<Longrightarrow> Q x w'"
  shows "wp (resolve_claimed E t tx) Q w"
proof -
  let ?d = "w_db w"
  have cur: "currency_inv ?d" using inv by (simp add: db_inv_def)
  have one: "Q x w'" if "w_db w' = ?d \<or> db_step sep (canonical E) ?d (w_db w')" for x w'
    using that by (auto intro: Q)
  have at: "tx_refAttempts tx = tr_ref_attempts r"
    using tx_of_row_Inr [OF tx] by (simp add: RehydrateTransaction_def)
  have rej: "wp (resolveRejectTx E t tx code) Q w'" if "quiet w w'" for code w'
    using that opened by (intro wp_resolveRejectTx [OF _ p, where s = s] one) (auto simp: quiet_def)
  have attempt: "wp (count_attempt E t tx) Q' w'"
    if "quiet w w'" "tr_ref_attempts r < 10"
      "\<And>w''. w_db w'' = ?d \<or> db_step sep (canonical E) ?d (w_db w'') \<Longrightarrow> \<exists>r'. parked_in E (w_db w'') r' (tx_id tx) \<Longrightarrow> Q' () w''"
    for Q' w'
  proof (rule wp_count_attempt [OF _ p, where s = s], goal_cases)
    case 1
    then show ?case using that(1) opened by (simp add: quiet_def)
  next
    case (2 w'')
    have "db_step sep (canonical E) ?d (set_tx_row (next_attempt now r) ?d)" for now
      using p that(2) by (intro db_step.postpone) (auto simp: parked_in_def)
    moreover have "w_db w'' = ?d \<or> (\<exists>now. w_db w'' = set_tx_row (next_attempt now r) ?d)"
      using 2 that(1) by (auto simp: quiet_def)
    ultimately show ?case using p next_attempt_parked [OF p] by (intro that(3)) metis+
  qed
  have in_place: "wp (resolveRejectInPlace E tx code) Q w'"
    if "w_db w' = ?d \<or> db_step sep (canonical E) ?d (w_db w')" "\<exists>r'. parked_in E (w_db w') r' (tx_id tx)" for w' code
  proof -
    from that(2) obtain r' where "parked_in E (w_db w') r' (tx_id tx)" ..
    then show ?thesis
      by (rule wp_resolveRejectInPlace) (use that(1) in \<open>auto intro!: Q intro: converse_rtranclp_into_rtranclp\<close>)
  qed
  show ?thesis
  proof (cases "maxRefAttempts \<le> tx_refAttempts tx")
    case True
    then show ?thesis using rej [OF quiet_refl] by (simp add: resolve_claimed_def)
  next
    case False
    then have lt: "tr_ref_attempts r < 10" by (simp add: at maxRefAttempts_def)
    show ?thesis
      unfolding resolve_claimed_def if_not_P [OF False] wp_bind
    proof (rule wp_find_reference [OF cur], goal_cases)
      case (1 e w')
      then show ?case
        using lt by (auto simp: wp_rules quiet_def intro!: one attempt in_place)
    next
      case (2 e w')
      then show ?case using lt by (auto simp: wp_bind intro!: attempt in_place)
    next
      case (3 rr ref w')
      have w': "w_db w' = ?d" "w_txs w' t = OpenTx ?d s" using 3(1) opened by (simp_all add: quiet_def)
      have proc: "tx_status ref = PROCESSED \<Longrightarrow> wp (resolve_processed E t tx ref) Q w'"
        using wp_resolve_processed [OF assms(1), of sep w' t s r tx rr ref Q] inv p tx 3(2) w' one by simp
      have in_place': "wp (resolveRejectInPlace E tx code) Q w'" for code
        using w' p by (intro in_place) auto
      show ?case
        unfolding sum.case
        using rej [OF 3(1)] proc in_place' lt 3(1)
        by (auto simp: wp_rules intro!: attempt wp_count_metric one simp: quiet_db)
    qed
  qed
qed

lemma wp_FindByID_tx:
  assumes "\<And>e w'. quiet w w' \<Longrightarrow> Q (Inl e) w'"
    and "\<And>r u tx w'. quiet w w' \<Longrightarrow> env_uuid E i = Some u \<Longrightarrow> find (\<lambda>r. tr_id r = u) (db_txs (w_db w)) = Some r \<Longrightarrow>
      tx_of_row r = Inr tx \<Longrightarrow> Q (Inr tx) w'"
  shows "wp (TxRepo_FindByID E i) Q w"
  unfolding TxRepo_FindByID_def wp_bind_err
proof (rule wp_pool_select, goal_cases)
  case (1 c x d')
  then show ?case by (rule select_only(1))
next
  case (2 e w' n)
  then show ?case by (auto intro: assms(1))
next
  case (3 x w' n)
  then obtain u where u: "env_uuid E i = Some u" "x = find (\<lambda>r. tr_id r = u) (db_txs (w_db w))"
    by (auto simp: sql_select_tx_by_id_def sql_select_tx_def as_uuid_Inr)
  show ?case
  proof (cases x)
    case None
    then show ?thesis using 3(1) by (auto simp: wp_ret scanTransaction_def intro!: assms(1))
  next
    case (Some r)
    then show ?thesis
      using 3(1) u by (cases "tx_of_row r") (auto simp: wp_ret scanTransaction_def intro!: assms(1) intro: assms(2) [OF _ u(1)])
  qed
qed

text \<open>
  Resolving makes specified changes only: nothing, one of \<open>settle\<close>, \<open>dismiss\<close> and \<open>postpone\<close>, or \<open>postpone\<close> and
  then \<open>dismiss\<close>.
\<close>

lemma wp_ResolvePendingReference:
  assumes "env_ok E" and inv: "db_inv sep (canonical E) (w_db w)"
    and Q: "\<And>x w'. db_steps sep (canonical E) (w_db w) (w_db w') \<Longrightarrow> Q x w'"
  shows "wp (ResolvePendingReference E i) Q w"
  unfolding ResolvePendingReference_def wp_bind_err
proof (rule wp_FindByID_tx, goal_cases)
  case (1 e w')
  then show ?case by (auto simp: quiet_def intro!: Q)
next
  case (2 r u tx w1)
  have r: "r \<in> set (db_txs (w_db w))" "tr_id r = u" using 2(3) by (auto simp: find_Some_iff)
  have tx: "tx_id tx = tr_id r" "tx_status tx = tr_status r"
    using tx_of_row_Inr [OF 2(4)] by (simp_all add: RehydrateTransaction_def)
  have u: "canonical E u" using env_ok_uuid [OF assms(1) 2(2)] by simp
  have same: "Q x w'" if "w_db w' = w_db w" for x w' using that by (intro Q) simp
  show ?case
  proof (cases "tx_status tx = PENDING_REFERENCE")
    case False
    then show ?thesis using 2(1) same by (simp add: wp_ret quiet_def)
  next
    case True
    have p: "parked_in E (w_db w) r (tx_id tx)"
      using r tx u True inv by (auto simp: parked_in_def db_inv_def keys_inv_def)
    have "wp (bind_err (TxManager_Begin E) (Errorf ''begin resolve transaction'') (\<lambda>t. defer_Rollback t (
       bind_err (TxRepo_ClaimPendingReferenceTx E t i) (Errorf ''claim pending reference'') (\<lambda>claimed.
       if \<not> claimed then do { _ \<leftarrow> tx_Rollback t; ok (service_result tx no_money) }
       else resolve_claimed E t tx)))) Q w1"
      unfolding wp_bind_err
    proof (rule wp_Begin, goal_cases)
      case (1 e w')
      then show ?case using 2(1) by (auto simp: quiet_def intro!: same)
    next
      case (2 t w2 s)
      have w2: "w_db w2 = w_db w" "w_txs w2 t = OpenTx (w_db w) s" using 2 \<open>quiet w w1\<close> by (simp_all add: quiet_def)
      show ?case
        unfolding sum.case wp_defer_Rollback TxRepo_ClaimPendingReferenceTx_def wp_bind wp_bind_err
      proof (rule wp_tx_stmt [OF w2(2)], goal_cases)
        case (1 e w3 n)
        then show ?case using w2 by (auto simp: wp_rules intro!: same)
      next
        case (2 x d' w3 n)
        have w3: "w_db w3 = w_db w" "w_txs w3 t = OpenTx (w_db w3) s"
          using 2 w2 select_only(6) [OF 2(2)] by simp_all
        have "wp (resolve_claimed E t tx) (\<lambda>x w''. Q x (set_tx t ClosedTx w'')) w3"
          by (rule wp_resolve_claimed [OF assms(1) _ w3(2)]) (use inv p \<open>tx_of_row r = Inr tx\<close> w3(1) Q in auto)
        then show ?case using w3 by (auto simp: wp_rules split: option.split intro!: same)
      qed
    qed
    then show ?thesis using True by (simp add: wp_bind_err)
  qed
qed

end
