(* ===== verification/Queue_Workers.thy ===== *)
theory Queue_Workers
  imports Queue_Client Json_Text Wager_Resolution
begin

text \<open>
  The workers of \<^verbatim>\<open>internal/adapters/workers\<close>: the consumer of wager transactions
  (\<^verbatim>\<open>wager_sqs_worker.go\<close>), the publisher of the outbox (\<^verbatim>\<open>outbox_publisher.go\<close>) and the worker that
  resolves parked references (\<^verbatim>\<open>reference_worker.go\<close>). Logging is left out. A polling loop gets
  as fuel the number of rounds it may start; \<open>None\<close> is a loop that is still running.
\<close>

section \<open>The SQS consumer\<close>

record JobEnvelope =
  je_MessageID :: string
  je_Type :: string
  je_OccurredAt :: string
  je_Data :: Request

definition MoneyDTO_fields :: "MoneyDTO field list" where
  "MoneyDTO_fields = [text_field ''Amount'' dto_Amount_update, text_field ''Currency'' dto_Currency_update]"

definition Request_fields :: "Request field list" where
  "Request_fields =
     [text_field ''providerId'' rq_ProviderID_update,
      text_field ''externalTransactionId'' rq_ExternalTransactionID_update,
      text_field ''playerId'' rq_PlayerID_update,
      text_field ''walletId'' rq_WalletID_update,
      text_field ''roundId'' rq_RoundID_update,
      text_field ''gameId'' rq_GameID_update,
      text_field ''kind'' rq_Kind_update,
      struct_field ''money'' MoneyDTO_fields rq_Money rq_Money_update,
      text_field ''referenceExternalTransactionId'' rq_ReferenceExternalID_update,
      text_field ''idempotencyKey'' rq_IdempotencyKey_update]"

definition JobEnvelope_fields :: "JobEnvelope field list" where
  "JobEnvelope_fields =
     [text_field ''messageId'' je_MessageID_update,
      text_field ''type'' je_Type_update,
      text_field ''occurredAt'' je_OccurredAt_update,
      struct_field ''data'' Request_fields je_Data je_Data_update]"

definition empty_request :: Request where
  "empty_request = \<lparr>rq_ProviderID = '''', rq_ExternalTransactionID = '''', rq_PlayerID = '''', rq_WalletID = '''',
     rq_RoundID = '''', rq_GameID = '''', rq_Kind = '''', rq_Money = \<lparr>dto_Amount = '''', dto_Currency = ''''\<rparr>,
     rq_ReferenceExternalID = '''', rq_IdempotencyKey = ''''\<rparr>"

definition empty_envelope :: JobEnvelope where
  "empty_envelope = \<lparr>je_MessageID = '''', je_Type = '''', je_OccurredAt = '''', je_Data = empty_request\<rparr>"

definition read_envelope :: "string \<Rightarrow> JobEnvelope option" where
  "read_envelope body = unmarshal JobEnvelope_fields (json_text body) empty_envelope"

definition awsStringValue :: "string option \<Rightarrow> string" where
  "awsStringValue v = (case v of None \<Rightarrow> '''' | Some s \<Rightarrow> s)"

definition buildIdempotencyKey :: "Request \<Rightarrow> string" where
  "buildIdempotencyKey req =
     (if rq_ProviderID req = '''' then rq_ExternalTransactionID req
      else rq_ProviderID req @ '':'' @ rq_ExternalTransactionID req)"

definition envelope_key :: "Request \<Rightarrow> string" where
  "envelope_key req = (if rq_IdempotencyKey req = '''' then buildIdempotencyKey req else rq_IdempotencyKey req)"

definition deleteMessage :: "aws \<Rightarrow> string option \<Rightarrow> unit act" where
  "deleteMessage A receiptHandle = do { _ \<leftarrow> DeleteMessage A receiptHandle; ret () }"

definition message_id :: "sqs_message \<Rightarrow> JobEnvelope \<Rightarrow> string" where
  "message_id message envelope =
     (if awsStringValue (msg_MessageId message) = '''' then je_MessageID envelope
      else awsStringValue (msg_MessageId message))"

definition processMessage :: "env \<Rightarrow> aws \<Rightarrow> sqs_message \<Rightarrow> unit act" where
  "processMessage E A message =
     (case read_envelope (awsStringValue (msg_Body message)) of
        None \<Rightarrow> deleteMessage A (msg_ReceiptHandle message)
      | Some envelope \<Rightarrow> do {
          result \<leftarrow> on_services (ProcessTransaction E (je_Data envelope) (envelope_key (je_Data envelope))
            (message_id message envelope));
          (case result of
             Inl err \<Rightarrow>
               if ctx_error err then ret ()
               else if IsTerminalBusinessError err then deleteMessage A (msg_ReceiptHandle message)
               else ret ()
           | Inr _ \<Rightarrow> deleteMessage A (msg_ReceiptHandle message))
        })"

text \<open>\<^verbatim>\<open>Process\<close>, which takes the body alone.\<close>

definition SQSWorker_Process :: "env \<Rightarrow> string \<Rightarrow> unit go" where
  "SQSWorker_Process E body =
     (case read_envelope body of
        None \<Rightarrow> fail (Text ''invalid envelope'')
      | Some envelope \<Rightarrow>
          bind_err (ProcessTransaction E (je_Data envelope) (envelope_key (je_Data envelope)) (je_MessageID envelope))
            (Errorf ''process request'') (\<lambda>_. ok ()))"

text \<open>The loop over a batch; \<open>True\<close> when the context ended.\<close>

fun each :: "aws \<Rightarrow> ('x \<Rightarrow> unit act) \<Rightarrow> 'x list \<Rightarrow> bool act" where
  "each A f [] = ret False"
| "each A f (x # xs) = do {
     stop \<leftarrow> ctx_Err A;
     (if stop then ret True else do { _ \<leftarrow> f x; each A f xs })
   }"

text \<open>
  The shape that the three \<^verbatim>\<open>Start\<close> methods share: stop when the context is done; fetch; on an
  error of the context stop, on another one wait and start over; handle the batch; wait.
\<close>

fun poll :: "nat \<Rightarrow> aws \<Rightarrow> (node, gerr + 'x list) state \<Rightarrow> ('x list \<Rightarrow> unit act) \<Rightarrow> ('x \<Rightarrow> unit act) \<Rightarrow> unit option act" where
  "poll 0 A fetch noted f = ret None"
| "poll (Suc k) A fetch noted f = do {
     stop \<leftarrow> ctx_Err A;
     (if stop then ret (Some ())
      else do {
        batch \<leftarrow> fetch;
        (case batch of
           Inl err \<Rightarrow>
             if ctx_error err then ret (Some ())
             else do {
               stop \<leftarrow> sleepContext A;
               (if stop then ret (Some ()) else poll k A fetch noted f)
             }
         | Inr xs \<Rightarrow> do {
             _ \<leftarrow> noted xs;
             stop \<leftarrow> each A f xs;
             (if stop then ret (Some ())
              else do {
                stop \<leftarrow> sleepContext A;
                (if stop then ret (Some ()) else poll k A fetch noted f)
              })
           })
      })
   }"

definition WagerSQSWorker_Start :: "nat \<Rightarrow> env \<Rightarrow> aws \<Rightarrow> unit option act" where
  "WagerSQSWorker_Start k E A = poll k A (ReceiveMessage A) (\<lambda>_. ret ()) (processMessage E A)"

section \<open>The reference worker\<close>

text \<open>\<^verbatim>\<open>processPending\<close> only logs the result.\<close>

definition processPending :: "env \<Rightarrow> Transaction \<Rightarrow> unit act" where
  "processPending E transaction = do { _ \<leftarrow> on_services (ResolvePendingReference E (tx_id transaction)); ret () }"

definition ReferenceWorker_Start :: "nat \<Rightarrow> env \<Rightarrow> aws \<Rightarrow> unit option act" where
  "ReferenceWorker_Start k E A =
     poll k A (on_services (TxRepo_FindPendingReferences E 10)) (\<lambda>_. ret ()) (processPending E)"

section \<open>The outbox publisher\<close>

definition maxAttempts :: int where
  "maxAttempts = 5"

definition SQSPublishFunc :: "aws \<Rightarrow> string \<Rightarrow> string \<Rightarrow> string \<Rightarrow> string \<Rightarrow> string \<Rightarrow> (node, gerr + unit) state" where
  "SQSPublishFunc A queueURL eventType aggregateType aggregateID body =
     Client_SendMessage A queueURL body (aggregateType @ ''-'' @ aggregateID) (eventType @ ''-'' @ aggregateID)"

text \<open>The text of a payload as the database returns it; a missing payload is empty.\<close>

definition payload_text :: "aws \<Rightarrow> payload \<Rightarrow> string" where
  "payload_text A p = (case p of None \<Rightarrow> '''' | Some ev \<Rightarrow> aws_jsonb A ev)"

definition publish :: "env \<Rightarrow> aws \<Rightarrow> string \<Rightarrow> OutboxEvent \<Rightarrow> unit act" where
  "publish E A queueURL event =
     (if maxAttempts \<le> oe_Attempts event then
        on_services (count_metric (\<lambda>m. m\<lparr>mt_dlq := Suc (mt_dlq m)\<rparr>))
      else do {
        stop \<leftarrow> ctx_Err A;
        (if stop then ret ()
         else do {
           sent \<leftarrow> SQSPublishFunc A queueURL (oe_EventType event) (oe_AggregateType event) (oe_AggregateID event)
             (payload_text A (oe_Payload event));
           (case sent of
              Inl err \<Rightarrow>
                if ctx_error err then ret ()
                else do { _ \<leftarrow> on_services (OutboxRepo_IncrementAttempts E (oe_ID event) (Error err)); ret () }
            | Inr _ \<Rightarrow> do { _ \<leftarrow> on_services (OutboxRepo_MarkPublished E (oe_ID event)); ret () })
         })
      })"

definition OutboxPublisher_Start :: "nat \<Rightarrow> env \<Rightarrow> aws \<Rightarrow> string \<Rightarrow> unit option act" where
  "OutboxPublisher_Start k E A queueURL =
     poll k A (on_services (OutboxRepo_FindPending E 10))
       (\<lambda>events. on_services (count_metric (\<lambda>m. m\<lparr>mt_pending := length events\<rparr>)))
       (publish E A queueURL)"

section \<open>The contract of a polling worker\<close>

text \<open>
  \<open>I\<close> is an invariant of the worker's state and \<open>P\<close> a property of the items that fetching
  establishes; fetching, noting and handling such an item keep \<open>I\<close> and never undo a call. Then
  polling keeps the invariant and stops once the context is done.
\<close>

locale polling =
  fixes A :: aws
    and fetch :: "(node, gerr + 'x list) state"
    and noted :: "'x list \<Rightarrow> unit act"
    and f :: "'x \<Rightarrow> unit act"
    and I :: "node \<Rightarrow> bool"
    and P :: "'x \<Rightarrow> bool"
  assumes fetch_keeps: "I n \<Longrightarrow> wp fetch (\<lambda>b n'. I n' \<and> nd_calls n \<le> nd_calls n' \<and> (\<forall>xs. b = Inr xs \<longrightarrow> list_all P xs)) n"
    and noted_keeps: "I n \<Longrightarrow> wp (noted xs) (\<lambda>_ n'. I n' \<and> nd_calls n \<le> nd_calls n') n"
    and handler_keeps: "I n \<Longrightarrow> P x \<Longrightarrow> wp (f x) (\<lambda>_ n'. I n' \<and> nd_calls n \<le> nd_calls n') n"
    and calls_free: "I n \<Longrightarrow> I (n\<lparr>nd_calls := k\<rparr>)"
begin

lemma each_keeps: "I n \<Longrightarrow> list_all P xs \<Longrightarrow> wp (each A f xs) (\<lambda>_ n'. I n' \<and> nd_calls n \<le> nd_calls n') n"
proof (induction xs arbitrary: n)
  case Nil
  then show ?case by (simp add: wp_ret)
next
  case (Cons x xs)
  let ?n = "n\<lparr>nd_calls := Suc (nd_calls n)\<rparr>"
  have I: "I ?n" using Cons.prems(1) by (rule calls_free)
  have x: "P x" and xs: "list_all P xs" using Cons.prems(2) by simp_all
  have "wp (f x) (\<lambda>_ n'. wp (each A f xs) (\<lambda>_ n''. I n'' \<and> nd_calls n \<le> nd_calls n'') n') ?n"
  proof (rule wp_mono [OF handler_keeps [OF I x]], goal_cases)
    case (1 u n')
    then have "wp (each A f xs) (\<lambda>_ n''. I n'' \<and> nd_calls n' \<le> nd_calls n'') n'" using xs by (intro Cons.IH) simp_all
    then show ?case by (rule wp_mono) (use 1 in auto)
  qed
  with I show ?case by (simp add: wp_bind wp_ctx_Err wp_if wp_ret)
qed

lemma poll_keeps: "I n \<Longrightarrow> wp (poll k A fetch noted f) (\<lambda>_ n'. I n' \<and> nd_calls n \<le> nd_calls n') n"
proof (induction k arbitrary: n)
  case 0
  then show ?case by (simp add: wp_ret)
next
  case (Suc k)
  let ?n = "n\<lparr>nd_calls := Suc (nd_calls n)\<rparr>"
  let ?Q = "\<lambda>_ n'. I n' \<and> nd_calls n \<le> nd_calls n'"
  have next0: "wp (do { stop \<leftarrow> sleepContext A; (if stop then ret (Some ()) else poll k A fetch noted f) }) ?Q n'"
    if "I n'" "nd_calls n \<le> nd_calls n'" for n'
  proof -
    have "I (n'\<lparr>nd_calls := Suc (nd_calls n')\<rparr>)" using that(1) by (rule calls_free)
    then show ?thesis
      using that Suc.IH [of "n'\<lparr>nd_calls := Suc (nd_calls n')\<rparr>"]
      by (auto simp: wp_bind wp_sleepContext wp_if wp_ret elim!: wp_mono)
  qed
  have I: "I ?n" using Suc.prems by (rule calls_free)
  have batch: "wp (do { _ \<leftarrow> noted xs; stop \<leftarrow> each A f xs; (if stop then ret (Some ()) else do {
      stop \<leftarrow> sleepContext A; (if stop then ret (Some ()) else poll k A fetch noted f) }) }) ?Q n'"
    if n': "I n'" "nd_calls n \<le> nd_calls n'" and xs: "list_all P xs" for xs n'
    unfolding wp_bind [of "noted xs"]
  proof (rule wp_mono [OF noted_keeps [OF n'(1)]], goal_cases)
    case (1 u n1)
    then have "I n1" by simp
    show ?case
      unfolding wp_bind [of "each A f xs"] wp_if
      by (rule wp_mono [OF each_keeps [OF \<open>I n1\<close> xs]]) (use 1 n' next0 in \<open>auto simp: wp_ret\<close>)
  qed
  have "wp fetch (\<lambda>b. wp (case b of
        Inl err \<Rightarrow> if ctx_error err then ret (Some ()) else do {
          stop \<leftarrow> sleepContext A; (if stop then ret (Some ()) else poll k A fetch noted f) }
      | Inr xs \<Rightarrow> do { _ \<leftarrow> noted xs; stop \<leftarrow> each A f xs; (if stop then ret (Some ()) else do {
          stop \<leftarrow> sleepContext A; (if stop then ret (Some ()) else poll k A fetch noted f) }) }) ?Q) ?n"
    by (rule wp_mono [OF fetch_keeps [OF I]])
      (use next0 batch in \<open>auto simp: wp_ret split: sum.splits\<close>)
  with I show ?case by (simp add: wp_bind [of "ctx_Err A"] wp_bind [of fetch] wp_ctx_Err wp_if wp_ret)
qed

text \<open>A worker whose context ends at call \<open>N\<close> stops, whatever happens on the way.\<close>

lemma done_later:
  assumes "aws_ok A" and "aws_done A N" and "N \<le> k"
  shows "aws_done A k"
  using assms(3) by (induction rule: dec_induct) (use assms(1,2) in \<open>auto simp: aws_ok_def\<close>)

lemma poll_stops:
  assumes "aws_ok A" and "aws_done A N" and "I n" and "N - nd_calls n < k"
  shows "wp (poll k A fetch noted f) (\<lambda>r _. r = Some ()) n"
  using assms(3,4)
proof (induction k arbitrary: n)
  case 0
  then show ?case by simp
next
  case (Suc k)
  let ?n = "n\<lparr>nd_calls := Suc (nd_calls n)\<rparr>"
  let ?Q = "\<lambda>r _. r = Some ()"
  let ?rest = "do { stop \<leftarrow> sleepContext A; (if stop then ret (Some ()) else poll k A fetch noted f) }"
  show ?case
  proof (cases "aws_done A (nd_calls n)")
    case True
    then show ?thesis by (simp add: wp_bind [of "ctx_Err A"] wp_ctx_Err wp_ret)
  next
    case False
    then have lt: "nd_calls n < N" using done_later [OF assms(1,2), of "nd_calls n"] by linarith
    have rest: "wp ?rest ?Q n'" if "I n'" "Suc (nd_calls n) \<le> nd_calls n'" for n'
    proof -
      have "I (n'\<lparr>nd_calls := Suc (nd_calls n')\<rparr>)" using that(1) by (rule calls_free)
      then have "wp (poll k A fetch noted f) ?Q (n'\<lparr>nd_calls := Suc (nd_calls n')\<rparr>)"
        using that(2) Suc.prems(2) lt by (intro Suc.IH) auto
      then show ?thesis by (simp add: wp_bind [of "sleepContext A"] wp_sleepContext wp_ret)
    qed
    have I: "I ?n" using Suc.prems(1) by (rule calls_free)
    have batch: "wp (do { _ \<leftarrow> noted xs; stop \<leftarrow> each A f xs; (if stop then ret (Some ()) else ?rest) }) ?Q n'"
      if n': "I n'" "Suc (nd_calls n) \<le> nd_calls n'" and xs: "list_all P xs" for xs n'
      unfolding wp_bind [of "noted xs"]
    proof (rule wp_mono [OF noted_keeps [OF n'(1)]], goal_cases)
      case (1 u n1)
      then have "I n1" by simp
      show ?case
        unfolding wp_bind [of "each A f xs"] wp_if
        by (rule wp_mono [OF each_keeps [OF \<open>I n1\<close> xs]]) (use 1 n' rest in \<open>auto simp: wp_ret\<close>)
    qed
    have "wp fetch (\<lambda>b. wp (case b of
          Inl err \<Rightarrow> if ctx_error err then ret (Some ()) else ?rest
        | Inr xs \<Rightarrow> do { _ \<leftarrow> noted xs; stop \<leftarrow> each A f xs; (if stop then ret (Some ()) else ?rest) }) ?Q) ?n"
      by (rule wp_mono [OF fetch_keeps [OF I]]) (use rest batch in \<open>auto simp: wp_ret split: sum.splits\<close>)
    with False show ?thesis by (simp add: wp_bind [of "ctx_Err A"] wp_bind [of fetch] wp_ctx_Err wp_ret)
  qed
qed

end

section \<open>The workers keep the contract\<close>

text \<open>What a worker may do to the tables: any number of the specified changes.\<close>

definition grown :: "bool \<Rightarrow> env \<Rightarrow> db \<Rightarrow> node \<Rightarrow> bool" where
  "grown sep E d n \<longleftrightarrow> (env_ok E \<and> db_inv sep (canonical E) d \<longrightarrow> db_steps sep (canonical E) d (nd_db n))"

lemma grown_calls [simp]: "grown sep E d (n\<lparr>nd_calls := k\<rparr>) = grown sep E d n"
  "grown sep E d (n\<lparr>nd_deleted := hs\<rparr>) = grown sep E d n" "grown sep E d (n\<lparr>nd_sent := ms\<rparr>) = grown sep E d n"
  by (simp_all add: grown_def)

lemma grown_services:
  assumes "grown sep E d n" and "\<And>w. w_db w = nd_db n \<Longrightarrow> env_ok E \<Longrightarrow> db_inv sep (canonical E) (nd_db n) \<Longrightarrow>
      wp m (\<lambda>_ w'. db_steps sep (canonical E) (nd_db n) (w_db w')) w"
    and "\<And>x w'. grown sep E d (n\<lparr>nd_world := w'\<rparr>) \<Longrightarrow> Q x (n\<lparr>nd_world := w'\<rparr>)"
  shows "wp (on_services m) Q n"
  unfolding wp_on_services unfolding wp_run
proof (rule assms(3), unfold grown_def, intro impI)
  assume ok: "env_ok E \<and> db_inv sep (canonical E) d"
  with assms(1) have st: "db_steps sep (canonical E) d (nd_db n)" by (simp add: grown_def)
  have "db_inv sep (canonical E) (nd_db n)" using db_inv_steps [OF st] ok by blast
  with assms(2) [of "nd_world n"] ok have "db_steps sep (canonical E) (nd_db n) (w_db (snd (run_state m (nd_world n))))"
    by (simp add: wp_run)
  with st show "db_steps sep (canonical E) d (nd_db (n\<lparr>nd_world := snd (run_state m (nd_world n))\<rparr>))"
    by (simp add: rtranclp_trans)
qed

lemma wp_deleteMessage:
  assumes "\<And>n'. n' = n\<lparr>nd_calls := Suc (nd_calls n)\<rparr> \<or>
      n' = n\<lparr>nd_calls := Suc (nd_calls n), nd_deleted := nd_deleted n @ [h]\<rparr> \<Longrightarrow> Q () n'"
  shows "wp (deleteMessage A h) Q n"
  unfolding deleteMessage_def wp_bind wp_DeleteMessage wp_ret Let_def
  by (auto split: option.splits intro!: assms)

lemma processMessage_grown:
  "grown sep E d n \<Longrightarrow> wp (processMessage E A message) (\<lambda>_ n'. grown sep E d n' \<and> nd_calls n \<le> nd_calls n') n"
proof (cases "read_envelope (awsStringValue (msg_Body message))")
  case None
  assume "grown sep E d n"
  then show ?thesis using None by (auto simp: processMessage_def intro!: wp_deleteMessage)
next
  case (Some envelope)
  assume g: "grown sep E d n"
  show ?thesis
    unfolding processMessage_def Some option.case wp_bind
  proof (rule grown_services [OF g], goal_cases)
    case (1 w)
    then show ?case by (intro wp_ProcessTransaction) auto
  next
    case (2 x w')
    then show ?case by (auto simp: wp_ret split: sum.splits intro!: wp_deleteMessage)
  qed
qed

lemma quiet_count_metric: "w_db w = d \<Longrightarrow> wp (count_metric f) (\<lambda>_ w'. db_steps sep U d (w_db w')) w"
  by (rule wp_count_metric) (simp add: quiet_def)

lemma update_outbox_step:
  assumes "\<And>r. same_event r (f r)"
  shows "db_step sep U d (update_outbox u f d)"
proof -
  have "list_all2 same_event (db_outbox d) (map (\<lambda>r. if or_id r = u then f r else r) (db_outbox d))"
    using assms by (auto simp: list_all2_conv_all_nth same_event_def)
  then show ?thesis unfolding update_outbox_def by (rule db_step.outbox_upkeep)
qed

lemma wp_upkeep_stmt:
  assumes "\<And>c d x d'. f c d = Inr (x, d') \<Longrightarrow> d' = d \<or> db_step sep U d d'" and "db_steps sep U d (w_db w)"
  shows "wp (pool_stmt E f) (\<lambda>_ w'. db_steps sep U d (w_db w')) w"
proof -
  have "db_steps sep U d d'" if "d' = w_db w \<or> db_step sep U (w_db w) d'" for d'
    using that assms(2) by (auto intro: rtranclp.rtrancl_into_rtrancl)
  then show ?thesis using assms(1) by (intro wp_pool_stmt) blast+
qed

lemma publish_outbox_step: "sql_publish_outbox i c d = Inr (x, d') \<Longrightarrow> d' = d \<or> db_step sep U d d'"
  by (auto simp: sql_publish_outbox_def as_uuid_def same_event_def intro!: update_outbox_step split: option.splits)

lemma retry_outbox_step: "sql_retry_outbox e delay i c d = Inr (x, d') \<Longrightarrow> d' = d \<or> db_step sep U d d'"
  by (auto simp: sql_retry_outbox_def as_uuid_def same_event_def intro!: update_outbox_step split: option.splits if_splits)

lemma select_attempts_step: "sql_select_attempts i c d = Inr (x, d') \<Longrightarrow> d' = d \<or> db_step sep U d d'"
  by (auto simp: sql_select_attempts_def as_uuid_def split: option.splits)

lemma wp_MarkPublished:
  assumes "w_db w = d"
  shows "wp (OutboxRepo_MarkPublished E i) (\<lambda>_ w'. db_steps sep U d (w_db w')) w"
  unfolding OutboxRepo_MarkPublished_def wp_bind_err
  by (rule wp_mono [OF wp_upkeep_stmt [OF publish_outbox_step]]) (auto simp: assms wp_ret split: sum.splits)

lemma wp_IncrementAttempts:
  assumes "w_db w = d"
  shows "wp (OutboxRepo_IncrementAttempts E i msg) (\<lambda>_ w'. db_steps sep U d (w_db w')) w"
proof -
  have "wp (pool_stmt E (sql_select_attempts i)) (\<lambda>_ w'. db_steps sep U d (w_db w')) w"
    by (rule wp_upkeep_stmt [OF select_attempts_step]) (auto simp: assms)
  moreover have "wp (bind_err (pool_stmt E (sql_retry_outbox msg k i)) g ok) (\<lambda>_ w'. db_steps sep U d (w_db w')) w'"
    if "db_steps sep U d (w_db w')" for w' k g
    unfolding wp_bind_err using that
    by (intro wp_mono [OF wp_upkeep_stmt [OF retry_outbox_step]]) (auto simp: wp_ret split: sum.splits)
  ultimately show ?thesis
    unfolding OutboxRepo_IncrementAttempts_def OutboxRepo_getAttempts_def wp_bind wp_ret by (rule wp_mono)
qed

lemma wp_Client_SendMessage:
  assumes "\<And>e ms. ms = nd_sent n \<or> ms = nd_sent n @ [send_input q body g h] \<Longrightarrow>
      Q (Inl e) (n\<lparr>nd_calls := Suc (nd_calls n), nd_sent := ms\<rparr>)"
    and "\<And>e. Q (Inl e) n"
    and "Q (Inr ()) (n\<lparr>nd_calls := Suc (nd_calls n), nd_sent := nd_sent n @ [send_input q body g h]\<rparr>)"
  shows "wp (Client_SendMessage A q body g h) Q n"
proof -
  have "Q (Inl e) (n\<lparr>nd_calls := Suc (nd_calls n)\<rparr>)" for e
    using assms(1) [of "nd_sent n" e] by simp
  then show ?thesis
    unfolding Client_SendMessage_def wp_if wp_ret wp_bind_err wp_aws_SendMessage Let_def
    using assms by (simp split: option.splits)
qed

lemma publish_grown:
  "grown sep E d n \<Longrightarrow> wp (publish E A q ev) (\<lambda>_ n'. grown sep E d n' \<and> nd_calls n \<le> nd_calls n') n"
proof -
  assume g: "grown sep E d n"
  show ?thesis
  proof (cases "maxAttempts \<le> oe_Attempts ev")
    case True
    then show ?thesis
      unfolding publish_def using g by (auto intro!: grown_services [OF g] quiet_count_metric)
  next
    case False
    let ?n = "n\<lparr>nd_calls := Suc (nd_calls n)\<rparr>"
    have inc: "wp (do { _ \<leftarrow> on_services (OutboxRepo_IncrementAttempts E (oe_ID ev) (Error err)); ret () })
        (\<lambda>_ n'. grown sep E d n' \<and> nd_calls n \<le> nd_calls n') n'" if "grown sep E d n'" "nd_calls n \<le> nd_calls n'" for n' err
      unfolding wp_bind wp_ret using that by (intro grown_services [OF that(1)]) (auto intro: wp_IncrementAttempts)
    have mark: "wp (do { _ \<leftarrow> on_services (OutboxRepo_MarkPublished E (oe_ID ev)); ret () })
        (\<lambda>_ n'. grown sep E d n' \<and> nd_calls n \<le> nd_calls n') n'" if "grown sep E d n'" "nd_calls n \<le> nd_calls n'" for n'
      unfolding wp_bind wp_ret using that by (intro grown_services [OF that(1)]) (auto intro: wp_MarkPublished)
    have "wp (SQSPublishFunc A q (oe_EventType ev) (oe_AggregateType ev) (oe_AggregateID ev) (payload_text A (oe_Payload ev)))
        (\<lambda>sent. wp (case sent of
            Inl err \<Rightarrow> if ctx_error err then ret ()
              else do { _ \<leftarrow> on_services (OutboxRepo_IncrementAttempts E (oe_ID ev) (Error err)); ret () }
          | Inr _ \<Rightarrow> do { _ \<leftarrow> on_services (OutboxRepo_MarkPublished E (oe_ID ev)); ret () })
          (\<lambda>_ n'. grown sep E d n' \<and> nd_calls n \<le> nd_calls n')) ?n"
      unfolding SQSPublishFunc_def
      by (rule wp_Client_SendMessage) (use g in \<open>auto simp: wp_ret intro!: inc mark\<close>)
    with False g show ?thesis
      unfolding publish_def by (simp add: wp_bind [of "ctx_Err A"] wp_bind [of "SQSPublishFunc _ _ _ _ _ _"] wp_ctx_Err wp_ret)
  qed
qed

lemma wp_pool_rows_read:
  assumes "\<And>c d x d'. f c d = Inr (x, d') \<Longrightarrow> d' = d" and "w_db w = d"
  shows "wp (pool_rows E f) (\<lambda>_ w'. db_steps sep U d (w_db w')) w"
  unfolding pool_rows_def wp_bind_err
  by (rule wp_mono [OF wp_upkeep_stmt [where U = U and d = d]])
    (use assms in \<open>auto simp: wp_rules tick_def wp_State split: sum.splits\<close>)

lemma wp_FindPending: "w_db w = d \<Longrightarrow> wp (OutboxRepo_FindPending E k) (\<lambda>_ w'. db_steps sep U d (w_db w')) w"
  unfolding OutboxRepo_FindPending_def wp_bind_err
  by (rule wp_mono [OF wp_pool_rows_read]) (auto simp: sql_select_outbox_def wp_ret split: sum.splits)

lemma grown_fetch:
  assumes "grown sep E d n" and "\<And>w. w_db w = nd_db n \<Longrightarrow> wp m (\<lambda>_ w'. db_steps sep (canonical E) (nd_db n) (w_db w')) w"
  shows "wp (on_services m) (\<lambda>b n'. grown sep E d n' \<and> nd_calls n \<le> nd_calls n' \<and> (\<forall>xs. b = Inr xs \<longrightarrow> list_all (\<lambda>_. True) xs)) n"
  using assms(2) by (intro grown_services [OF assms(1)]) (auto simp: list_all_iff)

lemma grown_noted: "grown sep E d n \<Longrightarrow> wp (on_services (count_metric f)) (\<lambda>_ n'. grown sep E d n' \<and> nd_calls n \<le> nd_calls n') n"
  by (rule grown_services) (auto intro: quiet_count_metric)

interpretation consumer: polling A "ReceiveMessage A" "\<lambda>_. ret ()" "processMessage E A" "grown sep E d" "\<lambda>_. True"
  for E A d
  by unfold_locales (auto simp: wp_ReceiveMessage wp_ret list_all_iff intro: processMessage_grown)

interpretation publisher: polling A "on_services (OutboxRepo_FindPending E 10)"
  "\<lambda>events. on_services (count_metric (\<lambda>m. m\<lparr>mt_pending := length events\<rparr>))" "publish E A q" "grown sep E d" "\<lambda>_. True"
  for E A q d
  by unfold_locales (auto intro: grown_fetch wp_FindPending grown_noted publish_grown)

lemma wp_FindPendingReferences: "w_db w = d \<Longrightarrow> wp (TxRepo_FindPendingReferences E k) (\<lambda>_ w'. db_steps sep U d (w_db w')) w"
  unfolding TxRepo_FindPendingReferences_def wp_bind_err
  by (rule wp_mono [OF wp_pool_rows_read]) (auto simp: sql_select_pending_references_def wp_ret split: sum.splits)

lemma processPending_grown:
  assumes "grown sep E d n"
  shows "wp (processPending E tx) (\<lambda>_ n'. grown sep E d n' \<and> nd_calls n \<le> nd_calls n') n"
  unfolding processPending_def wp_bind
proof (rule grown_services [OF assms], goal_cases)
  case (1 w)
  then show ?case by (intro wp_ResolvePendingReference) simp_all
next
  case (2 x w')
  then show ?case by (simp add: wp_ret)
qed

interpretation resolver: polling A "on_services (TxRepo_FindPendingReferences E 10)" "\<lambda>_. ret ()" "processPending E" "grown sep E d" "\<lambda>_. True"
  for E A d
  by unfold_locales (auto simp: wp_ret intro: grown_fetch wp_FindPendingReferences processPending_grown)

section \<open>Runs of the workers\<close>

text \<open>The tables after a worker ran on \<open>d\<close>, from its start.\<close>

definition worked :: "'a act \<Rightarrow> db \<Rightarrow> db" where
  "worked m d = nd_db (snd (run_state m (init_node d)))"

lemma grown_init [simp]: "grown sep E d (init_node d)"
  by (simp add: grown_def init_node_def init_world_def)

lemma worked_steps:
  assumes "wp m (\<lambda>_ n'. grown sep E d n' \<and> nd_calls (init_node d) \<le> nd_calls n') (init_node d)"
    and "env_ok E" and "db_inv sep (canonical E) d"
  shows "db_steps sep (canonical E) d (worked m d)"
  using assms by (simp add: wp_run grown_def worked_def)

lemmas workers_steps =
  worked_steps [OF consumer.poll_keeps [OF grown_init], folded WagerSQSWorker_Start_def]
  worked_steps [OF publisher.poll_keeps [OF grown_init], folded OutboxPublisher_Start_def]
  worked_steps [OF resolver.poll_keeps [OF grown_init], folded ReferenceWorker_Start_def]

end
