(* ===== verification/Queries.thy ===== *)
theory Queries
  imports Wager_Resolution
begin

text \<open>
  The queries of the services: wallets, transactions, the ledger page by page and the
  reconciliation. They leave the tables alone, and the lemmas say what they answer from them.
\<close>

section \<open>Operations that only read\<close>

definition reading :: "'a eff \<Rightarrow> bool" where
  "reading m \<longleftrightarrow> (\<forall>w. wp m (\<lambda>_ w'. w_db w' = w_db w) w)"

lemma readingD: "reading m \<Longrightarrow> wp m (\<lambda>_ w'. w_db w' = w_db w) w"
  by (simp add: reading_def)

named_theorems reading_intros \<open>operations that leave the tables as they are\<close>

lemma reading_ret [reading_intros]: "reading (ret x)"
  by (simp add: reading_def wp_ret)

lemma reading_bind:
  assumes "reading m" and "\<And>x. reading (f x)"
  shows "reading (m \<bind> f)"
  unfolding reading_def wp_bind
proof
  fix w
  show "wp m (\<lambda>x. wp (f x) (\<lambda>_ w'. w_db w' = w_db w)) w"
  proof (rule wp_mono [OF readingD [OF assms(1)]], goal_cases)
    case (1 x w')
    then show ?case using readingD [OF assms(2), of x w'] by simp
  qed
qed

lemma reading_bind_err [reading_intros]:
  assumes "reading m" and "\<And>x. reading (k x)"
  shows "reading (bind_err m g k)"
  unfolding bind_err_def
  by (rule reading_bind [OF assms(1)]) (auto intro: reading_ret assms(2) split: sum.split)

lemma reading_pool_stmt:
  assumes "\<And>c x d d'. f c d = Inr (x, d') \<Longrightarrow> d' = d"
  shows "reading (pool_stmt E f)"
  unfolding reading_def
proof
  fix w
  show "wp (pool_stmt E f) (\<lambda>_ w'. w_db w' = w_db w) w"
    by (rule wp_pool_stmt) (use assms in auto)
qed

lemma reading_tick [reading_intros]: "reading tick"
  by (simp add: reading_def tick_def wp_State)

lemma reading_count_metric [reading_intros]: "reading (count_metric f)"
  by (simp add: reading_def count_metric_def wp_State)

lemma reading_pool_rows:
  assumes "\<And>c x d d'. f c d = Inr (x, d') \<Longrightarrow> d' = d"
  shows "reading (pool_rows E f)"
  unfolding pool_rows_def
  by (intro reading_intros reading_bind reading_pool_stmt assms)

lemma reading_FindByID [reading_intros]: "reading (WalletRepo_FindByID E i)"
  unfolding WalletRepo_FindByID_def by (intro reading_intros reading_pool_stmt) (erule select_only)

lemma reading_GetWallet [reading_intros]: "reading (GetWallet E i)"
  unfolding GetWallet_def by (simp add: reading_intros)

lemma reading_ledger_rows [reading_intros]:
  "reading (pool_rows E (sql_select_ledger i n))" "reading (pool_rows E (sql_select_ledger_after i t j n))"
  "reading (pool_stmt E (sql_sum_ledger i))"
proof -
  show "reading (pool_rows E (sql_select_ledger i n))" "reading (pool_rows E (sql_select_ledger_after i t j n))"
    by (rule reading_pool_rows, auto simp: sql_select_ledger_def sql_select_ledger_after_def as_uuid_Inr)+
  show "reading (pool_stmt E (sql_sum_ledger i))"
    by (rule reading_pool_stmt) (auto simp: sql_sum_ledger_def as_uuid_Inr Let_def split: if_splits)
qed

lemma reading_LedgerRepo [reading_intros]:
  "reading (LedgerRepo_FindByWalletID E i c n)" "reading (LedgerRepo_SumByWalletID E i)"
proof -
  have scan: "reading (case entries_of_rows rows of Inl err \<Rightarrow> fail err | Inr entries \<Rightarrow> ok (ledger_page E l entries))"
    for rows l
    by (simp add: reading_ret split: sum.split)
  show "reading (LedgerRepo_FindByWalletID E i c n)"
    unfolding LedgerRepo_FindByWalletID_def Let_def
    by (auto intro!: reading_intros reading_bind scan split: list.split option.split)
  show "reading (LedgerRepo_SumByWalletID E i)"
    unfolding LedgerRepo_SumByWalletID_def by (intro reading_intros)
qed

lemma reading_GetLedger [reading_intros]: "reading (GetLedger E i c n)"
  unfolding GetLedger_def by (simp add: reading_intros)

lemma reading_reconcile_pages: "reading (reconcile_pages k E i c n)"
proof (induction k arbitrary: c n)
  case 0
  then show ?case by (simp add: reading_ret)
next
  case (Suc k)
  show ?case
    unfolding reconcile_pages.simps by (auto intro!: reading_intros Suc.IH simp: Let_def split: prod.split)
qed

lemma reading_Reconcile [reading_intros]: "reading (Reconcile E i)"
  unfolding Reconcile_def by (auto intro!: reading_intros reading_bind reading_reconcile_pages split: option.split)

lemma reading_transactions [reading_intros]:
  "reading (TxService_FindByID E i)" "reading (TxService_FindByProviderAndExternalID E p i)"
  unfolding TxService_FindByID_def TxService_FindByProviderAndExternalID_def TxRepo_FindByID_def TxRepo_FindByProviderAndExternalID_def
  by (intro reading_intros reading_pool_stmt, erule select_only)+

section \<open>Single rows\<close>

lemma wp_GetWallet:
  assumes "\<And>e w'. w_db w' = w_db w \<Longrightarrow> Q (Inl e) w'"
    and "\<And>wr w'. w_db w' = w_db w \<Longrightarrow> wallet_at E (w_db w) i wr \<Longrightarrow> Q (Inr (wallet_of wr)) w'"
  shows "wp (GetWallet E i) Q w"
  unfolding GetWallet_def using assms by (auto simp: wp_rules intro!: wp_FindByID)

section \<open>Pages of the ledger\<close>

lemma wp_pool_rows_select:
  assumes "\<And>c x d'. f c (w_db w) = Inr (x, d') \<Longrightarrow> d' = w_db w"
    and err: "\<And>e w' n. quiet w w' \<Longrightarrow> blamed E (f (stmt_ctx E (env_pg_now E n) n) (w_db w) = Inl e) \<Longrightarrow> Q (Inl e) w'"
    and rows: "\<And>xs xs' w' n. quiet w w' \<Longrightarrow> f (stmt_ctx E (env_pg_now E n) n) (w_db w) = Inr (xs, w_db w) \<Longrightarrow>
      prefix xs' xs \<Longrightarrow> (calm E \<Longrightarrow> xs' = xs) \<Longrightarrow> Q (Inr xs') w'"
  shows "wp (pool_rows E f) Q w"
  unfolding pool_rows_def wp_bind_err
proof (rule wp_pool_select [OF assms(1)], goal_cases)
  case (2 e w' n)
  then show ?case using err by simp
next
  case (3 xs w' n)
  have q: "quiet w (w'\<lparr>w_step := Suc (w_step w')\<rparr>)" using 3(1) by (simp add: quiet_def)
  show ?case
  proof (cases "env_rows E (w_step w')")
    case None
    then show ?thesis using rows [OF q 3(2)] by (simp add: wp_bind wp_ret tick_def wp_State)
  next
    case (Some k)
    then have "\<not> calm E" by (auto simp: calm_def no_faults_def)
    then show ?thesis using rows [OF q 3(2) take_is_prefix [of k]] Some by (simp add: wp_bind wp_ret tick_def wp_State)
  qed
qed

lemma entries_of_rows_Inr: "entries_of_rows rs = Inr es \<longleftrightarrow> list_all2 (\<lambda>r e. entry_of_row r = Inr e) rs es"
proof (induction rs arbitrary: es)
  case (Cons r rs)
  then show ?case by (auto simp: list_all2_Cons1 simp flip: Cons.IH split: sum.splits)
qed auto

definition readable_ledger :: "ledger_row list \<Rightarrow> bool" where
  "readable_ledger rs \<longleftrightarrow> list_all (\<lambda>r. \<not> isl (entry_of_row r)) rs"

lemma entries_of_rows_readable: "readable_ledger rs \<longleftrightarrow> (\<exists>es. entries_of_rows rs = Inr es)"
  by (induction rs) (auto simp: readable_ledger_def isl_def split: sum.splits)

definition first_rows :: "ident \<Rightarrow> int \<Rightarrow> db \<Rightarrow> ledger_row list" where
  "first_rows u n d = take (nat n) (sort_key ledger_key (ledger_of u d))"

lemma wp_first_page:
  assumes "0 < limit"
    and err: "\<And>e w'. quiet w w' \<Longrightarrow>
      blamed E (\<forall>u. env_uuid E i = Some u \<longrightarrow> \<not> readable_ledger (first_rows u (limit + 1) (w_db w))) \<Longrightarrow> Q (Inl e) w'"
    and page: "\<And>u rows es w'. quiet w w' \<Longrightarrow> env_uuid E i = Some u \<Longrightarrow> prefix rows (first_rows u (limit + 1) (w_db w)) \<Longrightarrow>
      (calm E \<Longrightarrow> rows = first_rows u (limit + 1) (w_db w)) \<Longrightarrow> list_all2 (\<lambda>r e. entry_of_row r = Inr e) rows es \<Longrightarrow>
      Q (Inr (ledger_page E limit es)) w'"
  shows "wp (LedgerRepo_FindByWalletID E i '''' limit) Q w"
proof -
  have "wp (pool_rows E (sql_select_ledger i (limit + 1))) (\<lambda>r. case r of Inl e \<Rightarrow> Q (Inl (Errorf ''query ledger entries'' e))
      | Inr rows \<Rightarrow> wp (case entries_of_rows rows of Inl e \<Rightarrow> fail e | Inr entries \<Rightarrow> ok (ledger_page E limit entries)) Q) w"
  proof (rule wp_pool_rows_select, goal_cases)
    case (1 c x d')
    then show ?case by (auto simp: sql_select_ledger_def as_uuid_Inr)
  next
    case (2 e w' n)
    then show ?case by (auto simp: sql_select_ledger_def as_uuid_def blamed_def split: option.splits intro!: err)
  next
    case (3 xs xs' w' n)
    then obtain u where u: "env_uuid E i = Some u" "xs = first_rows u (limit + 1) (w_db w)"
      by (auto simp: sql_select_ledger_def as_uuid_Inr first_rows_def stmt_ctx_def)
    show ?case
    proof (cases "entries_of_rows xs'")
      case (Inl e)
      then have "calm E \<Longrightarrow> \<not> readable_ledger xs" using 3(4) entries_of_rows_readable [of xs'] by auto
      then show ?thesis using Inl u 3(1) by (auto simp: wp_ret blamed_def intro!: err)
    next
      case (Inr es)
      then show ?thesis using page [OF 3(1) u(1), of xs' es] 3 u iffD1 [OF entries_of_rows_Inr Inr] by (simp add: wp_ret)
    qed
  qed
  then show ?thesis using assms(1) by (simp add: LedgerRepo_FindByWalletID_def Let_def wp_bind_err)
qed

lemma wp_later_page: "cursor \<noteq> '''' \<Longrightarrow> (\<And>e. Q (Inl e) w) \<Longrightarrow> wp (LedgerRepo_FindByWalletID E i cursor limit) Q w"
  using cursor_page_fails [of cursor E i limit] by (auto simp: wp_ret)

section \<open>Reconciliation\<close>

lemma ledger_page_last:
  "int (length es) \<le> limit \<Longrightarrow> ledger_page E limit es = (es, '''')"
  "limit < int (length es) \<Longrightarrow> \<exists>page c. ledger_page E limit es = (page, c) \<and> c \<noteq> ''''"
  by (auto simp: ledger_page_def Let_def)

lemma first_rows_all:
  assumes "int (length (ledger_of u d)) \<le> n"
  shows "length (first_rows u n d) = length (ledger_of u d)" and "readable_ledger (first_rows u n d) = readable_ledger (ledger_of u d)"
  using assms by (simp_all add: first_rows_def readable_ledger_def list_all_iff nat_le_iff)

lemma first_rows_readable: "readable_ledger (ledger_of u d) \<Longrightarrow> readable_ledger (first_rows u n d)"
  by (auto simp: first_rows_def readable_ledger_def list_all_iff dest: in_set_takeD)

text \<open>The second round of the loop ends it: no page after the first can be read.\<close>

lemma wp_reconcile_pages:
  assumes err: "\<And>e w'. quiet w w' \<Longrightarrow> blamed E (\<forall>u. env_uuid E i = Some u \<longrightarrow>
        \<not> readable_ledger (ledger_of u (w_db w)) \<or> 1000 < length (ledger_of u (w_db w))) \<Longrightarrow> Q (Inl e) w'"
    and ok: "\<And>u n w'. quiet w w' \<Longrightarrow> env_uuid E i = Some u \<Longrightarrow> n \<le> length (ledger_of u (w_db w)) \<Longrightarrow>
      (calm E \<Longrightarrow> n = length (ledger_of u (w_db w)) \<and> n \<le> 1000) \<Longrightarrow> Q (Inr (Some (int n))) w'"
  shows "wp (reconcile_pages reconcile_fuel E i '''' 0) Q w"
proof -
  have fuel: "reconcile_fuel = Suc (Suc 0)" by (simp add: reconcile_fuel_def)
  show ?thesis
    unfolding fuel reconcile_pages.simps(2) [of "Suc 0"] wp_bind_err
  proof (rule wp_first_page, goal_cases)
    case 1
    then show ?case by simp
  next
    case (2 e w')
    then show ?case using first_rows_readable by (auto simp: blamed_def intro!: err)
  next
    case (3 u rows es w')
    have len: "length es = length rows" using 3(5) by (simp add: list_all2_lengthD)
    have le: "length rows \<le> length (ledger_of u (w_db w))"
      using prefix_length_le [OF 3(3)] by (simp add: first_rows_def)
    show ?case
    proof (cases "int (length es) \<le> 1000")
      case True
      have "length rows = length (ledger_of u (w_db w))" if "calm E"
        using True len 3(4) [OF that] by (auto simp: first_rows_def)
      then show ?thesis
        using True len le 3(1,2) ledger_page_last(1) [OF True, of E] by (auto simp: Let_def wp_ret intro!: ok)
    next
      case False
      then obtain page c where c: "ledger_page E 1000 es = (page, c)" "c \<noteq> ''''"
        using ledger_page_last(2) [of 1000 es E] by auto
      have many: "1000 < length (ledger_of u (w_db w))" using False len le by linarith
      have Q: "Q (Inl e) w'" for e
        using many 3(1,2) by (intro err) (auto simp: blamed_def)
      show ?thesis
        using c Q by (auto simp: Let_def wp_bind_err intro!: wp_later_page)
    qed
  qed
qed

text \<open>What a reconciliation finds, and when nothing but a failure can prevent it.\<close>

definition reconciled :: "ident \<Rightarrow> wallet_row \<Rightarrow> db \<Rightarrow> ReconciliationResult \<Rightarrow> bool" where
  "reconciled i wr d res \<longleftrightarrow> rr_WalletID res = i \<and> rr_StoredBalance res = \<lparr>money_amount = wr_balance wr, money_currency = BRL\<rparr> \<and>
     cents (rr_CalculatedBalance res) = ledger_sum (ledger_of (wr_id wr) d) \<and> money_currency (rr_CalculatedBalance res) = BRL \<and>
     cents (rr_Difference res) = sint (wr_balance wr) - ledger_sum (ledger_of (wr_id wr) d) \<and>
     (rr_Consistent res \<longleftrightarrow> sint (wr_balance wr) = ledger_sum (ledger_of (wr_id wr) d))"

definition reconcilable :: "env \<Rightarrow> ident \<Rightarrow> db \<Rightarrow> bool" where
  "reconcilable E i d \<longleftrightarrow> i \<noteq> '''' \<and> (\<exists>wr. wallet_at E d i wr \<and> in_int64 (ledger_sum (ledger_of (wr_id wr) d)) \<and>
     in_int64 (sint (wr_balance wr) - ledger_sum (ledger_of (wr_id wr) d)) \<and>
     readable_ledger (ledger_of (wr_id wr) d) \<and> length (ledger_of (wr_id wr) d) \<le> 1000)"

lemma wp_Sum:
  assumes "\<And>e w'. quiet w w' \<Longrightarrow>
      blamed E (\<forall>u. env_uuid E i = Some u \<longrightarrow> \<not> in_int64 (ledger_sum (ledger_of u (w_db w)))) \<Longrightarrow> Q (Inl e) w'"
    and "\<And>u w'. quiet w w' \<Longrightarrow> env_uuid E i = Some u \<Longrightarrow> in_int64 (ledger_sum (ledger_of u (w_db w))) \<Longrightarrow>
      Q (Inr (of_int (ledger_sum (ledger_of u (w_db w))))) w'"
  shows "wp (LedgerRepo_SumByWalletID E i) Q w"
  unfolding LedgerRepo_SumByWalletID_def wp_bind_err
  by (rule wp_pool_select)
    (auto simp: sql_sum_ledger_def as_uuid_def blamed_def Let_def wp_ret split: option.splits if_splits intro!: assms)

lemma blamed_mono: "blamed E P \<Longrightarrow> (P \<Longrightarrow> P') \<Longrightarrow> blamed E P'"
  by (auto simp: blamed_def)

lemma wp_Reconcile:
  assumes err: "\<And>e w'. quiet w w' \<Longrightarrow> blamed E (\<not> reconcilable E i (w_db w)) \<Longrightarrow> Q (Inl e) w'"
    and ok: "\<And>wr res w'. quiet w w' \<Longrightarrow> wallet_at E (w_db w) i wr \<Longrightarrow> reconciled i wr (w_db w) res \<Longrightarrow>
      (calm E \<Longrightarrow> rr_CheckedEntries res = int (length (ledger_of (wr_id wr) (w_db w))) \<and> rr_CheckedEntries res \<le> 1000) \<Longrightarrow>
      Q (Inr (Some res)) w'"
  shows "wp (Reconcile E i) Q w"
proof (cases "i = ''''")
  case True
  then show ?thesis by (auto simp: Reconcile_def wp_ret quiet_def blamed_def reconcilable_def intro!: err)
next
  case False
  show ?thesis
    unfolding Reconcile_def if_not_P [OF False] wp_bind_err [of "WalletRepo_FindByID E i"]
  proof (rule wp_FindByID, goal_cases)
    case (1 e w1)
    then show ?case by (auto simp: quiet_def reconcilable_def intro!: err elim!: blamed_mono)
  next
    case (2 wr w1)
    then have q1: "quiet w w1" and d1: "w_db w1 = w_db w" and at: "wallet_at E (w_db w) i wr" by (simp_all add: quiet_def)
    have id: "env_uuid E i = Some (wr_id wr)" and pos: "0 \<le> sint (wr_balance wr)"
      using at by (simp_all add: wallet_at_def readable_wallet_def)
    let ?s = "ledger_sum (ledger_of (wr_id wr) (w_db w))"
    note uniq = wallet_at_unique [OF at]
    show ?case
      unfolding sum.case wp_bind_err [of "LedgerRepo_SumByWalletID E i"]
    proof (rule wp_Sum, goal_cases)
      case (1 e w2)
      then show ?case
        using id d1 quiet_trans [OF q1 1(1)] by (auto simp: reconcilable_def dest: uniq intro!: err elim!: blamed_mono)
    next
      case (2 u w2)
      then have q2: "quiet w w2" and d2: "w_db w2 = w_db w" and u: "u = wr_id wr" and s: "in_int64 ?s"
        using id d1 quiet_trans [OF q1 2(1)] by (simp_all add: quiet_def)
      show ?case
        unfolding sum.case wp_bind_err [of "reconcile_pages _ _ _ _ _"]
      proof (rule wp_reconcile_pages, goal_cases)
        case (1 e w3)
        then show ?case
          using id d2 quiet_trans [OF q2 1(1)] by (auto simp: reconcilable_def dest!: uniq intro!: err elim!: blamed_mono)
      next
        case (2 u' n w3)
        then have q3: "quiet w w3" using quiet_trans [OF q2] by blast
        let ?b = "\<lparr>money_amount = wr_balance wr, money_currency = BRL\<rparr>" and ?c = "\<lparr>money_amount = of_int ?s, money_currency = BRL\<rparr>"
        have c: "cents ?c = ?s" using s by (simp add: cents_def sint_of_int_int64)
        show ?case
        proof (cases "Money_Subtract ?b ?c")
          case (Inl e)
          have "\<not> in_int64 (sint (wr_balance wr) - ?s)"
          proof
            assume i: "in_int64 (sint (wr_balance wr) - ?s)"
            then have "?s \<noteq> MinInt64" using pos by (auto simp: in_int64_def MinInt64_def MaxInt64_def)
            moreover have "cents ?b = sint (wr_balance wr)" by (simp add: cents_def)
            ultimately have "Money_Subtract ?b ?c = Inr (money_of (sint (wr_balance wr) - ?s) BRL)"
              using c i by (simp add: Money_Subtract_Inr)
            then show False using Inl by simp
          qed
          then have "\<not> reconcilable E i (w_db w)" by (auto simp: reconcilable_def dest!: uniq)
          then show ?thesis
            using Inl q3 d1 u by (auto simp: wp_bind_err wp_ret lift_money_def NewMoney_def Currency_Valid_def wal_balance_wallet_of
              wallet_of_def blamed_def intro!: err)
        next
          case (Inr diff)
          then have df: "cents diff = sint (wr_balance wr) - ?s" using c by (simp add: Money_Subtract_Inr cents_def)
          have "IsZero diff \<longleftrightarrow> sint (wr_balance wr) = ?s" using df by (simp add: IsZero_cents)
          then have Q: "Q (Inr (Some \<lparr>rr_WalletID = i, rr_StoredBalance = ?b, rr_CalculatedBalance = ?c, rr_Difference = diff,
              rr_Consistent = IsZero diff, rr_CheckedEntries = int n\<rparr>)) w4" if "quiet w3 w4" for w4
            using 2(4) c df d2 id 2(2) by (intro ok [OF quiet_trans [OF q3 that] at]) (auto simp: reconciled_def)
          then show ?thesis
            using Inr d1 u q3 by (auto simp: wp_bind_err wp_bind wp_ret lift_money_def NewMoney_def Currency_Valid_def
              wallet_of_def quiet_def intro!: wp_count_metric)
        qed
      qed
    qed
  qed
qed

end
