(* ===== verification/Http_Handlers.thy ===== *)
theory Http_Handlers
  imports Queue_Client Json_Text Wager_Handlers
begin

text \<open>
  The HTTP handlers of \<^verbatim>\<open>internal/adapters/handlers\<close>: wallets, wager transactions and health. A
  request is what the handlers read of it: the headers, the body, the parameters of the query,
  and the provider that the authentication put into the context (\<^verbatim>\<open>None\<close> when it is switched
  off). Parameters of the path are arguments of the handlers. A response is its status and the
  JSON value of its body.
\<close>

section \<open>Requests and responses\<close>

record http_request =
  hr_header :: "string \<Rightarrow> string"
  hr_query :: "string \<Rightarrow> string"
  hr_body :: string
  hr_provider :: "string option"

record Response =
  rs_status :: nat
  rs_body :: json

definition writeJSON :: "nat \<Rightarrow> json \<Rightarrow> ('s, Response) state" where
  "writeJSON status v = ret \<lparr>rs_status = status, rs_body = v\<rparr>"

text \<open>A Go map is written with its keys in order, a struct with its fields as declared.\<close>

definition json_of_map :: "(string \<times> json) list \<Rightarrow> json" where
  "json_of_map kvs = JObject (sort_key fst kvs)"

definition json_error :: "string \<Rightarrow> json" where
  "json_error code = JObject [(''error'', JString code)]"

definition json_error_message :: "string \<Rightarrow> string \<Rightarrow> json" where
  "json_error_message code message = JObject [(''error'', JString code), (''message'', JString message)]"

text \<open>The handlers' own \<^verbatim>\<open>MoneyDTO\<close>, with the fields \<^verbatim>\<open>amount\<close> and \<^verbatim>\<open>currency\<close>.\<close>

definition http_money :: "string \<Rightarrow> Currency \<Rightarrow> json" where
  "http_money amount cur = JObject [(''amount'', JString amount), (''currency'', JString cur)]"

definition money_body :: "Money \<Rightarrow> json" where
  "money_body m = http_money (Money_String m) (money_currency m)"

definition json_int :: "int \<Rightarrow> json" where
  "json_int n = JNumber (if n < 0 then CHR ''-'' # nat_to_dec (nat (- n)) else nat_to_dec (nat n))"

definition http_money_fields :: "MoneyDTO field list" where
  "http_money_fields = [text_field ''amount'' dto_Amount_update, text_field ''currency'' dto_Currency_update]"

definition empty_dto :: MoneyDTO where
  "empty_dto = \<lparr>dto_Amount = '''', dto_Currency = ''''\<rparr>"

section \<open>Wager transactions\<close>

record WagerTransactionRequest =
  hq_ProviderID :: string
  hq_ExternalTransactionID :: string
  hq_PlayerID :: string
  hq_WalletID :: string
  hq_RoundID :: string
  hq_GameID :: string
  hq_Kind :: string
  hq_Money :: MoneyDTO
  hq_ReferenceExternalID :: string

definition WagerTransactionRequest_fields :: "WagerTransactionRequest field list" where
  "WagerTransactionRequest_fields =
     [text_field ''providerId'' hq_ProviderID_update,
      text_field ''externalTransactionId'' hq_ExternalTransactionID_update,
      text_field ''playerId'' hq_PlayerID_update,
      text_field ''walletId'' hq_WalletID_update,
      text_field ''roundId'' hq_RoundID_update,
      text_field ''gameId'' hq_GameID_update,
      text_field ''kind'' hq_Kind_update,
      struct_field ''money'' http_money_fields hq_Money hq_Money_update,
      text_field ''referenceExternalTransactionId'' hq_ReferenceExternalID_update]"

definition empty_wager_request :: WagerTransactionRequest where
  "empty_wager_request = \<lparr>hq_ProviderID = '''', hq_ExternalTransactionID = '''', hq_PlayerID = '''', hq_WalletID = '''',
     hq_RoundID = '''', hq_GameID = '''', hq_Kind = '''', hq_Money = empty_dto, hq_ReferenceExternalID = ''''\<rparr>"

definition missing_field :: "WagerTransactionRequest \<Rightarrow> bool" where
  "missing_field req \<longleftrightarrow> TrimSpace (hq_ProviderID req) = '''' \<or> TrimSpace (hq_ExternalTransactionID req) = '''' \<or>
     TrimSpace (hq_PlayerID req) = '''' \<or> TrimSpace (hq_WalletID req) = '''' \<or> TrimSpace (hq_Kind req) = ''''"

text \<open>The block that keeps providers apart; \<open>Some\<close> is the response that ends the request.\<close>

definition deny_provider :: "env \<Rightarrow> string option \<Rightarrow> WagerTransactionRequest \<Rightarrow> Response option eff" where
  "deny_provider E provider req =
     (case provider of
        None \<Rightarrow> ret None
      | Some providerID \<Rightarrow>
          if hq_ProviderID req \<noteq> providerID
          then ret (Some \<lparr>rs_status = 403, rs_body = json_error_message ''provider_mismatch''
            ''providerId in body does not match authenticated provider''\<rparr>)
          else do {
            wallet \<leftarrow> GetWallet E (hq_WalletID req);
            ret (case wallet of
                Inl _ \<Rightarrow> Some \<lparr>rs_status = 422, rs_body = json_error_message ''wallet_not_found'' ''wallet not found''\<rparr>
              | Inr w \<Rightarrow>
                  if wal_providerID w \<noteq> providerID
                  then Some \<lparr>rs_status = 403, rs_body = json_error_message ''provider_mismatch''
                    ''wallet belongs to another provider''\<rparr>
                  else None)
          })"

definition service_request :: "WagerTransactionRequest \<Rightarrow> Request" where
  "service_request req =
     \<lparr>rq_ProviderID = hq_ProviderID req, rq_ExternalTransactionID = hq_ExternalTransactionID req,
      rq_PlayerID = hq_PlayerID req, rq_WalletID = hq_WalletID req, rq_RoundID = hq_RoundID req,
      rq_GameID = hq_GameID req, rq_Kind = hq_Kind req,
      rq_Money = \<lparr>dto_Amount = (if hq_Kind req = ''LOSS'' then ''0.00'' else dto_Amount (hq_Money req)),
        dto_Currency = (if dto_Currency (hq_Money req) = '''' then ''BRL'' else dto_Currency (hq_Money req))\<rparr>,
      rq_ReferenceExternalID = hq_ReferenceExternalID req, rq_IdempotencyKey = ''''\<rparr>"

text \<open>The \<^verbatim>\<open>switch\<close> over the errors of the service.\<close>

definition process_error :: "gerr \<Rightarrow> Response" where
  "process_error err =
     (if errors_is err (WagerErr Wager_ErrPayloadConflict)
        then \<lparr>rs_status = 409, rs_body = json_error_message ''payload_conflict'' ''idempotency key reused with different payload''\<rparr>
      else if errors_is err (WagerErr Wager_ErrOPENINGRejected)
        then \<lparr>rs_status = 400, rs_body = json_error_message ''invalid_kind'' ''OPENING is reserved for internal wallet creation''\<rparr>
      else if errors_is err (WagerErr Wager_ErrInvalidMoney)
        then \<lparr>rs_status = 400, rs_body = json_error_message ''invalid_money'' (Error err)\<rparr>
      else if errors_is err (WagerErr Wager_ErrInvalidTransactionType)
        then \<lparr>rs_status = 400, rs_body = json_error_message ''invalid_kind'' ''kind must be BET, WIN, LOSS, REFUND, or ROLLBACK''\<rparr>
      else if errors_is err (WalletErr Wallet_ErrInsufficientBalance)
        then \<lparr>rs_status = 422, rs_body = json_error_message ''insufficient_balance'' ''wallet does not have sufficient balance''\<rparr>
      else if errors_is err (WalletErr Wallet_ErrConcurrentUpdate)
        then \<lparr>rs_status = 503, rs_body = json_error_message ''concurrent_update'' ''optimistic lock conflict, retry''\<rparr>
      else \<lparr>rs_status = 500, rs_body = json_error_message ''internal_error'' ''processing failed''\<rparr>)"

definition process_status :: "ProcessResult \<Rightarrow> nat" where
  "process_status result =
     (if pr_Status result = ''PENDING'' \<or> pr_Status result = ''PENDING_REFERENCE'' then 202
      else if pr_IdempotentReplay result then 200 else 201)"

definition process_body :: "ProcessResult \<Rightarrow> json" where
  "process_body result = JObject
     [(''transactionId'', JString (pr_TransactionID result)), (''status'', JString (pr_Status result)),
      (''balance'', money_body (pr_Balance result)), (''idempotentReplay'', JBool (pr_IdempotentReplay result))]"

definition WagerTransactionHandler_Create :: "env \<Rightarrow> http_request \<Rightarrow> Response eff" where
  "WagerTransactionHandler_Create E r =
     (let idempotencyKey = hr_header r ''Idempotency-Key'' in
      if TrimSpace idempotencyKey = ''''
      then writeJSON 400 (json_error_message ''missing_idempotency_key'' ''Idempotency-Key header is required'')
      else case unmarshal WagerTransactionRequest_fields (json_first (hr_body r)) empty_wager_request of
        None \<Rightarrow> writeJSON 400 (json_error_message ''invalid_json'' ''body must be a valid JSON object'')
      | Some req \<Rightarrow>
          if missing_field req
          then writeJSON 400 (json_error_message ''invalid_request''
            ''providerId, externalTransactionId, playerId, walletId, and kind are required'')
          else do {
            denied \<leftarrow> deny_provider E (hr_provider r) req;
            (case denied of
               Some response \<Rightarrow> ret response
             | None \<Rightarrow>
                 if hq_Kind req \<noteq> ''LOSS'' \<and>
                   (TrimSpace (dto_Amount (hq_Money req)) = '''' \<or> TrimSpace (dto_Currency (hq_Money req)) = '''')
                 then writeJSON 400 (json_error_message ''invalid_money''
                   ''money.amount and money.currency are required for non-LOSS transactions'')
                 else do {
                   result \<leftarrow> ProcessTransaction E (service_request req) idempotencyKey '''';
                   (case result of
                      Inl err \<Rightarrow> ret (process_error err)
                    | Inr res \<Rightarrow> writeJSON (process_status res) (process_body res))
                 })
          })"

fun Origin_string :: "Origin \<Rightarrow> string" where
  "Origin_string INTERNAL = ''INTERNAL''"
| "Origin_string EXTERNAL = ''EXTERNAL''"

definition transaction_body :: "Transaction \<Rightarrow> json" where
  "transaction_body tx = json_of_map
     [(''id'', JString (tx_id tx)), (''origin'', JString (Origin_string (tx_origin tx))),
      (''externalTransactionId'', JString (tx_externalID tx)), (''providerId'', JString (tx_provider tx)),
      (''walletId'', JString (tx_walletID tx)), (''playerId'', JString (tx_playerID tx)),
      (''roundId'', JString (tx_roundID tx)), (''gameId'', JString (tx_gameID tx)),
      (''kind'', JString (TransactionType_string (tx_transactionType tx))), (''amount'', money_body (tx_amount tx)),
      (''externalReferenceId'', JString (tx_externalReference tx)),
      (''internalReferenceId'', JString (tx_internalReference tx)),
      (''status'', JString (TransactionStatus_string (tx_status tx))), (''failureCode'', JString (tx_failureCode tx))]"

definition lookup_error :: "sentinel \<Rightarrow> string \<Rightarrow> gerr \<Rightarrow> ('s, Response) state" where
  "lookup_error missing code err =
     (if errors_is err missing then writeJSON 404 (json_error code) else writeJSON 500 (json_error ''internal_error''))"

definition WagerTransactionHandler_Get :: "env \<Rightarrow> http_request \<Rightarrow> string \<Rightarrow> Response eff" where
  "WagerTransactionHandler_Get E r txID =
     (if TrimSpace txID = '''' then writeJSON 400 (json_error ''invalid_transaction_id'')
      else do {
        found \<leftarrow> TxService_FindByID E txID;
        (case found of
           Inl err \<Rightarrow> lookup_error (WagerErr Wager_ErrTransactionNotFound) ''transaction_not_found'' err
         | Inr tx \<Rightarrow>
             if \<exists>providerID \<in> set_option (hr_provider r). tx_provider tx \<noteq> providerID
             then writeJSON 403 (json_error_message ''provider_mismatch'' ''transaction belongs to another provider'')
             else writeJSON 200 (transaction_body tx))
      })"

definition GetByProviderAndExternalID :: "env \<Rightarrow> http_request \<Rightarrow> string \<Rightarrow> string \<Rightarrow> Response eff" where
  "GetByProviderAndExternalID E r providerID externalID =
     (if TrimSpace providerID = '''' \<or> TrimSpace externalID = '''' then writeJSON 400 (json_error ''invalid_parameters'')
      else if \<exists>jwtProviderID \<in> set_option (hr_provider r). providerID \<noteq> jwtProviderID
        then writeJSON 403 (json_error_message ''provider_mismatch'' ''providerId in URL does not match authenticated provider'')
      else do {
        found \<leftarrow> TxService_FindByProviderAndExternalID E providerID externalID;
        (case found of
           Inl err \<Rightarrow> lookup_error (WagerErr Wager_ErrTransactionNotFound) ''transaction_not_found'' err
         | Inr tx \<Rightarrow> writeJSON 200 (transaction_body tx))
      })"

section \<open>Wallets\<close>

record WalletCreateRequest =
  cq_PlayerID :: string
  cq_InitialBalance :: MoneyDTO

definition WalletCreateRequest_fields :: "WalletCreateRequest field list" where
  "WalletCreateRequest_fields =
     [text_field ''playerId'' cq_PlayerID_update,
      struct_field ''initialBalance'' http_money_fields cq_InitialBalance cq_InitialBalance_update]"

text \<open>
  \<^verbatim>\<open>strings.ToUpper\<close>, on ASCII: no other character becomes one of the letters of the only valid
  currency.
\<close>

definition ToUpper :: "string \<Rightarrow> string" where
  "ToUpper s = map (\<lambda>c. if 97 \<le> byte c \<and> byte c \<le> 122 then char_of (byte c - 32) else c) s"

definition wallet_body :: "Wallet \<Rightarrow> json" where
  "wallet_body w = json_of_map
     [(''id'', JString (wal_id w)), (''playerId'', JString (wal_playerID w)), (''providerId'', JString (wal_providerID w)),
      (''balance'', http_money (Money_String (wal_balance w)) (wal_currency w)), (''version'', json_int (sint (wal_version w)))]"

definition WalletHandler_Create :: "env \<Rightarrow> http_request \<Rightarrow> Response eff" where
  "WalletHandler_Create E r =
     (case hr_provider r of
        None \<Rightarrow> writeJSON 403 (json_error_message ''missing_provider_id'' ''authenticated identity must have a provider_id'')
      | Some providerID \<Rightarrow>
          (case unmarshal WalletCreateRequest_fields (json_first (hr_body r)) \<lparr>cq_PlayerID = '''', cq_InitialBalance = empty_dto\<rparr> of
             None \<Rightarrow> writeJSON 400 (json_error_message ''invalid_json'' ''body must be a valid JSON object'')
           | Some req \<Rightarrow>
               if TrimSpace (cq_PlayerID req) = ''''
               then writeJSON 400 (json_error_message ''invalid_player_id'' ''playerId is required'')
               else
                 let cur = (if dto_Currency (cq_InitialBalance req) = '''' then ''BRL'' else dto_Currency (cq_InitialBalance req)) in
                 (case ParseMoney (dto_Amount (cq_InitialBalance req)) (ToUpper cur) of
                    Inl _ \<Rightarrow> writeJSON 400 (json_error_message ''invalid_money''
                      ''initialBalance.amount must be a valid decimal with at most 2 decimal places'')
                  | Inr parsed \<Rightarrow> do {
                      created \<leftarrow> CreateWallet E providerID (cq_PlayerID req) parsed;
                      (case created of
                         Inl err \<Rightarrow>
                           if errors_is err (WalletErr Wallet_ErrDuplicateWallet)
                           then writeJSON 409 (json_error_message ''duplicate_wallet''
                             ''wallet already exists for this player, currency and provider'')
                           else writeJSON 400 (json_error_message ''create_wallet_failed'' (Error err))
                       | Inr w \<Rightarrow> writeJSON 201 (wallet_body w))
                    })))"

definition WalletHandler_Get :: "env \<Rightarrow> http_request \<Rightarrow> string \<Rightarrow> Response eff" where
  "WalletHandler_Get E r walletID =
     (if TrimSpace walletID = '''' then writeJSON 400 (json_error ''invalid_wallet_id'')
      else do {
        found \<leftarrow> GetWallet E walletID;
        (case found of
           Inl err \<Rightarrow> lookup_error (WalletErr Wallet_ErrWalletNotFound) ''wallet_not_found'' err
         | Inr w \<Rightarrow>
             if \<exists>providerID \<in> set_option (hr_provider r). wal_providerID w \<noteq> providerID
             then writeJSON 403 (json_error_message ''provider_mismatch'' ''wallet belongs to another provider'')
             else writeJSON 200 (wallet_body w))
      })"

text \<open>The check that precedes the ledger and the reconciliation; \<open>k\<close> is the rest of the handler.\<close>

definition own_wallet :: "env \<Rightarrow> http_request \<Rightarrow> string \<Rightarrow> Response eff \<Rightarrow> Response eff" where
  "own_wallet E r walletID k =
     (case hr_provider r of
        None \<Rightarrow> k
      | Some providerID \<Rightarrow> do {
          found \<leftarrow> GetWallet E walletID;
          (case found of
             Inl err \<Rightarrow> lookup_error (WalletErr Wallet_ErrWalletNotFound) ''wallet_not_found'' err
           | Inr w \<Rightarrow>
               if wal_providerID w \<noteq> providerID
               then writeJSON 403 (json_error_message ''provider_mismatch'' ''wallet belongs to another provider'')
               else k)
        })"

text \<open>\<^verbatim>\<open>strconv.Atoi\<close>; the error is \<open>None\<close>.\<close>

definition Atoi :: "string \<Rightarrow> int option" where
  "Atoi s =
     (let ds = (case s of c # t \<Rightarrow> if c = CHR ''-'' \<or> c = CHR ''+'' then t else s | [] \<Rightarrow> s);
          n = (if HasPrefix s ''-'' then - int (dec_to_nat ds) else int (dec_to_nat ds))
      in if ds \<noteq> [] \<and> list_all is_digit ds \<and> in_int64 n then Some n else None)"

definition page_limit :: "string \<Rightarrow> int" where
  "page_limit limitRaw =
     (case Atoi limitRaw of Some v \<Rightarrow> if limitRaw \<noteq> '''' \<and> 0 < v then v else 50 | None \<Rightarrow> 50)"

definition entry_body :: "LedgerEntry \<Rightarrow> json" where
  "entry_body e = JObject
     [(''id'', JString (le_id e)), (''walletId'', JString (le_walletID e)), (''transactionId'', JString (le_transactionID e)),
      (''direction'', JString (Direction_string (le_direction e))),
      (''amount'', http_money (Money_String (le_amount e)) (le_currency e)),
      (''balanceBefore'', http_money (Money_String (le_balanceBefore e)) (le_currency e)),
      (''balanceAfter'', http_money (Money_String (le_balanceAfter e)) (le_currency e))]"

text \<open>A page without entries is a nil slice, which is written as \<^verbatim>\<open>null\<close>.\<close>

definition ledger_body :: "string \<Rightarrow> LedgerEntry list \<Rightarrow> string \<Rightarrow> json" where
  "ledger_body walletID entries nextCursor = json_of_map
     [(''walletId'', JString walletID),
      (''entries'', if entries = [] then JNull else JArray (map entry_body entries)),
      (''nextCursor'', JString nextCursor), (''hasMore'', JBool (nextCursor \<noteq> ''''))]"

definition WalletHandler_GetLedger :: "env \<Rightarrow> http_request \<Rightarrow> string \<Rightarrow> Response eff" where
  "WalletHandler_GetLedger E r walletID =
     (if TrimSpace walletID = '''' then writeJSON 400 (json_error ''invalid_wallet_id'')
      else own_wallet E r walletID (do {
        page \<leftarrow> GetLedger E walletID (hr_query r ''cursor'') (page_limit (hr_query r ''limit''));
        (case page of
           Inl _ \<Rightarrow> writeJSON 500 (json_error ''internal_error'')
         | Inr (entries, nextCursor) \<Rightarrow> writeJSON 200 (ledger_body walletID entries nextCursor))
      }))"

definition reconciliation_body :: "ReconciliationResult \<Rightarrow> json" where
  "reconciliation_body result = json_of_map
     [(''walletId'', JString (rr_WalletID result)), (''storedBalance'', money_body (rr_StoredBalance result)),
      (''calculatedBalance'', money_body (rr_CalculatedBalance result)),
      (''difference'', money_body (rr_Difference result)), (''consistent'', JBool (rr_Consistent result)),
      (''checkedEntries'', json_int (rr_CheckedEntries result))]"

text \<open>\<open>None\<close> is a reconciliation that has not come to an end.\<close>

definition WalletHandler_Reconcile :: "env \<Rightarrow> http_request \<Rightarrow> string \<Rightarrow> Response eff" where
  "WalletHandler_Reconcile E r walletID =
     (if TrimSpace walletID = '''' then writeJSON 400 (json_error ''invalid_wallet_id'')
      else own_wallet E r walletID (do {
        result \<leftarrow> Reconcile E walletID;
        (case result of
           Inl err \<Rightarrow> lookup_error (WalletErr Wallet_ErrWalletNotFound) ''wallet_not_found'' err
         | Inr None \<Rightarrow> writeJSON 500 (json_error ''internal_error'')
         | Inr (Some res) \<Rightarrow> writeJSON 200 (reconciliation_body res))
      }))"

section \<open>Routes\<close>

text \<open>The protected endpoints that \<^verbatim>\<open>RegisterRoutes\<close> registers, with the parameters of their paths.\<close>

datatype endpoint =
    Post_Wager_Transaction
  | Get_Wager_Transaction string
  | Get_Provider_Transaction string string
  | Post_Wallet
  | Get_Wallet string
  | Get_Wallet_Ledger string
  | Post_Reconciliation string

fun endpoint_path :: "endpoint \<Rightarrow> string" where
  "endpoint_path Post_Wager_Transaction = ''/wagering/transactions''"
| "endpoint_path (Get_Wager_Transaction i) = ''/wagering/transactions/'' @ i"
| "endpoint_path (Get_Provider_Transaction p i) = ''/providers/'' @ p @ ''/wagering/transactions/'' @ i"
| "endpoint_path Post_Wallet = ''/wallets/''"
| "endpoint_path (Get_Wallet i) = ''/wallets/'' @ i"
| "endpoint_path (Get_Wallet_Ledger i) = ''/wallets/'' @ i @ ''/ledger''"
| "endpoint_path (Post_Reconciliation i) = ''/wallets/'' @ i @ ''/reconciliation''"

fun serve :: "env \<Rightarrow> endpoint \<Rightarrow> http_request \<Rightarrow> Response eff" where
  "serve E Post_Wager_Transaction r = WagerTransactionHandler_Create E r"
| "serve E (Get_Wager_Transaction i) r = WagerTransactionHandler_Get E r i"
| "serve E (Get_Provider_Transaction p i) r = GetByProviderAndExternalID E r p i"
| "serve E Post_Wallet r = WalletHandler_Create E r"
| "serve E (Get_Wallet i) r = WalletHandler_Get E r i"
| "serve E (Get_Wallet_Ledger i) r = WalletHandler_GetLedger E r i"
| "serve E (Post_Reconciliation i) r = WalletHandler_Reconcile E r i"

section \<open>Health\<close>

definition live :: "('s, Response) state" where
  "live = writeJSON 200 (JObject [(''status'', JString ''ok'')])"

text \<open>\<^verbatim>\<open>pool.Ping\<close>\<close>

definition pool_Ping :: "env \<Rightarrow> unit go" where
  "pool_Ping E = do { n \<leftarrow> tick; (case env_fault E n of None \<Rightarrow> ok () | Some flt \<Rightarrow> fail (flt_err flt)) }"

definition checkSQS :: "aws \<Rightarrow> string \<Rightarrow> (node, gerr + unit) state" where
  "checkSQS A queueURL =
     (if queueURL = '''' then fail (Text ''SQS queue URL is empty'') else GetQueueAttributes A)"

definition checkStatus :: "bool \<Rightarrow> string" where
  "checkStatus up = (if up then ''up'' else ''down'')"

definition ready :: "env \<Rightarrow> aws \<Rightarrow> string \<Rightarrow> Response act" where
  "ready E A queueURL = do {
     postgres \<leftarrow> on_services (pool_Ping E);
     sqs \<leftarrow> checkSQS A queueURL;
     (let postgresOK = \<not> isl postgres; sqsOK = \<not> isl sqs in
      writeJSON (if postgresOK \<and> sqsOK then 200 else 503)
        (JObject [(''checks'', JObject [(''postgres'', JString (checkStatus postgresOK)), (''sqs'', JString (checkStatus sqsOK))]),
          (''status'', JString (if postgresOK \<and> sqsOK then ''ok'' else ''not_ready''))]))
   }"

end
