(* ===== verification/Token_Auth.thy ===== *)
theory Token_Auth
  imports Http_Handlers
begin

text \<open>
  \<^verbatim>\<open>internal/adapters/middleware\<close>: the cache of signing keys, the check of bearer tokens, the
  correlation identifier, and \<^verbatim>\<open>authHandler\<close> of \<^verbatim>\<open>cmd/api/main.go\<close>, which puts the check before the
  routes of the API. The key server and the JWT library are not part of the program: \<open>oidc\<close> says
  what they answer. Two requests that use the cache at the same time are not modelled; every
  section of the code that holds the mutex is one step here.

  The texts of errors that only decide between a refusal and an answer are abridged.
\<close>

section \<open>Base64\<close>

text \<open>\<^verbatim>\<open>base64.RawURLEncoding.DecodeString\<close>: line breaks are skipped, spare bits ignored.\<close>

definition b64_val :: "char \<Rightarrow> nat option" where
  "b64_val c =
     (if 65 \<le> byte c \<and> byte c \<le> 90 then Some (byte c - 65)
      else if 97 \<le> byte c \<and> byte c \<le> 122 then Some (byte c - 71)
      else if 48 \<le> byte c \<and> byte c \<le> 57 then Some (byte c + 4)
      else if c = CHR ''-'' then Some 62
      else if c = CHR ''_'' then Some 63
      else None)"

fun b64_values :: "string \<Rightarrow> nat list option" where
  "b64_values [] = Some []"
| "b64_values (c # s) =
     (case (b64_val c, b64_values s) of (Some v, Some vs) \<Rightarrow> Some (v # vs) | _ \<Rightarrow> None)"

fun b64_bytes :: "nat list \<Rightarrow> nat list option" where
  "b64_bytes [] = Some []"
| "b64_bytes [a] = None"
| "b64_bytes [a, b] = Some [a * 4 + b div 16]"
| "b64_bytes [a, b, c] = Some [a * 4 + b div 16, b mod 16 * 16 + c div 4]"
| "b64_bytes (a # b # c # d # vs) =
     map_option (\<lambda>bs. (a * 4 + b div 16) # (b mod 16 * 16 + c div 4) # (c mod 4 * 64 + d) # bs) (b64_bytes vs)"

definition RawURLEncoding_Decode :: "string \<Rightarrow> nat list option" where
  "RawURLEncoding_Decode s =
     Option.bind (b64_values (filter (\<lambda>c. c \<noteq> CHR 0x0A \<and> c \<noteq> CHR 0x0D) s)) b64_bytes"

section \<open>Keys\<close>

record rsa_key =
  rk_N :: nat
  rk_E :: nat

text \<open>\<^verbatim>\<open>big.Int.SetBytes\<close> and \<^verbatim>\<open>BitLen\<close>\<close>

definition SetBytes :: "nat list \<Rightarrow> nat" where
  "SetBytes bs = foldl (\<lambda>n b. n * 256 + b) 0 bs"

fun BitLen :: "nat \<Rightarrow> nat" where
  "BitLen n = (if n = 0 then 0 else Suc (BitLen (n div 2)))"

declare BitLen.simps [simp del]

definition parseRSAPublicKey :: "string \<Rightarrow> string \<Rightarrow> gerr + rsa_key" where
  "parseRSAPublicKey nStr eStr =
     (case RawURLEncoding_Decode nStr of
        None \<Rightarrow> Inl (Text ''decode modulus'')
      | Some nBytes \<Rightarrow>
          (case RawURLEncoding_Decode eStr of
             None \<Rightarrow> Inl (Text ''decode exponent'')
           | Some eBytes \<Rightarrow>
               if nBytes = [] then Inl (Text ''empty modulus'')
               else if eBytes = [] \<or> 4 < length eBytes then Inl (Text ''invalid exponent length'')
               else let n = SetBytes nBytes; e = SetBytes eBytes in
                 if n = 0 then Inl (Text ''modulus must be positive'')
                 else if BitLen n < 2048 then Inl (Text ''RSA modulus is too small'')
                 else if e < 3 \<or> e mod 2 = 0 then Inl (Text ''invalid RSA exponent'')
                 else Inr \<lparr>rk_N = n, rk_E = e\<rparr>))"

record jwk =
  jk_Kid :: string
  jk_N :: string
  jk_E :: string
  jk_Kty :: string
  jk_Alg :: string
  jk_Use :: string

text \<open>A list of strings that is checked and not used.\<close>

definition unused_texts :: "string \<Rightarrow> 's field" where
  "unused_texts name = (name, \<lambda>v x. (x,
     case v of
       JNull \<Rightarrow> False
     | JArray vs \<Rightarrow> list_ex (\<lambda>v. case v of JString _ \<Rightarrow> False | JNull \<Rightarrow> False | _ \<Rightarrow> True) vs
     | _ \<Rightarrow> True))"

definition jwk_fields :: "jwk field list" where
  "jwk_fields =
     [text_field ''kid'' jk_Kid_update, text_field ''n'' jk_N_update, text_field ''e'' jk_E_update,
      text_field ''kty'' jk_Kty_update, text_field ''alg'' jk_Alg_update, text_field ''use'' jk_Use_update,
      unused_texts ''key_ops'']"

definition empty_jwk :: jwk where
  "empty_jwk = \<lparr>jk_Kid = '''', jk_N = '''', jk_E = '''', jk_Kty = '''', jk_Alg = '''', jk_Use = ''''\<rparr>"

text \<open>
  The struct with the list \<^verbatim>\<open>keys\<close> is the list. When a document has the member twice, the second
  list is read as if the first were not there.
\<close>

definition jwks_fields :: "jwk list field list" where
  "jwks_fields = [(''keys'', \<lambda>v x.
     (case v of
        JNull \<Rightarrow> ([], False)
      | JArray vs \<Rightarrow> (let rs = map (\<lambda>v. decode_struct jwk_fields v empty_jwk) vs in (map fst rs, list_ex snd rs))
      | _ \<Rightarrow> (x, True)))]"

definition usable_key :: "string \<Rightarrow> jwk \<Rightarrow> rsa_key option" where
  "usable_key expectedAlg k =
     (if jk_Kty k \<noteq> ''RSA'' then None
      else if jk_Kid k = '''' then None
      else if jk_Alg k \<noteq> '''' \<and> jk_Alg k \<noteq> expectedAlg then None
      else if jk_Use k \<noteq> '''' \<and> jk_Use k \<noteq> ''sig'' then None
      else case parseRSAPublicKey (jk_N k) (jk_E k) of Inl _ \<Rightarrow> None | Inr key \<Rightarrow> Some key)"

fun collect_keys :: "string \<Rightarrow> jwk list \<Rightarrow> (string \<Rightarrow> rsa_key option) \<Rightarrow> (string \<Rightarrow> rsa_key option)" where
  "collect_keys alg [] m = m"
| "collect_keys alg (k # ks) m =
     collect_keys alg ks (case usable_key alg k of None \<Rightarrow> m | Some key \<Rightarrow> m(jk_Kid k := Some key))"

section \<open>The key validator\<close>

record OIDCConfig =
  oc_IssuerURL :: string
  oc_ClientID :: string
  oc_JWKSURL :: string
  oc_Algorithm :: string
  oc_CacheTTL :: int

record KeyValidator =
  kv_keys :: "string \<Rightarrow> rsa_key option"
  kv_cacheExpiry :: time
  kv_lastRefresh :: time
  kv_cacheTTL :: int
  kv_expectedAlg :: string
  kv_step :: nat

record jwt_header =
  jh_alg :: "string option"
  jh_kid :: "string option"

record JWTClaims =
  jc_ProviderID :: string
  jc_Subject :: string
  jc_ExpiresAt :: "time option"

text \<open>
  \<open>od_fetch n\<close> is the answer of the key server, its status and the text of its body, or the error of
  making or sending the request. \<open>od_header\<close> is the header that the library hands to the key
  function, \<open>None\<close> if it refuses the token before; \<open>od_verify tok key n\<close> are the claims it returns for a
  valid token when the key function returned \<open>key\<close>, at step \<open>n\<close>. An error of the key function is an
  error of the library.
\<close>

record oidc =
  od_clock :: "nat \<Rightarrow> time"
  od_fetch :: "nat \<Rightarrow> gerr + (nat \<times> string)"
  od_header :: "string \<Rightarrow> string \<Rightarrow> jwt_header option"
  od_verify :: "string \<Rightarrow> rsa_key \<Rightarrow> nat \<Rightarrow> JWTClaims option"

definition refreshCooldown :: int where
  "refreshCooldown = 30 * 10 ^ 9"

definition NewKeyValidator :: "OIDCConfig \<Rightarrow> KeyValidator" where
  "NewKeyValidator cfg =
     \<lparr>kv_keys = (\<lambda>_. None), kv_cacheExpiry = zero_time, kv_lastRefresh = zero_time,
      kv_cacheTTL = (if oc_CacheTTL cfg \<le> 0 then 5 * 60 * 10 ^ 9 else oc_CacheTTL cfg),
      kv_expectedAlg = (if oc_Algorithm cfg = '''' then ''RS256'' else oc_Algorithm cfg), kv_step = 0\<rparr>"

definition kv_tick :: "(KeyValidator, nat) state" where
  "kv_tick = State (\<lambda>kv. (kv_step kv, kv\<lparr>kv_step := Suc (kv_step kv)\<rparr>))"

definition kv_now :: "oidc \<Rightarrow> (KeyValidator, time) state" where
  "kv_now O0 = do { n \<leftarrow> kv_tick; ret (od_clock O0 n) }"

definition kv_get :: "(KeyValidator, KeyValidator) state" where
  "kv_get = State (\<lambda>kv. (kv, kv))"

definition kv_put :: "(KeyValidator \<Rightarrow> KeyValidator) \<Rightarrow> (KeyValidator, unit) state" where
  "kv_put f = State (\<lambda>kv. ((), f kv))"

text \<open>The keys of a response, or \<open>None\<close>.\<close>

definition read_jwks :: "string \<Rightarrow> gerr + (nat \<times> string) \<Rightarrow> (string \<Rightarrow> rsa_key option) option" where
  "read_jwks alg response =
     (case response of
        Inl _ \<Rightarrow> None
      | Inr (status, body) \<Rightarrow>
          if status \<noteq> 200 then None
          else case unmarshal jwks_fields (json_first (take (2 ^ 20) body)) [] of
            None \<Rightarrow> None
          | Some ks \<Rightarrow> if list_ex (\<lambda>k. usable_key alg k \<noteq> None) ks then Some (collect_keys alg ks (\<lambda>_. None)) else None)"

definition refreshKeys :: "oidc \<Rightarrow> (KeyValidator, gerr + unit) state" where
  "refreshKeys O0 = do {
     now \<leftarrow> kv_now O0;
     kv \<leftarrow> kv_get;
     (if now < kv_cacheExpiry kv \<and> kv_lastRefresh kv \<noteq> zero_time \<and> now - kv_lastRefresh kv < refreshCooldown then ok ()
      else do {
        _ \<leftarrow> kv_put (\<lambda>kv. kv\<lparr>kv_lastRefresh := now\<rparr>);
        n \<leftarrow> kv_tick;
        (case read_jwks (kv_expectedAlg kv) (od_fetch O0 n) of
           None \<Rightarrow> fail (Text ''JWKS'')
         | Some keys \<Rightarrow> do {
             now' \<leftarrow> kv_now O0;
             _ \<leftarrow> kv_put (\<lambda>kv. kv\<lparr>kv_keys := keys, kv_cacheExpiry := now' + kv_cacheTTL kv\<rparr>);
             ok ()
           })
      })
   }"

definition GetKey :: "oidc \<Rightarrow> jwt_header \<Rightarrow> (KeyValidator, gerr + rsa_key) state" where
  "GetKey O0 header = do {
     kv0 \<leftarrow> kv_get;
     (if jh_alg header \<noteq> Some (kv_expectedAlg kv0) then fail (Text ''unexpected signing algorithm'')
      else case jh_kid header of
        None \<Rightarrow> fail (Text ''missing kid in token header'')
      | Some kid \<Rightarrow>
          if TrimSpace kid = '''' then fail (Text ''missing kid in token header'')
          else do {
            now \<leftarrow> kv_now O0;
            kv \<leftarrow> kv_get;
            (if now < kv_cacheExpiry kv \<and> kv_keys kv kid \<noteq> None then ok (the (kv_keys kv kid))
             else
               bind_err
                 (if kv_cacheExpiry kv \<le> now \<or> kv_lastRefresh kv = zero_time \<or> refreshCooldown \<le> now - kv_lastRefresh kv
                  then refreshKeys O0 else ok ())
                 (Errorf ''refresh JWKS'') (\<lambda>_. do {
                   kv' \<leftarrow> kv_get;
                   (case kv_keys kv' kid of
                      None \<Rightarrow> fail (Text ''key not found in JWKS'')
                    | Some key \<Rightarrow> ok key)
                 }))
          })
   }"

section \<open>Bearer tokens\<close>

text \<open>\<^verbatim>\<open>strings.Fields\<close>: the first word and the rest.\<close>

fun first_word :: "string \<Rightarrow> string \<times> string" where
  "first_word [] = ([], [])"
| "first_word (c # s) =
     (if list_ex (\<lambda>p. p \<noteq> [] \<and> prefix p (c # s)) space_runes then ([], c # s)
      else (case first_word s of (w, rest) \<Rightarrow> (c # w, rest)))"

fun fields_fuel :: "nat \<Rightarrow> string \<Rightarrow> string list" where
  "fields_fuel 0 s = []"
| "fields_fuel (Suc k) s =
     (case first_word (strip_left space_runes s) of
        (w, rest) \<Rightarrow> if w = [] then [] else w # fields_fuel k rest)"

text \<open>A word has at least one byte, so the length of the text is enough fuel.\<close>

definition Fields :: "string \<Rightarrow> string list" where
  "Fields s = fields_fuel (length s) s"

definition oidc_algorithm :: "OIDCConfig \<Rightarrow> string" where
  "oidc_algorithm cfg = (if oc_Algorithm cfg = '''' then ''RS256'' else oc_Algorithm cfg)"

definition config_error :: "OIDCConfig \<Rightarrow> bool" where
  "config_error cfg \<longleftrightarrow> TrimSpace (oc_IssuerURL cfg) = '''' \<or> TrimSpace (oc_ClientID cfg) = '''' \<or>
     TrimSpace (oc_JWKSURL cfg) = '''' \<or> oidc_algorithm cfg \<noteq> ''RS256''"

definition ParseWithClaims :: "oidc \<Rightarrow> string \<Rightarrow> string \<Rightarrow> (KeyValidator, JWTClaims option) state" where
  "ParseWithClaims O0 algorithm tokenStr =
     (case od_header O0 algorithm tokenStr of
        None \<Rightarrow> ret None
      | Some header \<Rightarrow> do {
          key \<leftarrow> GetKey O0 header;
          (case key of
             Inl _ \<Rightarrow> ret None
           | Inr k \<Rightarrow> do { n \<leftarrow> kv_tick; ret (od_verify O0 tokenStr k n) })
        })"

definition unauthorized :: "string \<Rightarrow> string \<Rightarrow> Response" where
  "unauthorized code message = \<lparr>rs_status = 401, rs_body = json_error_message code message\<rparr>"

definition claimed_provider :: "JWTClaims \<Rightarrow> string" where
  "claimed_provider claims = (if jc_ProviderID claims = '''' then jc_Subject claims else jc_ProviderID claims)"

text \<open>The response that ends the request, or the provider that goes into the context.\<close>

definition authenticate :: "oidc \<Rightarrow> OIDCConfig \<Rightarrow> string \<Rightarrow> (KeyValidator, Response + string) state" where
  "authenticate O0 cfg authHeader =
     (if config_error cfg
      then ret (Inl \<lparr>rs_status = 500, rs_body = json_error_message ''server_misconfigured'' ''OIDC authentication is misconfigured''\<rparr>)
      else let parts = Fields authHeader in
        if length parts \<noteq> 2 \<or> map fold_char (parts ! 0) \<noteq> ''bearer''
        then ret (Inl (unauthorized ''invalid_authorization'' ''Authorization header must be Bearer token''))
        else do {
          claims \<leftarrow> ParseWithClaims O0 (oidc_algorithm cfg) (parts ! 1);
          ret (case claims of
             None \<Rightarrow> Inl (unauthorized ''invalid_token'' ''Token is invalid or expired'')
           | Some c \<Rightarrow>
               if jc_ExpiresAt c = None then Inl (unauthorized ''invalid_token'' ''Token expiration is required'')
               else if claimed_provider c = ''''
                 then Inl (unauthorized ''missing_subject'' ''Token must contain provider_id or sub'')
               else Inr (claimed_provider c))
        })"

section \<open>The server\<close>

record server =
  sv_auth :: KeyValidator
  sv_world :: world

definition on_auth :: "(KeyValidator, 'a) state \<Rightarrow> (server, 'a) state" where
  "on_auth m = State (\<lambda>s. case run_state m (sv_auth s) of (x, kv) \<Rightarrow> (x, s\<lparr>sv_auth := kv\<rparr>))"

definition on_world :: "'a eff \<Rightarrow> (server, 'a) state" where
  "on_world m = State (\<lambda>s. case run_state m (sv_world s) of (x, w) \<Rightarrow> (x, s\<lparr>sv_world := w\<rparr>))"

definition OIDCAuth ::
  "oidc \<Rightarrow> OIDCConfig \<Rightarrow> (http_request \<Rightarrow> (server, Response) state) \<Rightarrow> http_request \<Rightarrow> (server, Response) state" where
  "OIDCAuth O0 cfg handler r = do {
     outcome \<leftarrow> on_auth (authenticate O0 cfg (hr_header r ''Authorization''));
     (case outcome of
        Inl response \<Rightarrow> ret response
      | Inr providerID \<Rightarrow> handler (r\<lparr>hr_provider := Some providerID\<rparr>))
   }"

definition protected_path :: "string \<Rightarrow> bool" where
  "protected_path path \<longleftrightarrow> HasPrefix path ''/wagering'' \<or> HasPrefix path ''/providers/'' \<or> HasPrefix path ''/wallets''"

definition authHandler_ServeHTTP ::
  "oidc \<Rightarrow> OIDCConfig \<Rightarrow> (http_request \<Rightarrow> (server, Response) state) \<Rightarrow> string \<Rightarrow> http_request \<Rightarrow> (server, Response) state" where
  "authHandler_ServeHTTP O0 cfg inner path r =
     (if protected_path path then OIDCAuth O0 cfg inner r else inner r)"

text \<open>
  The part of \<^verbatim>\<open>NewHTTPServer\<close> that puts the handlers together: the OIDC configuration with its
  cache lifetime of five minutes, and the check in front of the routes when it is switched on.
\<close>

definition server_config :: "ident \<Rightarrow> ident \<Rightarrow> ident \<Rightarrow> OIDCConfig" where
  "server_config issuerURL clientID jwksURL =
     \<lparr>oc_IssuerURL = issuerURL, oc_ClientID = clientID, oc_JWKSURL = jwksURL, oc_Algorithm = '''', oc_CacheTTL = 5 * 60 * 10 ^ 9\<rparr>"

definition api :: "env \<Rightarrow> oidc \<Rightarrow> bool \<Rightarrow> OIDCConfig \<Rightarrow> endpoint \<Rightarrow> http_request \<Rightarrow> (server, Response) state" where
  "api E O0 enabled cfg ep r =
     (let router = (\<lambda>r. on_world (serve E ep r)) in
      if enabled then authHandler_ServeHTTP O0 cfg router (endpoint_path ep) r else router r)"

section \<open>Correlation\<close>

definition hex_EncodeToString :: "nat list \<Rightarrow> string" where
  "hex_EncodeToString bs = concat (map (\<lambda>b. [hex_digit (b div 16), hex_digit (b mod 16)]) bs)"

text \<open>\<open>random\<close> are the eight bytes of \<^verbatim>\<open>rand.Read\<close>, \<open>None\<close> for its error.\<close>

definition CorrelationID :: "(string \<Rightarrow> string) \<Rightarrow> nat list option \<Rightarrow> string" where
  "CorrelationID header random =
     (if header ''X-Correlation-ID'' \<noteq> '''' then header ''X-Correlation-ID''
      else if header ''X-Request-ID'' \<noteq> '''' then header ''X-Request-ID''
      else case random of None \<Rightarrow> '''' | Some b \<Rightarrow> hex_EncodeToString b)"

section \<open>Keys that are accepted\<close>

lemma BitLen_le: "BitLen n \<le> k \<longleftrightarrow> n < 2 ^ k"
proof (induction k arbitrary: n)
  case 0
  then show ?case by (subst BitLen.simps) auto
next
  case (Suc k)
  have "BitLen n \<le> Suc k \<longleftrightarrow> n = 0 \<or> BitLen (n div 2) \<le> k" by (subst BitLen.simps) auto
  also have "\<dots> \<longleftrightarrow> n < 2 ^ Suc k" using div_less_iff_less_mult [of 2 n "2 ^ k"] by (auto simp: Suc.IH)
  finally show ?case .
qed

text \<open>A key of at least 2048 bits with an odd exponent of at least 3 that fits four bytes.\<close>

definition strong_key :: "rsa_key \<Rightarrow> bool" where
  "strong_key key \<longleftrightarrow> 2 ^ 2047 \<le> rk_N key \<and> 3 \<le> rk_E key \<and> odd (rk_E key)"

lemma parseRSAPublicKey_strong: "parseRSAPublicKey n e = Inr key \<Longrightarrow> strong_key key"
  using BitLen_le [of "rk_N key" 2047]
  by (auto simp: parseRSAPublicKey_def strong_key_def Let_def odd_iff_mod_2_eq_one split: option.splits if_splits)

definition keys_ok :: "(string \<Rightarrow> rsa_key option) \<Rightarrow> bool" where
  "keys_ok m \<longleftrightarrow> (\<forall>kid key. m kid = Some key \<longrightarrow> strong_key key)"

lemma usable_key_strong: "usable_key alg k = Some key \<Longrightarrow> strong_key key"
  by (auto simp: usable_key_def split: if_splits sum.splits dest: parseRSAPublicKey_strong)

lemma collect_keys_ok: "keys_ok m \<Longrightarrow> keys_ok (collect_keys alg ks m)"
proof (induction ks arbitrary: m)
  case (Cons k ks)
  have "keys_ok (case usable_key alg k of None \<Rightarrow> m | Some key \<Rightarrow> m(jk_Kid k := Some key))"
    using Cons.prems usable_key_strong by (auto simp: keys_ok_def split: option.split)
  then show ?case by (simp add: Cons.IH)
qed simp

lemma read_jwks_ok: "read_jwks alg r = Some m \<Longrightarrow> keys_ok m"
proof -
  have "keys_ok (collect_keys alg ks (\<lambda>_. None))" for ks by (rule collect_keys_ok) (simp add: keys_ok_def)
  moreover assume "read_jwks alg r = Some m"
  ultimately show ?thesis by (auto simp: read_jwks_def split: sum.splits if_splits option.splits)
qed

section \<open>Weakest preconditions\<close>

lemma wp_kv_tick: "wp kv_tick Q kv \<longleftrightarrow> Q (kv_step kv) (kv\<lparr>kv_step := Suc (kv_step kv)\<rparr>)"
  by (simp add: kv_tick_def wp_State)

lemma wp_kv_get: "wp kv_get Q kv \<longleftrightarrow> Q kv kv"
  by (simp add: kv_get_def wp_State)

lemma wp_kv_put: "wp (kv_put f) Q kv \<longleftrightarrow> Q () (f kv)"
  by (simp add: kv_put_def wp_State)

lemma wp_kv_now: "wp (kv_now O0) Q kv \<longleftrightarrow> Q (od_clock O0 (kv_step kv)) (kv\<lparr>kv_step := Suc (kv_step kv)\<rparr>)"
  by (simp add: kv_now_def wp_rules wp_kv_tick)

lemma wp_on_auth: "wp (on_auth m) Q s \<longleftrightarrow> wp m (\<lambda>x kv. Q x (s\<lparr>sv_auth := kv\<rparr>)) (sv_auth s)"
  by (simp add: on_auth_def wp_def split: prod.split)

lemma wp_on_world: "wp (on_world m) Q s \<longleftrightarrow> wp m (\<lambda>x w. Q x (s\<lparr>sv_world := w\<rparr>)) (sv_world s)"
  by (simp add: on_world_def wp_def split: prod.split)

lemmas kv_rules = wp_kv_tick wp_kv_get wp_kv_put wp_kv_now

text \<open>The invariant of the cache: every key is strong.\<close>

definition kv_ok :: "KeyValidator \<Rightarrow> bool" where
  "kv_ok kv \<longleftrightarrow> keys_ok (kv_keys kv)"

lemma kv_ok_simps [simp]: "kv_ok (kv\<lparr>kv_step := n\<rparr>) = kv_ok kv" "kv_ok (kv\<lparr>kv_lastRefresh := t\<rparr>) = kv_ok kv"
  "kv_ok (kv\<lparr>kv_keys := m, kv_cacheExpiry := t\<rparr>) = keys_ok m"
  by (simp_all add: kv_ok_def)

lemma refreshKeys_ok: "kv_ok kv \<Longrightarrow> wp (refreshKeys O0) (\<lambda>_ kv'. kv_ok kv' \<and> kv_expectedAlg kv' = kv_expectedAlg kv) kv"
  by (auto simp: refreshKeys_def wp_rules kv_rules dest: read_jwks_ok split: option.split)

lemma GetKey_ok:
  "kv_ok kv \<Longrightarrow> wp (GetKey O0 h) (\<lambda>x kv'. kv_ok kv' \<and> kv_expectedAlg kv' = kv_expectedAlg kv \<and>
     (\<forall>key. x = Inr key \<longrightarrow> strong_key key \<and> jh_alg h = Some (kv_expectedAlg kv) \<and>
        (\<exists>kid. jh_kid h = Some kid \<and> kv_keys kv' kid = Some key))) kv"
  unfolding GetKey_def wp_bind wp_kv_get wp_if
  by (auto simp: wp_rules kv_rules kv_ok_def keys_ok_def split: option.split
      intro!: wp_mono [OF refreshKeys_ok] split: sum.split)

end
