(* ===== verification/Provider_Isolation.thy ===== *)
theory Provider_Isolation
  imports Queries Token_Auth Wallet_Opening
begin

text \<open>
  What a request over HTTP can do to the tables and what it can learn from them: everything is
  confined to the provider that the token names.
\<close>

section \<open>Endpoints that only read\<close>

lemma reading_writeJSON [reading_intros]: "reading (writeJSON n v)" "reading (lookup_error s code err)"
  by (simp_all add: writeJSON_def lookup_error_def reading_ret)

lemma reading_own_wallet: "reading k \<Longrightarrow> reading (own_wallet E r i k)"
  unfolding own_wallet_def by (auto intro!: reading_intros reading_bind split: option.split sum.split)

fun read_only :: "endpoint \<Rightarrow> bool" where
  "read_only Post_Wager_Transaction \<longleftrightarrow> False"
| "read_only Post_Wallet \<longleftrightarrow> False"
| "read_only _ \<longleftrightarrow> True"

lemma reading_serve:
  assumes "read_only ep"
  shows "reading (serve E ep r)"
  using assms
  by (cases ep) (auto simp: WagerTransactionHandler_Get_def GetByProviderAndExternalID_def WalletHandler_Get_def
      WalletHandler_GetLedger_def WalletHandler_Reconcile_def
      intro!: reading_intros reading_bind reading_own_wallet split: sum.split prod.split option.split)

section \<open>What is read\<close>

text \<open>The owner of a wallet: the provider as the program reads it, without surrounding blanks.\<close>

definition owner :: "wallet_row \<Rightarrow> ident" where
  "owner wr = wal_providerID (wallet_of wr)"

text \<open>
  \<open>owned E p d ep v\<close>: the answer \<open>v\<close> of the endpoint is made from a wallet or a transaction of the
  provider \<open>p\<close> in the tables \<open>d\<close>, the one that the path names.
\<close>

definition own_wallet_at :: "env \<Rightarrow> ident \<Rightarrow> db \<Rightarrow> ident \<Rightarrow> wallet_row \<Rightarrow> bool" where
  "own_wallet_at E p d i wr \<longleftrightarrow> wallet_at E d i wr \<and> owner wr = p"

fun owned :: "env \<Rightarrow> ident \<Rightarrow> db \<Rightarrow> endpoint \<Rightarrow> json \<Rightarrow> bool" where
  "owned E p d (Get_Wager_Transaction i) v \<longleftrightarrow> (\<exists>row \<in> set (db_txs d). \<exists>tx.
     env_uuid E i = Some (tr_id row) \<and> tx_of_row row = Inr tx \<and> tx_provider tx = p \<and> v = transaction_body tx)"
| "owned E p d (Get_Provider_Transaction p' i) v \<longleftrightarrow> p' = p \<and> (\<exists>row \<in> set (db_txs d). \<exists>tx.
     tr_provider row = Some p \<and> tr_external_id row = Some i \<and> tx_of_row row = Inr tx \<and> v = transaction_body tx)"
| "owned E p d (Get_Wallet i) v \<longleftrightarrow> (\<exists>wr. own_wallet_at E p d i wr \<and> v = wallet_body (wallet_of wr))"
| "owned E p d (Get_Wallet_Ledger i) v \<longleftrightarrow> (\<exists>wr es c. own_wallet_at E p d i wr \<and> v = ledger_body i es c \<and>
     (\<forall>e \<in> set es. \<exists>l \<in> set (ledger_of (wr_id wr) d). entry_of_row l = Inr e))"
| "owned E p d (Post_Reconciliation i) v \<longleftrightarrow>
     (\<exists>wr res. own_wallet_at E p d i wr \<and> v = reconciliation_body res \<and> reconciled i wr d res)"
| "owned E p d _ v \<longleftrightarrow> True"

lemma wp_writeJSON: "wp (writeJSON n v) Q w = Q \<lparr>rs_status = n, rs_body = v\<rparr> w"
  by (simp add: writeJSON_def wp_ret)

lemma wp_own_wallet:
  assumes "hr_provider r = Some p"
    and k: "\<And>w' wr. w_db w' = w_db w \<Longrightarrow> own_wallet_at E p (w_db w) i wr \<Longrightarrow> wp k (\<lambda>x w'. Q x) w'"
    and err: "\<And>x. rs_status x \<noteq> 200 \<Longrightarrow> Q x"
  shows "wp (own_wallet E r i k) (\<lambda>x w'. Q x) w"
  unfolding own_wallet_def assms(1) option.case wp_bind
  by (rule wp_GetWallet)
    (auto simp: writeJSON_def wp_ret lookup_error_def own_wallet_at_def owner_def intro!: err intro: k)

lemma page_entries: "set (fst (ledger_page E limit es)) \<subseteq> set es"
  by (auto simp: ledger_page_def Let_def dest: in_set_takeD)

lemma rows_read:
  assumes "list_all2 (\<lambda>r e. entry_of_row r = Inr e) rows es" and "prefix rows (first_rows u n d)" and "e \<in> set es"
  shows "\<exists>l \<in> set (ledger_of u d). entry_of_row l = Inr e"
proof -
  have "set rows \<subseteq> set (ledger_of u d)"
    using set_mono_prefix [OF assms(2)] set_take_subset [of "nat n" "sort_key ledger_key (ledger_of u d)"]
    unfolding first_rows_def set_sort by blast
  moreover from assms(1,3) have "\<exists>r \<in> set rows. entry_of_row r = Inr e" by (induction rule: list_all2_induct) auto
  ultimately show ?thesis by blast
qed

lemma page_limit_pos: "0 < page_limit s"
  by (auto simp: page_limit_def split: option.split)

lemma wp_ledger_owned:
  assumes "own_wallet_at E p (w_db w) i wr" and "w_db w' = w_db w" and "0 < limit"
  shows "wp (GetLedger E i cursor limit) (\<lambda>page. wp (case page of
       Inl _ \<Rightarrow> writeJSON 500 (json_error ''internal_error'')
     | Inr (entries, nextCursor) \<Rightarrow> writeJSON 200 (ledger_body i entries nextCursor))
     (\<lambda>x w'. rs_status x = 200 \<longrightarrow> owned E p (w_db w) (Get_Wallet_Ledger i) (rs_body x))) w'"
proof (cases "cursor = ''''")
  case True
  have "wp (LedgerRepo_FindByWalletID E i '''' limit) (\<lambda>page. wp (case page of
       Inl _ \<Rightarrow> writeJSON 500 (json_error ''internal_error'')
     | Inr (entries, nextCursor) \<Rightarrow> writeJSON 200 (ledger_body i entries nextCursor))
     (\<lambda>x w'. rs_status x = 200 \<longrightarrow> owned E p (w_db w) (Get_Wallet_Ledger i) (rs_body x))) w'"
  proof (rule wp_first_page [OF assms(3)], goal_cases)
    case (1 e w1)
    then show ?case by (simp add: wp_writeJSON)
  next
    case (2 u rows es w1)
    obtain page c where c: "ledger_page E limit es = (page, c)" by (cases "ledger_page E limit es")
    have u: "u = wr_id wr" using 2(2) assms(1) by (simp add: own_wallet_at_def wallet_at_def)
    have "\<forall>e \<in> set page. \<exists>l \<in> set (ledger_of (wr_id wr) (w_db w)). entry_of_row l = Inr e"
      using page_entries [of E limit es] rows_read [OF 2(5,3)] c u assms(2) by auto
    then show ?case using assms(1) c by (auto simp: wp_writeJSON)
  qed
  then show ?thesis using True assms(3) by (simp add: GetLedger_def wp_writeJSON wp_ret)
next
  case False
  then have "wp (LedgerRepo_FindByWalletID E i cursor limit) (\<lambda>page. wp (case page of
       Inl _ \<Rightarrow> writeJSON 500 (json_error ''internal_error'')
     | Inr (entries, nextCursor) \<Rightarrow> writeJSON 200 (ledger_body i entries nextCursor))
     (\<lambda>x w'. rs_status x = 200 \<longrightarrow> owned E p (w_db w) (Get_Wallet_Ledger i) (rs_body x))) w'"
    by (rule wp_later_page) (simp add: wp_writeJSON)
  then show ?thesis using assms(3) by (simp add: GetLedger_def wp_writeJSON wp_ret)
qed

lemma wp_reconciliation_owned:
  assumes "own_wallet_at E p (w_db w) i wr" and "w_db w' = w_db w"
  shows "wp (Reconcile E i) (\<lambda>result. wp (case result of
       Inl err \<Rightarrow> lookup_error (WalletErr Wallet_ErrWalletNotFound) ''wallet_not_found'' err
     | Inr None \<Rightarrow> writeJSON 500 (json_error ''internal_error'')
     | Inr (Some res) \<Rightarrow> writeJSON 200 (reconciliation_body res))
     (\<lambda>x w'. rs_status x = 200 \<longrightarrow> owned E p (w_db w) (Post_Reconciliation i) (rs_body x))) w'"
proof (rule wp_Reconcile, goal_cases)
  case (1 e w1)
  then show ?case by (simp add: lookup_error_def wp_if wp_writeJSON)
next
  case (2 wr' res w1)
  have "wr' = wr" using 2(2) assms by (auto simp: own_wallet_at_def dest: wallet_at_unique)
  then show ?case using 2(3) assms by (auto simp: wp_writeJSON)
qed

lemma wp_owned:
  assumes "hr_provider r = Some p" and "read_only ep"
  shows "wp (serve E ep r) (\<lambda>x w'. rs_status x = 200 \<longrightarrow> owned E p (w_db w) ep (rs_body x)) w"
proof (cases ep)
  case (Get_Wager_Transaction i)
  have "wp (TxRepo_FindByID E i) (\<lambda>found. wp (case found of
         Inl err \<Rightarrow> lookup_error (WagerErr Wager_ErrTransactionNotFound) ''transaction_not_found'' err
       | Inr tx \<Rightarrow>
           if \<exists>providerID \<in> set_option (hr_provider r). tx_provider tx \<noteq> providerID
           then writeJSON 403 (json_error_message ''provider_mismatch'' ''transaction belongs to another provider'')
           else writeJSON 200 (transaction_body tx))
      (\<lambda>x w'. rs_status x = 200 \<longrightarrow> owned E p (w_db w) ep (rs_body x))) w"
  proof (rule wp_FindByID_tx, goal_cases)
    case (1 e w')
    then show ?case by (simp add: lookup_error_def writeJSON_def wp_ret)
  next
    case (2 row u tx w')
    then have "row \<in> set (db_txs (w_db w)) \<and> u = tr_id row" by (auto simp: find_Some_iff)
    then show ?case using 2(2,4) assms(1) Get_Wager_Transaction by (auto simp: wp_writeJSON)
  qed
  then show ?thesis
    using Get_Wager_Transaction by (simp add: WagerTransactionHandler_Get_def TxService_FindByID_def wp_bind wp_if wp_writeJSON)
next
  case (Get_Provider_Transaction p' i)
  have "wp (TxRepo_FindByProviderAndExternalID E p i) (\<lambda>found. wp (case found of
         Inl err \<Rightarrow> lookup_error (WagerErr Wager_ErrTransactionNotFound) ''transaction_not_found'' err
       | Inr tx \<Rightarrow> writeJSON 200 (transaction_body tx))
      (\<lambda>x w'. rs_status x = 200 \<longrightarrow> owned E p (w_db w) (Get_Provider_Transaction p i) (rs_body x))) w"
  proof (rule wp_FindByProviderAndExternalID, goal_cases)
    case (1 e w')
    then show ?case by (simp add: lookup_error_def writeJSON_def wp_ret)
  next
    case (2 row tx w')
    then have "row \<in> set (db_txs (w_db w)) \<and> tr_provider row = Some p \<and> tr_external_id row = Some i" by (auto simp: find_Some_iff)
    then show ?case using 2(3) by (auto simp: wp_writeJSON)
  qed
  then show ?thesis
    using assms(1) Get_Provider_Transaction
    by (auto simp: GetByProviderAndExternalID_def TxService_FindByProviderAndExternalID_def wp_bind wp_if wp_writeJSON)
next
  case (Get_Wallet i)
  then show ?thesis
    using assms(1)
    by (auto simp: WalletHandler_Get_def wp_rules writeJSON_def lookup_error_def own_wallet_at_def owner_def intro!: wp_GetWallet)
next
  case (Get_Wallet_Ledger i)
  then show ?thesis
    using page_limit_pos
    by (auto simp: WalletHandler_GetLedger_def wp_if wp_writeJSON wp_bind simp del: owned.simps
        intro!: wp_own_wallet [OF assms(1)] wp_ledger_owned)
next
  case (Post_Reconciliation i)
  then show ?thesis
    by (auto simp: WalletHandler_Reconcile_def wp_if wp_writeJSON wp_bind simp del: owned.simps
        intro!: wp_own_wallet [OF assms(1)] wp_reconciliation_owned)
qed (use assms in simp_all)

section \<open>What is written\<close>

text \<open>
  \<open>confined sep E p d d'\<close>: the change from \<open>d\<close> to \<open>d'\<close> is one of the specification and touches nothing of
  another provider: the wallets of others are the same rows in the same order, no transaction and
  no ledger entry is lost or altered, and what is added belongs to wallets of \<open>p\<close>.
\<close>

definition foreign :: "ident \<Rightarrow> db \<Rightarrow> wallet_row list" where
  "foreign p d = filter (\<lambda>wr. owner wr \<noteq> TrimSpace p) (db_wallets d)"

definition mine :: "ident \<Rightarrow> db \<Rightarrow> ident \<Rightarrow> bool" where
  "mine p d i \<longleftrightarrow> (\<exists>wr \<in> set (db_wallets d). wr_id wr = i \<and> owner wr = TrimSpace p)"

definition confined :: "bool \<Rightarrow> env \<Rightarrow> ident \<Rightarrow> db \<Rightarrow> db \<Rightarrow> bool" where
  "confined sep E p d d' \<longleftrightarrow> db_step sep (canonical E) d d' \<and> foreign p d' = foreign p d \<and>
     (\<exists>ts ls. db_txs d' = db_txs d @ ts \<and> db_ledger d' = db_ledger d @ ls \<and>
        (\<forall>t \<in> set ts. mine p d' (tr_wallet_id t) \<and> (tr_provider t = Some p \<or> tr_transaction_type t = OPENING)) \<and>
        (\<forall>l \<in> set ls. mine p d' (lr_wallet_id l)))"

lemma owner_with_balance [simp]: "owner (with_balance wr b s) = owner wr"
  by (simp add: owner_def wallet_of_def with_balance_def)

lemma foreign_replace:
  assumes "\<And>x. x \<in> set xs \<Longrightarrow> wr_id x = i \<Longrightarrow> \<not> P x" and "\<not> P r"
  shows "filter P (replace_id wr_id i r xs) = filter P xs"
  using assms by (induction xs) (auto simp: replace_id_def)

text \<open>A step that adds a transaction on an existing wallet changes at most the balance of that wallet.\<close>

lemma step_keeps_foreign:
  assumes "db_step sep U d d'" and "db_txs d' = db_txs d @ [t]" and "wr \<in> set (db_wallets d)" and "tr_wallet_id t = wr_id wr"
    and "distinct (map wr_id (db_wallets d))" and "owner wr = TrimSpace p"
  shows "foreign p d' = foreign p d" and "mine p d' (wr_id wr)"
proof -
  have own: "owner x = TrimSpace p" if "x \<in> set (db_wallets d)" "wr_id x = wr_id wr" for x
    using row_unique [OF assms(5) that(1) assms(3) that(2)] assms(6) by simp
  have len: "length (db_txs d') = Suc (length (db_txs d))" by (simp add: assms(2))
  have "foreign p d' = foreign p d \<and> mine p d' (wr_id wr)"
    using assms(1)
  proof cases
    case (open_funded wr' r l evs)
    then have "wr_id wr' = wr_id wr" using assms(2,4) by (simp add: entry_for_def)
    then show ?thesis using open_funded(4) assms(3) by (auto simp: wallet_constraints_def list_ex_iff split: if_splits)
  next
    case (book r wr' dir l evs ib now)
    then have i: "wr_id wr' = wr_id wr" using assms(2,4) by (simp add: entry_for_def)
    let ?r = "with_balance wr' (lr_balance_after l) now"
    have r: "wr_id ?r = wr_id wr" "owner ?r = TrimSpace p" using i own [OF book(3)] by simp_all
    have "?r \<in> set (db_wallets d')" using book(1) i imageI [OF book(3), of wr_id] by (simp add: set_replace_id)
    then have "mine p d' (wr_id wr)" using r unfolding mine_def by blast
    then show ?thesis
      using book(1) i r own foreign_replace [of "db_wallets d" "wr_id wr" "\<lambda>wr. owner wr \<noteq> TrimSpace p" ?r]
      by (simp add: foreign_def)
  next
    case (record_only r ib evs)
    then show ?thesis using assms(3,6) by (auto simp: foreign_def mine_def)
  qed (use len in \<open>simp_all add: replace_id_def\<close>)
  then show "foreign p d' = foreign p d" "mine p d' (wr_id wr)" by simp_all
qed

lemma served_confined:
  assumes "served sep E p i key d d'" and "wallet_at E d i wr" and "owner wr = p" and "p \<noteq> ''''"
    and "distinct (map wr_id (db_wallets d))"
  shows "confined sep E p d d'"
proof -
  obtain t ls where t: "db_txs d' = db_txs d @ [t]" "tr_provider t = nullString p" "env_uuid E i = Some (tr_wallet_id t)"
      "db_ledger d' = db_ledger d @ ls" "\<forall>l \<in> set ls. lr_wallet_id l = tr_wallet_id t"
    using assms(1) by (auto simp: served_def)
  have id: "tr_wallet_id t = wr_id wr" using assms(2) t(3) by (simp add: wallet_at_def)
  have "owner wr = TrimSpace p" using assms(3) by (auto simp: owner_def wallet_of_def)
  note step_keeps_foreign [OF served_step [OF assms(1)] t(1) wallet_at_mem [OF assms(2)] id assms(5) this]
  then show ?thesis
    using t assms(4) id served_step [OF assms(1)] by (auto simp: confined_def nullString_def)
qed

lemma opened_confined:
  assumes "opened E playerID p bal d wr d'" and "money_currency bal = BRL" and "0 \<le> cents bal"
  shows "confined sep E p d d'"
proof -
  have "owner wr = TrimSpace p" using assms(1) by (auto simp: opened_def new_wallet_row_def owner_def wallet_of_def)
  then show ?thesis
    using assms(1) opened_step [OF assms] unfolding confined_def
    by (cases "IsZero bal") (auto simp: opened_def foreign_def mine_def entry_for_def opening_row_def)
qed

lemma wp_deny_provider:
  assumes "\<And>x w'. w_db w' = w_db w \<Longrightarrow> Q (Some x) w'"
    and "\<And>wr w'. w_db w' = w_db w \<Longrightarrow> hq_ProviderID req = p \<Longrightarrow> wallet_at E (w_db w) (hq_WalletID req) wr \<Longrightarrow>
      owner wr = p \<Longrightarrow> Q None w'"
  shows "wp (deny_provider E (Some p) req) Q w"
  unfolding deny_provider_def option.case wp_if wp_bind wp_ret
  by (auto intro!: wp_GetWallet assms simp: owner_def)

lemma wp_transaction_confined:
  assumes "env_ok E" and inv: "db_inv sep (canonical E) (w_db w)" and "hr_provider r = Some p"
    and Q: "\<And>x w'. w_db w' = w_db w \<or> confined sep E p (w_db w) (w_db w') \<Longrightarrow> Q x w'"
  shows "wp (WagerTransactionHandler_Create E r) Q w"
proof (cases "unmarshal WagerTransactionRequest_fields (json_first (hr_body r)) empty_wager_request")
  case None
  then show ?thesis by (auto simp: WagerTransactionHandler_Create_def Let_def wp_rules writeJSON_def intro!: Q)
next
  case (Some req)
  have "wp (do {
      denied \<leftarrow> deny_provider E (hr_provider r) req;
      (case denied of
         Some response \<Rightarrow> ret response
       | None \<Rightarrow>
           if hq_Kind req \<noteq> ''LOSS'' \<and>
             (TrimSpace (dto_Amount (hq_Money req)) = '''' \<or> TrimSpace (dto_Currency (hq_Money req)) = '''')
           then writeJSON 400 (json_error_message ''invalid_money''
             ''money.amount and money.currency are required for non-LOSS transactions'')
           else do {
             result \<leftarrow> ProcessTransaction E (service_request req) key '''';
             (case result of
                Inl err \<Rightarrow> ret (process_error err)
              | Inr res \<Rightarrow> writeJSON (process_status res) (process_body res))
           })
    }) Q w" if ne: "\<not> missing_field req" for key
    unfolding assms(3) wp_bind
  proof (rule wp_deny_provider, goal_cases)
    case (1 x w')
    then show ?case by (auto simp: wp_ret intro!: Q)
  next
    case (2 wr w')
    have "TrimSpace '''' = ''''" by code_simp
    then have p: "p \<noteq> ''''" using ne 2(2) by (auto simp: missing_field_def)
    have d: "distinct (map wr_id (db_wallets (w_db w)))" using inv by (simp add: db_inv_def keys_inv_def)
    have "wp (ProcessTransaction E (service_request req) key '''') (\<lambda>result. wp (case result of
        Inl err \<Rightarrow> ret (process_error err) | Inr res \<Rightarrow> writeJSON (process_status res) (process_body res)) Q) w'"
      by (rule wp_ProcessTransaction [OF assms(1)])
        (use inv 2 served_confined [OF _ 2(3,4) p d] in
          \<open>auto simp: service_request_def wp_ret writeJSON_def split: sum.split intro!: Q\<close>)
    then show ?case
      unfolding option.case wp_if wp_bind using 2(1) by (auto simp: wp_ret wp_sum writeJSON_def intro!: Q)
  qed
  then show ?thesis using Some by (auto simp: WagerTransactionHandler_Create_def Let_def wp_rules writeJSON_def intro!: Q)
qed

lemma wp_wallet_confined:
  assumes "env_ok E" and inv: "db_inv sep (canonical E) (w_db w)" and "hr_provider r = Some p"
    and Q: "\<And>x w'. w_db w' = w_db w \<or> confined sep E p (w_db w) (w_db w') \<Longrightarrow> Q x w'"
  shows "wp (WalletHandler_Create E r) Q w"
proof -
  have "wp (CreateWallet E p playerID bal) (\<lambda>created. wp (case created of
      Inl err \<Rightarrow> if errors_is err (WalletErr Wallet_ErrDuplicateWallet)
        then writeJSON 409 (json_error_message ''duplicate_wallet'' ''wallet already exists for this player, currency and provider'')
        else writeJSON 400 (json_error_message ''create_wallet_failed'' (Error err))
    | Inr w \<Rightarrow> writeJSON 201 (wallet_body w)) Q) w" for playerID bal
    by (rule wp_CreateWallet [OF assms(1) inv]) (auto simp: wp_writeJSON wp_if intro!: Q opened_confined)
  then show ?thesis
    unfolding WalletHandler_Create_def assms(3) option.case
    by (auto simp: wp_writeJSON wp_bind Let_def intro!: Q split: option.split sum.split)
qed

lemma wp_serve_confined:
  assumes "env_ok E" and "db_inv sep (canonical E) (w_db w)" and "hr_provider r = Some p"
    and Q: "\<And>x w'. w_db w' = w_db w \<or> confined sep E p (w_db w) (w_db w') \<Longrightarrow> Q x w'"
  shows "wp (serve E ep r) Q w"
proof (cases "read_only ep")
  case True
  show ?thesis by (rule wp_mono [OF readingD [OF reading_serve [OF True]]]) (simp add: Q)
next
  case False
  then show ?thesis
    by (cases ep) (auto intro!: wp_transaction_confined [OF assms(1-3)] wp_wallet_confined [OF assms(1-3)] Q)
qed

text \<open>Without authentication the requests still make only the changes of the specification.\<close>

lemma wp_serve_steps:
  assumes "env_ok E" and inv: "db_inv sep (canonical E) (w_db w)"
    and Q: "\<And>x w'. w_db w' = w_db w \<or> db_step sep (canonical E) (w_db w) (w_db w') \<Longrightarrow> Q x w'"
  shows "wp (serve E ep r) Q w"
proof (cases "hr_provider r")
  case (Some p)
  show ?thesis
    by (rule wp_serve_confined [OF assms(1,2) Some]) (auto simp: confined_def intro!: Q)
next
  case None
  show ?thesis
  proof (cases "read_only ep")
    case True
    show ?thesis by (rule wp_mono [OF readingD [OF reading_serve [OF True]]]) (simp add: Q)
  next
    case False
    have "wp (ProcessTransaction E req key '''') (\<lambda>result. wp (case result of
        Inl err \<Rightarrow> ret (process_error err) | Inr res \<Rightarrow> writeJSON (process_status res) (process_body res)) Q) w" for req key
      by (rule wp_ProcessTransaction [OF assms(1,2)]) (auto simp: wp_ret wp_writeJSON split: sum.split intro!: Q)
    then show ?thesis
      using False None
      by (cases ep) (auto simp: WagerTransactionHandler_Create_def WalletHandler_Create_def deny_provider_def wp_writeJSON
          wp_bind wp_ret Let_def intro!: Q split: option.split)
  qed
qed

section \<open>What a token allows\<close>

text \<open>The provider of a verified token: what an accepted \<^verbatim>\<open>Authorization\<close> header implies.\<close>

definition vouched :: "oidc \<Rightarrow> OIDCConfig \<Rightarrow> string \<Rightarrow> ident \<Rightarrow> bool" where
  "vouched O0 cfg authHeader p \<longleftrightarrow> (\<exists>scheme tok header key n c.
     Fields authHeader = [scheme, tok] \<and> map fold_char scheme = ''bearer'' \<and>
     od_header O0 (oidc_algorithm cfg) tok = Some header \<and> jh_alg header = Some (oidc_algorithm cfg) \<and>
     strong_key key \<and> od_verify O0 tok key n = Some c \<and> jc_ExpiresAt c \<noteq> None \<and>
     p = claimed_provider c \<and> p \<noteq> '''')"

lemma vouchedI:
  "Fields authHeader = [scheme, tok] \<Longrightarrow> map fold_char scheme = ''bearer'' \<Longrightarrow>
   od_header O0 (oidc_algorithm cfg) tok = Some header \<Longrightarrow> jh_alg header = Some (oidc_algorithm cfg) \<Longrightarrow> strong_key key \<Longrightarrow>
   od_verify O0 tok key n = Some c \<Longrightarrow> jc_ExpiresAt c \<noteq> None \<Longrightarrow> claimed_provider c \<noteq> '''' \<Longrightarrow>
   vouched O0 cfg authHeader (claimed_provider c)"
  unfolding vouched_def by (intro exI conjI) (assumption | rule refl)+

definition auth_ok :: "OIDCConfig \<Rightarrow> KeyValidator \<Rightarrow> bool" where
  "auth_ok cfg kv \<longleftrightarrow> kv_ok kv \<and> kv_expectedAlg kv = oidc_algorithm cfg"

lemma NewKeyValidator_ok: "auth_ok cfg (NewKeyValidator cfg)"
  by (simp add: auth_ok_def NewKeyValidator_def kv_ok_def keys_ok_def oidc_algorithm_def)

lemma wp_authenticate:
  assumes "auth_ok cfg kv"
    and err: "\<And>x kv'. auth_ok cfg kv' \<Longrightarrow> rs_status x = 401 \<or> config_error cfg \<and> rs_status x = 500 \<Longrightarrow> Q (Inl x) kv'"
    and ok: "\<And>p kv'. auth_ok cfg kv' \<Longrightarrow> \<not> config_error cfg \<Longrightarrow> vouched O0 cfg authHeader p \<Longrightarrow> Q (Inr p) kv'"
  shows "wp (authenticate O0 cfg authHeader) Q kv"
proof -
  have *: "wp (GetKey O0 h) (\<lambda>x kv'. auth_ok cfg kv' \<and> (\<forall>key. x = Inr key \<longrightarrow> strong_key key \<and> jh_alg h = Some (oidc_algorithm cfg))) kv"
    for h
    using GetKey_ok [of kv O0 h] assms(1) by (auto simp: wp_run auth_ok_def)
  have key: "wp (GetKey O0 h) R kv"
    if "\<And>e kv'. auth_ok cfg kv' \<Longrightarrow> R (Inl e) kv'"
      "\<And>key kv'. auth_ok cfg kv' \<Longrightarrow> strong_key key \<Longrightarrow> jh_alg h = Some (oidc_algorithm cfg) \<Longrightarrow> R (Inr key) kv'" for h R
    by (rule wp_mono [OF *], rename_tac x kv', case_tac x) (use that in auto)
  have step: "auth_ok cfg (kv'\<lparr>kv_step := n\<rparr>) = auth_ok cfg kv'" for kv' n by (simp add: auth_ok_def)
  show ?thesis
    unfolding authenticate_def Let_def wp_if wp_ret wp_bind ParseWithClaims_def
    using assms(1)
    by (auto simp: wp_rules wp_kv_tick step unauthorized_def length_Suc_conv numeral_2_eq_2
        intro!: err ok key vouchedI split: option.split)
qed

text \<open>Every endpoint lies behind the check.\<close>

lemma protected_endpoint: "protected_path (endpoint_path ep)"
  by (cases ep) (auto simp: protected_path_def HasPrefix_def)

lemma wp_api:
  assumes "env_ok E" and "db_inv sep (canonical E) (w_db (sv_world s))" and auth: "auth_ok cfg (sv_auth s)"
    and denied: "\<And>x s'. auth_ok cfg (sv_auth s') \<Longrightarrow> sv_world s' = sv_world s \<Longrightarrow>
      rs_status x = 401 \<or> config_error cfg \<and> rs_status x = 500 \<Longrightarrow> Q x s'"
    and served: "\<And>p x s'. auth_ok cfg (sv_auth s') \<Longrightarrow> \<not> config_error cfg \<Longrightarrow> vouched O0 cfg (hr_header r ''Authorization'') p \<Longrightarrow>
      w_db (sv_world s') = w_db (sv_world s) \<or> confined sep E p (w_db (sv_world s)) (w_db (sv_world s')) \<Longrightarrow>
      (read_only ep \<Longrightarrow> w_db (sv_world s') = w_db (sv_world s) \<and>
        (rs_status x = 200 \<longrightarrow> owned E p (w_db (sv_world s)) ep (rs_body x))) \<Longrightarrow> Q x s'"
  shows "wp (api E O0 True cfg ep r) Q s"
proof -
  have "wp (authenticate O0 cfg (hr_header r ''Authorization'')) (\<lambda>outcome kv. wp (case outcome of
      Inl response \<Rightarrow> ret response
    | Inr p \<Rightarrow> on_world (serve E ep (r\<lparr>hr_provider := Some p\<rparr>))) Q (s\<lparr>sv_auth := kv\<rparr>)) (sv_auth s)"
  proof (rule wp_authenticate [OF auth], goal_cases)
    case (1 x kv)
    then show ?case by (auto simp: wp_ret intro!: denied)
  next
    case (2 p kv)
    let ?r = "r\<lparr>hr_provider := Some p\<rparr>" and ?d = "w_db (sv_world s)"
    have "wp (serve E ep ?r) (\<lambda>x w'. (w_db w' = ?d \<or> confined sep E p ?d (w_db w')) \<and>
        (read_only ep \<longrightarrow> w_db w' = ?d \<and> (rs_status x = 200 \<longrightarrow> owned E p ?d ep (rs_body x)))) (sv_world s)"
    proof (rule wp_conj, rule wp_serve_confined [OF assms(1,2)])
      show "wp (serve E ep ?r) (\<lambda>x w'. read_only ep \<longrightarrow> w_db w' = ?d \<and>
          (rs_status x = 200 \<longrightarrow> owned E p ?d ep (rs_body x))) (sv_world s)"
        using readingD [OF reading_serve, of ep E ?r "sv_world s"] wp_owned [of ?r p ep E "sv_world s"] by (auto simp: wp_run)
    qed auto
    then have "wp (serve E ep ?r) (\<lambda>x w. Q x (s\<lparr>sv_auth := kv, sv_world := w\<rparr>)) (sv_world s)"
      by (rule wp_mono) (use 2 in \<open>auto intro!: served\<close>)
    then show ?case by (simp add: wp_on_world)
  qed
  then show ?thesis
    by (simp add: api_def authHandler_ServeHTTP_def protected_endpoint OIDCAuth_def wp_bind wp_on_auth)
qed

end
