(* ===== verification/Program.thy ===== *)
theory Program
  imports Scenario Queue_Workers Provider_Isolation
begin

text \<open>
  The executions of the program: any sequence of service operations, of requests to the API and
  of runs of the workers, each in an environment of its own, from an empty database. The states they reach satisfy the invariants of
  \<open>Ledger_Machine\<close>, because every operation refines \<open>db_step\<close>.
\<close>

section \<open>Executions\<close>

text \<open>
  One run of a service operation, the handling of a request to the API (with or without
  authentication), or a run of a worker for \<open>k\<close> rounds, from the tables \<open>d\<close> to the tables
  \<open>d'\<close>, in any environment that reads identifiers by \<open>u\<close>: under every clock, every schedule of
  failures, every choice of generated identifiers and every behaviour of the queue service.
\<close>

inductive program_step :: "(string \<Rightarrow> string option) \<Rightarrow> db \<Rightarrow> db \<Rightarrow> bool" for u where
  create_wallet: "env_ok E \<Longrightarrow> env_uuid E = u \<Longrightarrow>
    program_step u d (after (CreateWallet E providerID playerID bal) d)"
| process_transaction: "env_ok E \<Longrightarrow> env_uuid E = u \<Longrightarrow>
    program_step u d (after (ProcessTransaction E req key messageID) d)"
| resolve_reference: "env_ok E \<Longrightarrow> env_uuid E = u \<Longrightarrow> program_step u d (after (ResolvePendingReference E i) d)"
| answer_request: "env_ok E \<Longrightarrow> env_uuid E = u \<Longrightarrow> program_step u d (after (serve E ep r) d)"
| consume: "env_ok E \<Longrightarrow> env_uuid E = u \<Longrightarrow> program_step u d (worked (WagerSQSWorker_Start k E A) d)"
| publish_events: "env_ok E \<Longrightarrow> env_uuid E = u \<Longrightarrow> program_step u d (worked (OutboxPublisher_Start k E A queueURL) d)"
| resolve_references: "env_ok E \<Longrightarrow> env_uuid E = u \<Longrightarrow> program_step u d (worked (ReferenceWorker_Start k E A) d)"

abbreviation reachable :: "(string \<Rightarrow> string option) \<Rightarrow> db \<Rightarrow> bool" where
  "reachable u d \<equiv> (program_step u)\<^sup>*\<^sup>* empty_db d"

lemma program_step_db_steps:
  assumes "program_step u d d'" and "db_inv sep (\<lambda>s. u s = Some s) d"
  shows "db_steps sep (\<lambda>s. u s = Some s) d d'"
  using assms
proof (induction rule: program_step.induct)
  case (create_wallet E d providerID playerID bal)
  have "wp (CreateWallet E providerID playerID bal) (\<lambda>x w'. db_steps sep (canonical E) d (w_db w')) (init_world d)"
    using create_wallet by (intro wp_CreateWallet) (auto intro: opened_step)
  then show ?case using create_wallet by (simp add: wp_run after_def)
next
  case (process_transaction E d req key messageID)
  have "wp (ProcessTransaction E req key messageID) (\<lambda>x w'. db_steps sep (canonical E) d (w_db w')) (init_world d)"
    using process_transaction by (intro wp_ProcessTransaction) auto
  then show ?case using process_transaction by (simp add: wp_run after_def)
next
  case (resolve_reference E d i)
  have "wp (ResolvePendingReference E i) (\<lambda>x w'. db_steps sep (canonical E) d (w_db w')) (init_world d)"
    using resolve_reference by (intro wp_ResolvePendingReference) auto
  then show ?case using resolve_reference by (simp add: wp_run after_def)
next
  case (answer_request E d ep r)
  have "wp (serve E ep r) (\<lambda>x w'. db_steps sep (canonical E) d (w_db w')) (init_world d)"
    using answer_request by (intro wp_serve_steps) auto
  then show ?case using answer_request by (simp add: wp_run after_def)
qed (use workers_steps in blast)+

lemma reachable_inv: "reachable u d \<Longrightarrow> db_inv True (\<lambda>s. u s = Some s) d"
proof (induction rule: rtranclp_induct)
  case base
  then show ?case by (rule db_inv_empty)
next
  case (step d d')
  then show ?case using program_step_db_steps db_inv_steps by blast
qed

lemma reachable_step: "reachable u d \<Longrightarrow> program_step u d d' \<Longrightarrow> reachable u d'"
  by (rule rtranclp.rtrancl_into_rtrancl)

lemma wallet_db_reachable: "reachable sample_uuid wallet_db"
  unfolding wallet_db_def
  by (rule r_into_rtranclp, rule program_step.create_wallet) (simp_all add: sample_env_ok sample_env_uuid)

lemma bet_db_reachable: "reachable sample_uuid bet_db"
  unfolding bet_db_def
  by (rule reachable_step [OF wallet_db_reachable], rule program_step.process_transaction)
    (simp_all add: sample_env_ok sample_env_uuid)

lemma rollback_db_reachable: "reachable sample_uuid rollback_db"
  unfolding rollback_db_def
  by (rule reachable_step [OF bet_db_reachable], rule program_step.process_transaction)
    (simp_all add: sample_env_ok sample_env_uuid)

lemma reachable_history:
  assumes "(program_step u)\<^sup>*\<^sup>* d d'" and "reachable u d"
  shows "history_kept d d'"
  using assms
proof (induction rule: rtranclp_induct)
  case base
  then show ?case by simp
next
  case (step d' d'')
  have "reachable u d'" using step.prems step.hyps(1) by (rule rtranclp_trans)
  then have "history_kept d' d''"
    using program_step_db_steps [OF step.hyps(2)] history_kept_steps reachable_inv by blast
  then show ?case using step history_kept_trans by blast
qed

lemma nothing_pending_steps: "db_steps sep U d d' \<Longrightarrow> nothing_pending d \<Longrightarrow> nothing_pending d'"
  by (induction rule: rtranclp_induct) (auto intro: nothing_pending_step)

lemma reachable_nothing_pending: "reachable u d \<Longrightarrow> nothing_pending d"
proof (induction rule: rtranclp_induct)
  case base
  then show ?case by (simp add: nothing_pending_def empty_db_def)
next
  case (step d d')
  then show ?case using program_step_db_steps [OF step(2)] nothing_pending_steps reachable_inv by blast
qed

lemma unique_rows:
  assumes "keys_inv d" and "unique_on f (db_txs d)" and "r \<in> set (db_txs d)" "r' \<in> set (db_txs d)" and "f r = f r'" "f r \<noteq> None"
  shows "r = r'"
proof -
  have d: "distinct (map tr_id (db_txs d))" using assms(1) by (simp add: keys_inv_def)
  have "tr_id r = tr_id r'" using assms(2-6) unfolding unique_on_iff [OF d] by blast
  then show ?thesis by (rule row_unique [OF d assms(3,4)])
qed

lemma at_most_one_row: "distinct (map f xs) \<Longrightarrow> length (filter (\<lambda>x. f x = k) xs) \<le> 1"
proof (induction xs)
  case Nil
  then show ?case by simp
next
  case (Cons x xs)
  moreover have "filter (\<lambda>y. f y = f x) xs = []" using Cons.prems by (auto simp: filter_empty_conv image_iff)
  ultimately show ?case by auto
qed

section \<open>Single runs\<close>

lemma ProcessTransaction_run:
  assumes "env_ok E" and "db_inv sep (canonical E) d"
  shows "after (ProcessTransaction E req key messageID) d = d \<or>
      db_step sep (canonical E) d (after (ProcessTransaction E req key messageID) d)"
    and "calm E \<Longrightarrow> answered E req (effective_key key req) d (answer (ProcessTransaction E req key messageID) d)
      (after (ProcessTransaction E req key messageID) d)"
proof -
  have "wp (ProcessTransaction E req key messageID) (\<lambda>x w'. (w_db w' = d \<or> db_step sep (canonical E) d (w_db w')) \<and>
      (calm E \<longrightarrow> answered E req (effective_key key req) d x (w_db w'))) (init_world d)"
    using assms by (intro wp_ProcessTransaction) auto
  then show "after (ProcessTransaction E req key messageID) d = d \<or>
      db_step sep (canonical E) d (after (ProcessTransaction E req key messageID) d)"
    and "calm E \<Longrightarrow> answered E req (effective_key key req) d (answer (ProcessTransaction E req key messageID) d)
      (after (ProcessTransaction E req key messageID) d)"
    by (simp_all add: wp_run after_def answer_def)
qed

lemma CreateWallet_run:
  fixes E d providerID playerID bal
  assumes "env_ok E" and "db_inv sep (canonical E) d"
  defines "x \<equiv> answer (CreateWallet E providerID playerID bal) d" and "d' \<equiv> after (CreateWallet E providerID playerID bal) d"
  shows "d' = d \<or> db_step sep (canonical E) d d'"
    and "(\<exists>wl wr. x = Inr wl \<and> opened E playerID providerID bal d wr d' \<and> wallet_made playerID providerID bal wr wl) \<or>
      (\<exists>e. x = Inl e \<and> blamed E (\<not> openable E playerID providerID bal d))"
proof -
  have "wp (CreateWallet E providerID playerID bal) (\<lambda>x w'. (w_db w' = d \<or> db_step sep (canonical E) d (w_db w')) \<and>
      ((\<exists>wl wr. x = Inr wl \<and> opened E playerID providerID bal d wr (w_db w') \<and> wallet_made playerID providerID bal wr wl) \<or>
      (\<exists>e. x = Inl e \<and> blamed E (\<not> openable E playerID providerID bal d)))) (init_world d)"
    using assms(1,2) by (intro wp_CreateWallet) (auto intro: opened_step)
  then show "d' = d \<or> db_step sep (canonical E) d d'"
    and "(\<exists>wl wr. x = Inr wl \<and> opened E playerID providerID bal d wr d' \<and> wallet_made playerID providerID bal wr wl) \<or>
      (\<exists>e. x = Inl e \<and> blamed E (\<not> openable E playerID providerID bal d))"
    by (simp_all add: wp_run after_def answer_def x_def d'_def)
qed

text \<open>
  \<open>fresh_request E d req key tx wr\<close>: the request is new to \<open>d\<close>, it reads as the transaction \<open>tx\<close>
  (whatever the clock), and its wallet is \<open>wr\<close>.
\<close>

definition fresh_request :: "env \<Rightarrow> db \<Rightarrow> Request \<Rightarrow> string \<Rightarrow> TransactionType \<Rightarrow> Money \<Rightarrow> wallet_row \<Rightarrow> bool" where
  "fresh_request E d req key kind m wr \<longleftrightarrow>
     key_row d (rq_ProviderID req) (effective_key key req) = None \<and>
     external_row d (rq_ProviderID req) (rq_ExternalTransactionID req) = None \<and>
     TransactionType_of (rq_Kind req) = kind \<and> TransactionType_Valid kind \<and>
     ParseMoney (dto_Amount (rq_Money req)) (dto_Currency (rq_Money req)) = Inr m \<and>
     (if kind = LOSS then cents m = 0 else 0 < cents m) \<and>
     rq_ProviderID req \<noteq> '''' \<and> rq_ExternalTransactionID req \<noteq> '''' \<and>
     wallet_at E d (rq_WalletID req) wr \<and> rq_WalletID req \<noteq> '''' \<and>
     env_uuid E (rq_PlayerID req) \<noteq> None \<and> rq_PlayerID req \<noteq> '''' \<and> sint (wr_version wr) \<noteq> MaxInt64"

lemma fresh_request_built:
  assumes "fresh_request E d req key kind m wr"
  shows "\<exists>tx. build_transaction E now req (effective_key key req) = Inr tx \<and> new_request True d tx \<and> known E d tx wr \<and>
    tx_transactionType tx = kind \<and> tx_amount tx = m \<and> tx_provider tx = rq_ProviderID req \<and>
    tx_idempotencyKey tx = effective_key key req \<and> tx_externalReference tx = rq_ReferenceExternalID req \<and>
    tx_payloadHash tx = request_hash E req \<and> tx_walletID tx = rq_WalletID req"
proof -
  obtain tx where b: "build_transaction E now req (effective_key key req) = Inr tx"
    using assms effective_key_nonempty [of key req]
    by (cases "build_transaction E now req (effective_key key req)")
      (auto simp: fresh_request_def build_transaction_def NewExternalTransaction_def IsNegative_cents IsZero_cents split: if_splits)
  have k: "key_row d (rq_ProviderID req) (effective_key key req) = None"
      "external_row d (rq_ProviderID req) (rq_ExternalTransactionID req) = None"
    using assms by (simp_all add: fresh_request_def)
  show ?thesis
    using b build_transaction_fields(2-10) [OF b] build_transaction_new [OF b k] assms by (auto simp: fresh_request_def known_def)
qed

lemma fresh_request_carried_out:
  assumes "env_ok E" and "calm E" and "db_inv sep (canonical E) d" and "fresh_request E d req key kind m wr"
  obtains tx where "new_request True d tx" "known E d tx wr" "tx_transactionType tx = kind" "tx_amount tx = m"
    "tx_provider tx = rq_ProviderID req" "tx_idempotencyKey tx = effective_key key req"
    "tx_externalReference tx = rq_ReferenceExternalID req" "tx_payloadHash tx = request_hash E req"
    "tx_walletID tx = rq_WalletID req"
    "carried_out E d tx wr (answer (ProcessTransaction E req key messageID) d) (after (ProcessTransaction E req key messageID) d)"
proof -
  have k: "key_row d (rq_ProviderID req) (effective_key key req) = None"
      "external_row d (rq_ProviderID req) (rq_ExternalTransactionID req) = None"
    using assms(4) by (simp_all add: fresh_request_def)
  obtain now where n: "case build_transaction E now req (effective_key key req) of
        Inl err \<Rightarrow> after (ProcessTransaction E req key messageID) d = d \<and> answer (ProcessTransaction E req key messageID) d = Inl err
      | Inr tx \<Rightarrow> \<forall>wr. known E d tx wr \<longrightarrow> carried_out E d tx wr (answer (ProcessTransaction E req key messageID) d)
          (after (ProcessTransaction E req key messageID) d)"
    using ProcessTransaction_run(2) [OF assms(1,3,2), of req key messageID] k by (auto simp: answered_def)
  from fresh_request_built [OF assms(4), of now] n that show ?thesis by auto
qed

lemma wp_fresh_request:
  assumes "env_ok E" and "calm E" and "db_inv sep (canonical E) (w_db w)" and fresh: "fresh_request E (w_db w) req key kind m wr"
    and Q: "\<And>tx x w'. new_request True (w_db w) tx \<Longrightarrow> known E (w_db w) tx wr \<Longrightarrow> tx_transactionType tx = kind \<Longrightarrow> tx_amount tx = m \<Longrightarrow>
      tx_provider tx = rq_ProviderID req \<Longrightarrow> tx_idempotencyKey tx = effective_key key req \<Longrightarrow>
      tx_payloadHash tx = request_hash E req \<Longrightarrow> tx_walletID tx = rq_WalletID req \<Longrightarrow>
      carried_out E (w_db w) tx wr x (w_db w') \<Longrightarrow> Q x w'"
  shows "wp (ProcessTransaction E req key messageID) Q w"
proof -
  have k: "key_row (w_db w) (rq_ProviderID req) (effective_key key req) = None"
      "external_row (w_db w) (rq_ProviderID req) (rq_ExternalTransactionID req) = None"
    using fresh by (simp_all add: fresh_request_def)
  have "wp (ProcessTransaction E req key messageID) (\<lambda>x w'. answered E req (effective_key key req) (w_db w) x (w_db w')) w"
    by (rule wp_ProcessTransaction [OF assms(1,3)]) (use assms(2) in auto)
  then show ?thesis
  proof (rule wp_mono, goal_cases)
    case (1 x w')
    then obtain now where n: "case build_transaction E now req (effective_key key req) of
          Inl err \<Rightarrow> w_db w' = w_db w \<and> x = Inl err
        | Inr tx \<Rightarrow> \<forall>wr. known E (w_db w) tx wr \<longrightarrow> carried_out E (w_db w) tx wr x (w_db w')"
      using k by (auto simp: answered_def)
    from fresh_request_built [OF fresh, of now] n show ?case by (auto intro: Q)
  qed
qed

text \<open>What a recorded transaction adds to the tables.\<close>

lemma recorded_tables:
  assumes "recorded E tx d r d'"
  shows "db_wallets d' = db_wallets d" "db_ledger d' = db_ledger d" "db_txs d' = db_txs d @ [r]"
  using assms by (auto simp: recorded_def)

lemma moved_tables:
  assumes "env_ok E" and "moved_db E tx dir m d wr b r d'"
  obtains l s where "db_wallets d' = replace_id wr_id (wr_id wr) (with_balance wr (money_amount b) s) (db_wallets d)"
    "db_txs d' = db_txs d @ [r]" "db_ledger d' = db_ledger d @ [l]" "lr_transaction_id l = tr_id r" "lr_direction l = dir"
    "lr_amount l = money_amount m" "lr_balance_before l = wr_balance wr" "lr_balance_after l = money_amount b"
    "cents b = sint (wr_balance wr) + signed dir (cents m)" "money_currency b = BRL" "tr_status r = PROCESSED"
proof -
  from assms(2) obtain s d1 tx2 l evs ib where ch: "changed E d (tx_walletID tx) m dir s wr b d1"
      and pa: "processed_as (SetResultBalance b tx) tx2" and r: "row_for E tx2 r"
      and l: "entry_row E (tx_walletID tx2) (tr_id r) dir (money_amount m) (money_currency m) (wr_balance wr) (money_amount b) l"
      and d': "d' = set_inbox ib (add_events evs (add_ledger l (add_tx r d1)))"
    by (auto simp: moved_db_def ledgered_def)
  have "tr_status r = PROCESSED" using row_for_fields(4) [OF r] pa by (simp add: processed_as_def)
  moreover have "env_uuid E (tr_id r) = Some (tr_id r)" using row_for_id [OF assms(1) r] by simp
  ultimately show thesis
    using ch l by (intro that [of s l]) (auto simp: d' changed_def entry_row_def)
qed

text \<open>Whatever the verdict, the request leaves exactly one row, which the answer reports.\<close>

definition reports :: "tx_row \<Rightarrow> gerr + ProcessResult \<Rightarrow> bool" where
  "reports r x \<longleftrightarrow> (\<forall>res. x = Inr res \<longrightarrow> pr_TransactionID res = tr_id r \<and>
     pr_Status res = TransactionStatus_string (tr_status r) \<and>
     (tr_status r = PROCESSED \<longrightarrow> tr_result_balance r = Some (money_amount (pr_Balance res)) \<and>
        money_currency (pr_Balance res) = BRL))"

definition leaves_row :: "env \<Rightarrow> Transaction \<Rightarrow> db \<Rightarrow> gerr + ProcessResult \<Rightarrow> db \<Rightarrow> tx_row \<Rightarrow> bool" where
  "leaves_row E tx d x d' r \<longleftrightarrow> db_txs d' = db_txs d @ [r] \<and> reports r x \<and>
     (\<exists>tx'. same_request tx tx' \<and> row_for E tx' r) \<and> (tr_result_balance r \<noteq> None \<or> db_wallets d' = db_wallets d)"

lemma carried_out_row:
  assumes "carried_out E d tx wr x d'" and "env_ok E"
  shows "\<exists>r. leaves_row E tx d x d' r"
proof -
  have rej: "leaves_row E tx d x d' r" if rj: "rejects E tx code d r d'" and that: "isl x \<or> rejection r x" for code r
  proof -
    obtain tx' where t: "rejected_as tx code tx'" "recorded E tx' d r d'" using rj by (auto simp: rejects_def)
    have f: "row_for E tx' r" using t(2) by (simp add: recorded_def)
    have "tr_status r = REJECTED" using row_for_fields(4) [OF f] t(1) by (simp add: rejected_as_def)
    then have "reports r x" using that by (auto simp: reports_def rejection_def)
    then show ?thesis using t f recorded_tables [OF t(2)] by (auto simp: leaves_row_def rejected_as_def)
  qed
  have rec: "leaves_row E tx d x d' r" if "same_request tx tx'" "recorded E tx' d r d'"
      "tx_status tx' = PENDING_REFERENCE \<and> x = Inr \<lparr>pr_TransactionID = tr_id r, pr_Status = ''PENDING_REFERENCE'',
         pr_Balance = no_money, pr_IdempotentReplay = False\<rparr> \<or>
       tx_status tx' = PROCESSED \<and> tx_resultBalance tx' = Some b \<and> money_currency b = BRL \<and> x = Inr (processed_result r b)"
    for tx' r b
  proof -
    have f: "row_for E tx' r" using that(2) by (simp add: recorded_def)
    have "reports r x" using that(3) row_for_fields [OF f] by (auto simp: reports_def processed_result_def)
    then show ?thesis using that f recorded_tables [OF that(2)] by (auto simp: leaves_row_def)
  qed
  have mov: "leaves_row E tx d x d' r" if sr: "same_request tx tx'" and mv: "moved_db E tx' dir m d wr b r d'" and x: "x = Inr (processed_result r b)"
    for tx' dir m b r
  proof -
    obtain tx2 where t: "processed_as (SetResultBalance b tx') tx2" "row_for E tx2 r"
      using mv by (auto simp: moved_db_def ledgered_def)
    have s2: "same_request tx tx2" using t(1) sr by (auto simp: processed_as_def same_request_def SetResultBalance_def)
    show ?thesis
    proof (rule moved_tables [OF assms(2) mv], goal_cases)
      case (1 l s)
      have "tr_result_balance r = Some (money_amount b)"
        using row_for_fields [OF t(2)] t(1) by (simp add: processed_as_def SetResultBalance_def)
      then have "reports r x" using 1 x by (auto simp: reports_def processed_result_def)
      then show ?case using 1 s2 t(2) \<open>tr_result_balance r = _\<close> by (auto simp: leaves_row_def)
    qed
  qed
  show ?thesis
  proof (cases "verdict_of d tx")
    case (Refuse code)
    then show ?thesis using assms(1) rej unfolding carried_out_def by auto
  next
    case Wait
    then obtain r tx' where "same_request tx tx'" "tx_status tx' = PENDING_REFERENCE" "recorded E tx' d r d'"
        "x = Inr \<lparr>pr_TransactionID = tr_id r, pr_Status = ''PENDING_REFERENCE'', pr_Balance = no_money, pr_IdempotentReplay = False\<rparr>"
      using assms(1) unfolding carried_out_def by auto
    then show ?thesis using rec [of tx' r] by blast
  next
    case Note
    then obtain r tx' b where "same_request tx tx'" "tx_status tx' = PROCESSED" "tx_resultBalance tx' = Some b"
        "money_currency b = BRL" "recorded E tx' d r d'" "x = Inr (processed_result r b)"
      using assms(1) unfolding carried_out_def by auto
    then show ?thesis using rec [of tx' r b] by blast
  next
    case (Book dir ref)
    show ?thesis
    proof (cases "wallet_refusal wr dir (tx_amount tx)")
      case None
      then obtain r b tx' where "same_request tx tx'" "moved_db E tx' dir (tx_amount tx) d wr b r d'" "x = Inr (processed_result r b)"
        using assms(1) unfolding carried_out_def Book by auto
      then show ?thesis using mov [of tx' dir _ b r] by blast
    next
      case (Some err)
      then have "isl x \<and> (\<exists>code r. rejects E tx code d r d')"
        using assms(1) unfolding carried_out_def Book by (auto split: if_splits)
      then show ?thesis using rej by blast
    qed
  qed
qed

text \<open>The second run of a request finds the row of the first.\<close>

lemma leaves_row_key:
  assumes "leaves_row E tx d x d' r" and "key_row d (tx_provider tx) (tx_idempotencyKey tx) = None"
    and "tx_provider tx \<noteq> ''''" and "tx_idempotencyKey tx \<noteq> ''''"
  shows "key_row d' (tx_provider tx) (tx_idempotencyKey tx) = Some r" and "tr_payload_hash r = nullString (tx_payloadHash tx)"
    and "env_uuid E (tx_walletID tx) = Some (tr_wallet_id r)"
proof -
  obtain tx' where s: "same_request tx tx'" and f: "row_for E tx' r" using assms(1) by (auto simp: leaves_row_def)
  note f = row_for_fields [OF f]
  show "tr_payload_hash r = nullString (tx_payloadHash tx)" "env_uuid E (tx_walletID tx) = Some (tr_wallet_id r)"
    using f s by (simp_all add: same_request_def)
  have "tr_provider r = Some (tx_provider tx)" "tr_idempotency_key r = Some (tx_idempotencyKey tx)"
    using assms(3,4) f s by (simp_all add: same_request_def nullString_def)
  moreover have "db_txs d' = db_txs d @ [r]" using assms(1) by (simp add: leaves_row_def)
  ultimately show "key_row d' (tx_provider tx) (tx_idempotencyKey tx) = Some r"
    using assms(2) by (simp add: key_row_def find_append)
qed

text \<open>The answer to a request that was carried out before.\<close>

lemma replay_answered:
  assumes "env_ok E" and "env_uuid E' = env_uuid E" and "env_sha256 E' = env_sha256 E"
    and fresh: "fresh_request E d req key kind m wr" and tx: "new_request True d tx" "tx_provider tx = rq_ProviderID req"
      "tx_idempotencyKey tx = effective_key key req" "tx_payloadHash tx = request_hash E req" "tx_walletID tx = rq_WalletID req"
    and c: "carried_out E d tx wr x d'" and a: "answered E' req (effective_key key req) d' x' d''"
  shows "\<exists>r b. db_txs d' = db_txs d @ [r] \<and> d'' = d' \<and> x' = Inr \<lparr>pr_TransactionID = tr_id r,
      pr_Status = TransactionStatus_string (tr_status r), pr_Balance = b, pr_IdempotentReplay = True\<rparr> \<and>
    reports r x \<and> (\<forall>res. x = Inr res \<and> pr_Status res = ''PROCESSED'' \<longrightarrow> b = pr_Balance res)"
proof -
  obtain r where r: "leaves_row E tx d x d' r" using carried_out_row [OF c assms(1)] ..
  have k: "key_row d (tx_provider tx) (tx_idempotencyKey tx) = None" "tx_provider tx \<noteq> ''''" "tx_idempotencyKey tx \<noteq> ''''"
    using fresh tx by (simp_all add: fresh_request_def new_request_def)
  note row = leaves_row_key [OF r k]
  have h: "request_hash E' req = request_hash E req" using assms(3) by (simp add: request_hash_def)
  have w: "\<exists>wr. wallet_at E' d' (tr_wallet_id r) wr" if "tr_result_balance r = None"
  proof -
    have "db_wallets d' = db_wallets d" using r that by (auto simp: leaves_row_def)
    moreover have "wallet_at E d (tx_walletID tx) wr" using fresh tx by (simp add: fresh_request_def)
    ultimately show ?thesis
      using row(3) env_ok_uuid [OF assms(1) row(3)] assms(2) unfolding wallet_at_def by metis
  qed
  have res: "d'' = d' \<and> replayed E' d' r x'"
    using a row h tx by (simp add: answered_def nullString_def coalesce_def split: if_splits)
  then obtain b where b: "x' = Inr \<lparr>pr_TransactionID = tr_id r,
      pr_Status = TransactionStatus_string (tr_status r), pr_Balance = b, pr_IdempotentReplay = True\<rparr>"
      "\<forall>a. tr_result_balance r = Some a \<longrightarrow> b = \<lparr>money_amount = a, money_currency = BRL\<rparr>"
    using w by (cases "tr_result_balance r") (auto simp: replayed_def)
  have "b = pr_Balance res" if "x = Inr res" "pr_Status res = ''PROCESSED''" for res
    using that b(2) r by (cases "tr_status r"; cases "pr_Balance res") (auto simp: leaves_row_def reports_def)
  then show ?thesis using r res b by (auto simp: leaves_row_def)
qed

lemma replay_run:
  assumes "env_ok E" and "env_ok E'" and "calm E" and "calm E'" and "env_uuid E' = env_uuid E" and "env_sha256 E' = env_sha256 E"
    and inv: "db_inv sep (canonical E) d" and fresh: "fresh_request E d req key kind m wr"
    and x: "x = answer (ProcessTransaction E req key messageID) d" and d': "d' = after (ProcessTransaction E req key messageID) d"
  shows "\<exists>r b. db_txs d' = db_txs d @ [r] \<and> after (ProcessTransaction E' req key messageID') d' = d' \<and>
    answer (ProcessTransaction E' req key messageID') d' = Inr \<lparr>pr_TransactionID = tr_id r,
      pr_Status = TransactionStatus_string (tr_status r), pr_Balance = b, pr_IdempotentReplay = True\<rparr> \<and>
    reports r x \<and> (\<forall>res. x = Inr res \<and> pr_Status res = ''PROCESSED'' \<longrightarrow> b = pr_Balance res)"
proof -
  from fresh_request_carried_out [OF assms(1,3) inv fresh, of messageID] obtain tx where
      tx: "new_request True d tx" "tx_provider tx = rq_ProviderID req" "tx_idempotencyKey tx = effective_key key req"
        "tx_payloadHash tx = request_hash E req" "tx_walletID tx = rq_WalletID req"
      and c: "carried_out E d tx wr x d'" unfolding x d' by metis
  have "db_inv sep (canonical E') d'"
    using ProcessTransaction_run(1) [OF assms(1) inv, of req key messageID] db_inv_step inv assms(5) by (auto simp: d')
  note a = ProcessTransaction_run(2) [OF assms(2) this assms(4), of req key messageID']
  show ?thesis by (rule replay_answered [OF assms(1,5,6) fresh tx c a])
qed

text \<open>A bet that the wallet can pay for, and one that it cannot.\<close>

definition bet_booked :: "db \<Rightarrow> wallet_row \<Rightarrow> Money \<Rightarrow> gerr + ProcessResult \<Rightarrow> db \<Rightarrow> bool" where
  "bet_booked d wr m x d' \<longleftrightarrow> (\<exists>r l b s. x = Inr (processed_result r b) \<and> cents b = sint (wr_balance wr) - cents m \<and>
     db_wallets d' = replace_id wr_id (wr_id wr) (with_balance wr (money_amount b) s) (db_wallets d) \<and>
     db_txs d' = db_txs d @ [r] \<and> tr_status r = PROCESSED \<and> db_ledger d' = db_ledger d @ [l] \<and>
     lr_transaction_id l = tr_id r \<and> lr_direction l = DEBIT \<and> lr_amount l = money_amount m)"

definition bet_denied :: "db \<Rightarrow> gerr + ProcessResult \<Rightarrow> db \<Rightarrow> bool" where
  "bet_denied d x d' \<longleftrightarrow> (\<exists>r. x = Inl (wallet_failure (wallet_err Wallet_ErrInsufficientBalance)) \<and>
     db_wallets d' = db_wallets d \<and> db_ledger d' = db_ledger d \<and> db_txs d' = db_txs d @ [r] \<and>
     tr_status r = REJECTED \<and> tr_failure_code r = Some ''INSUFFICIENT_BALANCE'')"

lemma carried_out_bet:
  assumes "env_ok E" and "carried_out E d tx wr x d'" and "tx_transactionType tx = BET" and "tx_amount tx = m"
  shows "cents m \<le> sint (wr_balance wr) \<Longrightarrow> bet_booked d wr m x d'" and "sint (wr_balance wr) < cents m \<Longrightarrow> bet_denied d x d'"
proof -
  assume "cents m \<le> sint (wr_balance wr)"
  then obtain r b tx' where mv: "moved_db E tx' DEBIT m d wr b r d'" and x: "x = Inr (processed_result r b)"
    using assms(2-4) by (auto simp: carried_out_def verdict_of_def wallet_refusal_def)
  show "bet_booked d wr m x d'"
    unfolding bet_booked_def
  proof (rule moved_tables [OF assms(1) mv], goal_cases)
    case (1 l s)
    then show ?case
      using x by (intro exI [of _ r] exI [of _ l] exI [of _ b] exI [of _ s]) (simp add: signed_def)
  qed
next
  assume "sint (wr_balance wr) < cents m"
  then have "\<exists>r. rejects E tx ''INSUFFICIENT_BALANCE'' d r d' \<and>
      x = Inl (wallet_failure (wallet_err Wallet_ErrInsufficientBalance))"
    using assms(2-4) by (auto simp: carried_out_def verdict_of_def wallet_refusal_def mapWalletError_def)
  then obtain r tx' where rj: "rejected_as tx ''INSUFFICIENT_BALANCE'' tx'" "recorded E tx' d r d'"
      and x: "x = Inl (wallet_failure (wallet_err Wallet_ErrInsufficientBalance))" by (auto simp: rejects_def)
  have "row_for E tx' r" using rj(2) by (simp add: recorded_def)
  then show "bet_denied d x d'"
    using recorded_tables [OF rj(2)] rj(1) x row_for_fields by (auto simp: bet_denied_def rejected_as_def nullString_def)
qed

lemma bet_run:
  assumes "env_ok E" and "calm E" and "db_inv sep (canonical E) d" and "fresh_request E d req key BET m wr"
  shows "cents m \<le> sint (wr_balance wr) \<Longrightarrow>
      bet_booked d wr m (answer (ProcessTransaction E req key messageID) d) (after (ProcessTransaction E req key messageID) d)"
    and "sint (wr_balance wr) < cents m \<Longrightarrow>
      bet_denied d (answer (ProcessTransaction E req key messageID) d) (after (ProcessTransaction E req key messageID) d)"
  using fresh_request_carried_out [OF assms, of messageID] carried_out_bet [OF assms(1)] by metis+

lemma sample_wallet_reachable: "reachable (env_uuid sample_env) wallet_db"
  using wallet_db_reachable by (simp add: sample_env_uuid)

lemma wallet_db_fresh:
  assumes "ParseMoney amount BRL = Inr m" and "0 < cents m"
  shows "fresh_request sample_env wallet_db (sample_request ''BET'' ''x1'' amount '''') key BET m sample_wallet_row"
proof -
  obtain r where "db_txs wallet_db = [r]" "tr_external_id r = None" "tr_idempotency_key r = None"
    using wallet_db_txs by auto
  then show ?thesis
    using assms wallet_db_at
    by (simp add: fresh_request_def sample_request_def key_row_def external_row_def TransactionType_of_def
        sample_env_uuid sample_uuid_def graphic_def sample_wallet_row_def MaxInt64_def)
qed

lemma sample_bet_fresh:
  "fresh_request sample_env wallet_db (sample_request ''BET'' ''x1'' ''25.00'' '''') '''' BET
     \<lparr>money_amount = 2500, money_currency = BRL\<rparr> sample_wallet_row"
proof -
  have "ParseMoney ''25.00'' BRL = Inr \<lparr>money_amount = 2500, money_currency = BRL\<rparr>" by code_simp
  then show ?thesis by (rule wallet_db_fresh) (simp add: cents_def)
qed

lemma sample_bet_answer:
  "\<exists>r b. answer (ProcessTransaction sample_env (sample_request ''BET'' ''x1'' ''25.00'' '''') '''' '''') wallet_db =
     Inr (processed_result r b)"
proof -
  have "cents \<lparr>money_amount = 2500, money_currency = BRL\<rparr> \<le> sint (wr_balance sample_wallet_row)"
    by (simp add: cents_def sample_wallet_row_def)
  from bet_run(1) [OF sample_env_ok sample_env_calm wallet_db_inv sample_bet_fresh this, of "''''"] show ?thesis
    by (auto simp: bet_booked_def)
qed

lemma bet_db_key:
  "\<exists>r. key_row bet_db ''prov'' ''prov:x1'' = Some r \<and>
     tr_payload_hash r = nullString (request_hash sample_env (sample_request ''BET'' ''x1'' ''25.00'' ''''))"
proof -
  let ?req = "sample_request ''BET'' ''x1'' ''25.00'' ''''"
  from fresh_request_carried_out [OF sample_env_ok sample_env_calm wallet_db_inv sample_bet_fresh, of "''''"] obtain tx where
      tx: "known sample_env wallet_db tx sample_wallet_row" "tx_provider tx = ''prov''" "tx_idempotencyKey tx = ''prov:x1''"
        "tx_payloadHash tx = request_hash sample_env ?req"
      and c: "carried_out sample_env wallet_db tx sample_wallet_row (answer (ProcessTransaction sample_env ?req '''' '''') wallet_db) bet_db"
    by (auto simp: bet_db_def effective_key_def sample_request_def)
  obtain r where r: "leaves_row sample_env tx wallet_db (answer (ProcessTransaction sample_env ?req '''' '''') wallet_db) bet_db r"
    using carried_out_row [OF c sample_env_ok] ..
  have "key_row wallet_db (tx_provider tx) (tx_idempotencyKey tx) = None"
    using tx(1) by (simp add: known_def new_key_def key_row_def find_None_iff)
  from leaves_row_key [OF r this] tx show ?thesis by auto
qed

end
