(* ===== verification/Api_Scenario.thy ===== *)
theory Api_Scenario
  imports Program
begin

text \<open>
  A concrete API in front of the sample tables: an identity provider that has published one key
  and whose token \<^verbatim>\<open>tok\<close> names the provider \<^verbatim>\<open>prov\<close>, and a request that carries it.
\<close>

definition sample_config :: OIDCConfig where
  "sample_config = server_config ''https://issuer'' ''betting'' ''https://issuer/jwks''"

definition sample_oidc :: oidc where
  "sample_oidc = \<lparr>od_clock = (\<lambda>_. 7000), od_fetch = (\<lambda>_. Inl (Text ''offline'')),
     od_header = (\<lambda>alg tok. if tok = ''tok'' then Some \<lparr>jh_alg = Some ''RS256'', jh_kid = Some ''k1''\<rparr> else None),
     od_verify = (\<lambda>tok key n. Some \<lparr>jc_ProviderID = ''prov'', jc_Subject = ''s'', jc_ExpiresAt = Some 9000\<rparr>)\<rparr>"

definition sample_key :: rsa_key where
  "sample_key = \<lparr>rk_N = 2 ^ 2047 + 1, rk_E = 65537\<rparr>"

definition sample_validator :: KeyValidator where
  "sample_validator = (NewKeyValidator sample_config)
     \<lparr>kv_keys := [''k1'' \<mapsto> sample_key], kv_cacheExpiry := 8000, kv_lastRefresh := 6000\<rparr>"

definition sample_server :: "db \<Rightarrow> server" where
  "sample_server d = \<lparr>sv_auth = sample_validator, sv_world = init_world d\<rparr>"

text \<open>A request with the token, and one without.\<close>

definition sample_http :: "ident \<Rightarrow> ident \<Rightarrow> http_request" where
  "sample_http authorization body = \<lparr>hr_header = (\<lambda>h. if h = ''Authorization'' then authorization
       else if h = ''Idempotency-Key'' then ''key-1'' else ''''), hr_query = (\<lambda>_. ''''), hr_body = body, hr_provider = None\<rparr>"

lemma sample_validator_ok: "auth_ok sample_config sample_validator"
  by (simp add: auth_ok_def kv_ok_def keys_ok_def sample_validator_def NewKeyValidator_def oidc_algorithm_def
      sample_config_def server_config_def strong_key_def sample_key_def)

lemma sample_server_simps [simp]: "sv_auth (sample_server d) = sample_validator" "w_db (sv_world (sample_server d)) = d"
  by (simp_all add: sample_server_def)

lemma sample_config_ok: "\<not> config_error sample_config" "oidc_algorithm sample_config = ''RS256''"
  by code_simp+

lemma bearer: "Fields ''Bearer tok'' = [''Bearer'', ''tok'']" "fold_char CHR ''B'' = CHR ''b''" "fold_char CHR ''e'' = CHR ''e''"
  "fold_char CHR ''a'' = CHR ''a''" "fold_char CHR ''r'' = CHR ''r''"
  by code_simp+

lemma run_bind: "run_state (m \<bind> f) s = (case run_state m s of (x, s') \<Rightarrow> run_state (f x) s')"
  by (simp add: State_Monad.bind_def)

lemma run_ret: "run_state (ret x) s = (x, s)"
  by (simp add: State_Monad.return_def)

lemma sample_GetKey:
  "run_state (GetKey sample_oidc \<lparr>jh_alg = Some ''RS256'', jh_kid = Some ''k1''\<rparr>) sample_validator =
     (Inr sample_key, sample_validator\<lparr>kv_step := 1\<rparr>)"
proof -
  have "TrimSpace ''k1'' \<noteq> ''''" by code_simp
  then show ?thesis
    by (simp add: GetKey_def run_bind run_ret kv_get_def kv_now_def kv_tick_def sample_oidc_def sample_validator_def
        NewKeyValidator_def sample_config_def server_config_def)
qed

lemma sample_authenticate:
  "run_state (authenticate sample_oidc sample_config ''Bearer tok'') sample_validator =
     (Inr ''prov'', sample_validator\<lparr>kv_step := 2\<rparr>)"
proof -
  have "od_header sample_oidc ''RS256'' ''tok'' = Some \<lparr>jh_alg = Some ''RS256'', jh_kid = Some ''k1''\<rparr>"
    by (simp add: sample_oidc_def)
  then show ?thesis
    by (simp add: authenticate_def sample_config_ok bearer ParseWithClaims_def run_bind run_ret sample_GetKey kv_tick_def)
      (simp add: sample_oidc_def claimed_provider_def)
qed

lemma sample_api:
  assumes "hr_header r ''Authorization'' = ''Bearer tok''"
  shows "run_state (api sample_env sample_oidc True sample_config ep r) (sample_server d) =
    (case run_state (serve sample_env ep (r\<lparr>hr_provider := Some ''prov''\<rparr>)) (init_world d) of (x, w) \<Rightarrow>
       (x, \<lparr>sv_auth = sample_validator\<lparr>kv_step := 2\<rparr>, sv_world = w\<rparr>))"
  by (simp add: api_def authHandler_ServeHTTP_def protected_endpoint OIDCAuth_def run_bind on_auth_def on_world_def assms
      sample_authenticate sample_server_def split: prod.split)

lemma sample_read_wallet:
  "rs_status (fst (run_state (serve sample_env (Get_Wallet ''i'') (sample_http ''Bearer tok'' ''''\<lparr>hr_provider := Some ''prov''\<rparr>))
     (init_world wallet_db))) = 200"
  by code_simp

section \<open>Posting transactions\<close>

text \<open>
  \<open>posted E r req\<close>: the request \<open>r\<close> passes the checks of the handler that come before the service
  and reads as \<open>req\<close>, for the authenticated provider.
\<close>

definition posted :: "http_request \<Rightarrow> WagerTransactionRequest \<Rightarrow> bool" where
  "posted r req \<longleftrightarrow> TrimSpace (hr_header r ''Idempotency-Key'') \<noteq> '''' \<and>
     unmarshal WagerTransactionRequest_fields (json_first (hr_body r)) empty_wager_request = Some req \<and>
     \<not> missing_field req \<and> hr_provider r = Some (hq_ProviderID req) \<and>
     (hq_Kind req = ''LOSS'' \<or> TrimSpace (dto_Amount (hq_Money req)) \<noteq> '''' \<and> TrimSpace (dto_Currency (hq_Money req)) \<noteq> '''')"

text \<open>The response to an outcome of the service.\<close>

definition response_of :: "gerr + ProcessResult \<Rightarrow> Response" where
  "response_of x = (case x of Inl err \<Rightarrow> process_error err | Inr res \<Rightarrow> \<lparr>rs_status = process_status res, rs_body = process_body res\<rparr>)"

lemma wp_posted:
  assumes "calm E" and "posted r req" and "wallet_at E (w_db w) (hq_WalletID req) wr" and "owner wr = hq_ProviderID req"
    and Q: "\<And>w'. w_db w' = w_db w \<Longrightarrow>
      wp (ProcessTransaction E (service_request req) (hr_header r ''Idempotency-Key'') '''') (\<lambda>x. Q (response_of x)) w'"
  shows "wp (WagerTransactionHandler_Create E r) Q w"
proof -
  have ne: "hq_WalletID req \<noteq> ''''"
  proof
    assume "hq_WalletID req = ''''"
    moreover have "TrimSpace '''' = ''''" by code_simp
    ultimately show False using assms(2) by (simp add: posted_def missing_field_def)
  qed
  have get: "wp (GetWallet E (hq_WalletID req)) P w" if "\<And>w'. w_db w' = w_db w \<Longrightarrow> P (Inr (wallet_of wr)) w'" for P
    unfolding GetWallet_def if_not_P [OF ne]
  proof (rule wp_FindByID, goal_cases)
    case (1 e w')
    then show ?case using assms(1,3) by (auto simp: blamed_def)
  next
    case (2 wr' w')
    then show ?case using assms(3) that by (auto dest: wallet_at_unique)
  qed
  have "wp (ProcessTransaction E (service_request req) (hr_header r ''Idempotency-Key'') '''') (\<lambda>x. wp (case x of
      Inl err \<Rightarrow> ret (process_error err) | Inr res \<Rightarrow> writeJSON (process_status res) (process_body res)) Q) w'"
    if "w_db w' = w_db w" for w'
    using Q [OF that] by (rule wp_mono) (auto simp: response_of_def wp_ret wp_writeJSON split: sum.splits)
  then show ?thesis
    using assms(2,4) unfolding posted_def
    by (auto simp: WagerTransactionHandler_Create_def deny_provider_def owner_def wp_bind wp_ret wp_if intro!: get)
qed

lemma wp_post_bet:
  assumes "env_ok E" and "calm E" and "db_inv True (canonical E) (w_db w)" and "posted r req"
    and "fresh_request E (w_db w) (service_request req) (hr_header r ''Idempotency-Key'') BET m wr" and "owner wr = hq_ProviderID req"
    and ok: "\<And>x w'. cents m \<le> sint (wr_balance wr) \<Longrightarrow> bet_booked (w_db w) wr m x (w_db w') \<Longrightarrow> Q (response_of x) w'"
    and no: "\<And>x w'. sint (wr_balance wr) < cents m \<Longrightarrow> bet_denied (w_db w) x (w_db w') \<Longrightarrow> Q (response_of x) w'"
  shows "wp (WagerTransactionHandler_Create E r) Q w"
proof (rule wp_posted [OF assms(2,4) _ assms(6)])
  show "wallet_at E (w_db w) (hq_WalletID req) wr" using assms(5) by (simp add: fresh_request_def service_request_def)
  fix w' :: world assume w': "w_db w' = w_db w"
  show "wp (ProcessTransaction E (service_request req) (hr_header r ''Idempotency-Key'') '''') (\<lambda>x. Q (response_of x)) w'"
  proof (rule wp_fresh_request [OF assms(1,2), where kind = BET and m = m and wr = wr], goal_cases)
    case (3 tx x w2)
    then show ?case using w' carried_out_bet [OF assms(1) 3(9,3,4)] ok [of x w2] no [of x w2] by fastforce
  qed (use w' assms(3,5) in simp_all)
qed

section \<open>A bet as it is posted\<close>

definition bet_body :: string where
  "bet_body = ''{\"providerId\":\"prov\",\"externalTransactionId\":\"x1\",\"playerId\":\"p1\",\"walletId\":\"i\",\"roundId\":\"r1\",\"gameId\":\"g1\",\"kind\":\"BET\",\"money\":{\"amount\":\"25.00\",\"currency\":\"BRL\"}}''"

definition bet_http :: http_request where
  "bet_http = (sample_http '''' bet_body)\<lparr>hr_provider := Some ''prov''\<rparr>"

definition bet_request :: WagerTransactionRequest where
  "bet_request = \<lparr>hq_ProviderID = ''prov'', hq_ExternalTransactionID = ''x1'', hq_PlayerID = ''p1'', hq_WalletID = ''i'',
     hq_RoundID = ''r1'', hq_GameID = ''g1'', hq_Kind = ''BET'', hq_Money = \<lparr>dto_Amount = ''25.00'', dto_Currency = ''BRL''\<rparr>,
     hq_ReferenceExternalID = ''''\<rparr>"

lemma bet_body_read: "unmarshal WagerTransactionRequest_fields (json_first bet_body) empty_wager_request = Some bet_request"
  by code_simp

lemma bet_posted: "posted bet_http bet_request"
proof -
  have "TrimSpace ''key-1'' \<noteq> ''''" "\<not> missing_field bet_request" "TrimSpace ''25.00'' \<noteq> ''''" "TrimSpace ''BRL'' \<noteq> ''''"
    by code_simp+
  then show ?thesis using bet_body_read by (simp add: posted_def bet_http_def sample_http_def) (simp add: bet_request_def)
qed

lemma bet_http_fresh:
  "fresh_request sample_env wallet_db (service_request bet_request) (hr_header bet_http ''Idempotency-Key'') BET
     \<lparr>money_amount = 2500, money_currency = BRL\<rparr> sample_wallet_row"
proof -
  have "service_request bet_request = sample_request ''BET'' ''x1'' ''25.00'' ''''"
    by (simp add: service_request_def bet_request_def sample_request_def BRL_def)
  moreover have "ParseMoney ''25.00'' BRL = Inr \<lparr>money_amount = 2500, money_currency = BRL\<rparr>" by code_simp
  ultimately show ?thesis using wallet_db_fresh by (simp add: cents_def)
qed

lemma sample_owner: "owner sample_wallet_row = hq_ProviderID bet_request"
  by code_simp

lemma bet_http_wallet:
  "map (\<lambda>wr. (wr_id wr, readable_wallet wr, owner wr)) (db_wallets (after (serve sample_env Post_Wager_Transaction bet_http) wallet_db)) =
     [(''i'', True, ''prov'')]"
  by code_simp

end
