(* ===== verification/Api_Safety.thy ===== *)
theory Api_Safety
  imports Api_Scenario
begin

text \<open>
  What holds of every request to the API when authentication is switched on: who it acts for,
  what it can change and what it can learn.
\<close>

section \<open>Authentication\<close>

text \<open>
  C10: a token is checked before anything else happens: every request to an endpoint of the API
  either ends with 401 (or 500 when the OIDC configuration is incomplete) and leaves the tables
  alone, or its bearer token was verified with an RSA key of at least 2048 bits under the
  configured algorithm, has an expiry, and names the provider \<open>p\<close> that the request acts for; the
  tables then change at most as \<open>confined\<close> to \<open>p\<close> allows: other providers' wallets stay as they are,
  and what is added belongs to wallets of \<open>p\<close>. The cache of keys stays sound.
\<close>

theorem api_writes_confined:
  assumes "env_ok E" and "reachable (env_uuid E) (w_db (sv_world s))" and "auth_ok cfg (sv_auth s)"
  shows "case run_state (api E O0 True cfg ep r) s of (x, s') \<Rightarrow> auth_ok cfg (sv_auth s') \<and>
    (sv_world s' = sv_world s \<and> (rs_status x = 401 \<or> config_error cfg \<and> rs_status x = 500) \<or>
     (\<exists>p. vouched O0 cfg (hr_header r ''Authorization'') p \<and>
        (w_db (sv_world s') = w_db (sv_world s) \<or> confined True E p (w_db (sv_world s)) (w_db (sv_world s')))))"
  unfolding wp_def [symmetric] by (rule wp_api [OF assms(1) reachable_inv [OF assms(2)] assms(3)]) blast+

theorem api_writes_confined_witness:
  "env_ok sample_env \<and> auth_ok sample_config (sv_auth (sample_server wallet_db)) \<and>
   (case run_state (api sample_env sample_oidc True sample_config Post_Wager_Transaction (sample_http '''' '''')) (sample_server wallet_db) of
      (x, s') \<Rightarrow> auth_ok sample_config (sv_auth s') \<and> (sv_world s' = sv_world (sample_server wallet_db) \<or>
       (\<exists>p. w_db (sv_world s') = wallet_db \<or> confined True sample_env p wallet_db (w_db (sv_world s')))))"
  using api_writes_confined [OF sample_env_ok, where s = "sample_server wallet_db" and cfg = sample_config and ?O0.0 = sample_oidc
      and ep = Post_Wager_Transaction and r = "sample_http '''' ''''"]
    sample_validator_ok sample_wallet_reachable sample_env_ok by (auto split: prod.splits)

text \<open>
  C11: a provider reads only its own data: every \<^verbatim>\<open>GET\<close> endpoint and the reconciliation leave the
  tables as they are, and an answer with status 200 is made from a row of the provider that the
  verified token names: the wallet, its ledger entries, its reconciliation or the transaction
  that the path asks for.
\<close>

theorem api_reads_own:
  assumes "env_ok E" and "reachable (env_uuid E) (w_db (sv_world s))" and "auth_ok cfg (sv_auth s)" and "read_only ep"
  shows "case run_state (api E O0 True cfg ep r) s of (x, s') \<Rightarrow> w_db (sv_world s') = w_db (sv_world s) \<and>
    (rs_status x = 200 \<longrightarrow>
      (\<exists>p. vouched O0 cfg (hr_header r ''Authorization'') p \<and> owned E p (w_db (sv_world s)) ep (rs_body x)))"
  unfolding wp_def [symmetric]
  by (rule wp_api [OF assms(1) reachable_inv [OF assms(2)] assms(3)]) (use assms(4) in auto)

theorem api_reads_own_witness:
  "\<exists>p wr. vouched sample_oidc sample_config ''Bearer tok'' p \<and> own_wallet_at sample_env p wallet_db ''i'' wr"
proof -
  let ?r = "sample_http ''Bearer tok'' ''''"
  have h: "hr_header ?r ''Authorization'' = ''Bearer tok''" by (simp add: sample_http_def)
  have "rs_status (fst (run_state (api sample_env sample_oidc True sample_config (Get_Wallet ''i'') ?r) (sample_server wallet_db))) = 200"
    using sample_read_wallet by (simp add: sample_api [OF h] split_beta)
  then show ?thesis
    using api_reads_own [OF sample_env_ok, where s = "sample_server wallet_db" and cfg = sample_config and ?O0.0 = sample_oidc
      and ep = "Get_Wallet ''i''" and r = ?r]
      sample_validator_ok sample_wallet_reachable h by (auto split: prod.splits)
qed

text \<open>
  C29: the issuer and the audience of a token are never compared with the configuration: the
  outcome of the check is the same for every two non-blank issuer URLs and client identifiers.
\<close>

theorem issuer_and_audience_ignored:
  assumes "TrimSpace (oc_IssuerURL cfg) \<noteq> ''''" and "TrimSpace (oc_ClientID cfg) \<noteq> ''''"
    and "TrimSpace issuer \<noteq> ''''" and "TrimSpace client \<noteq> ''''"
  shows "authenticate O0 (cfg\<lparr>oc_IssuerURL := issuer, oc_ClientID := client\<rparr>) header = authenticate O0 cfg header"
proof -
  let ?cfg = "cfg\<lparr>oc_IssuerURL := issuer, oc_ClientID := client\<rparr>"
  have "config_error ?cfg = config_error cfg" "oidc_algorithm ?cfg = oidc_algorithm cfg"
    using assms by (simp_all add: config_error_def oidc_algorithm_def)
  then show ?thesis unfolding authenticate_def by (simp only:)
qed

theorem issuer_and_audience_ignored_witness:
  "fst (run_state (authenticate sample_oidc (sample_config\<lparr>oc_IssuerURL := ''other'', oc_ClientID := ''other''\<rparr>) ''Bearer tok'')
     sample_validator) = Inr ''prov''"
proof -
  have "TrimSpace (oc_IssuerURL sample_config) \<noteq> ''''" "TrimSpace (oc_ClientID sample_config) \<noteq> ''''" "TrimSpace ''other'' \<noteq> ''''"
    by code_simp+
  from issuer_and_audience_ignored [OF this(1,2,3,3), of sample_oidc "''Bearer tok''"] show ?thesis
    by (simp add: sample_authenticate)
qed

section \<open>The cache of keys\<close>

text \<open>
  A valid token is accepted without asking the key server: with a complete configuration, a
  bearer token under the configured algorithm whose key is in a cache that has not expired, and
  which the library verifies with that key, is accepted for the provider it names when it has an
  expiry; the cache stays as it is.
\<close>

theorem valid_token_accepted:
  assumes "\<not> config_error cfg" and "kv_expectedAlg kv = oidc_algorithm cfg"
    and "Fields authHeader = [scheme, tok]" and "map fold_char scheme = ''bearer''"
    and "od_header O0 (oidc_algorithm cfg) tok = Some \<lparr>jh_alg = Some (oidc_algorithm cfg), jh_kid = Some kid\<rparr>"
    and "TrimSpace kid \<noteq> ''''" and "od_clock O0 (kv_step kv) < kv_cacheExpiry kv" and "kv_keys kv kid = Some key"
    and "od_verify O0 tok key (Suc (kv_step kv)) = Some c" and "jc_ExpiresAt c \<noteq> None" and "claimed_provider c \<noteq> ''''"
  shows "run_state (authenticate O0 cfg authHeader) kv = (Inr (claimed_provider c), kv\<lparr>kv_step := kv_step kv + 2\<rparr>)"
proof -
  have "run_state (GetKey O0 \<lparr>jh_alg = Some (oidc_algorithm cfg), jh_kid = Some kid\<rparr>) kv = (Inr key, kv\<lparr>kv_step := Suc (kv_step kv)\<rparr>)"
    using assms(2,6-8) by (simp add: GetKey_def run_bind run_ret kv_get_def kv_now_def kv_tick_def)
  then have "run_state (ParseWithClaims O0 (oidc_algorithm cfg) tok) kv = (Some c, kv\<lparr>kv_step := kv_step kv + 2\<rparr>)"
    using assms(5,9) by (simp add: ParseWithClaims_def run_bind run_ret kv_tick_def)
  moreover have "length [scheme, tok] = 2" "[scheme, tok] ! 0 = scheme" "[scheme, tok] ! 1 = tok" by simp_all
  ultimately show ?thesis
    unfolding authenticate_def Let_def assms(3) using assms(1,4,10,11) by (simp add: run_bind run_ret)
qed

theorem valid_token_accepted_witness:
  "run_state (authenticate sample_oidc sample_config ''Bearer tok'') sample_validator = (Inr ''prov'', sample_validator\<lparr>kv_step := 2\<rparr>)"
proof -
  let ?c = "\<lparr>jc_ProviderID = ''prov'', jc_Subject = ''s'', jc_ExpiresAt = Some 9000\<rparr>"
  have k: "TrimSpace ''k1'' \<noteq> ''''" and f: "map fold_char ''Bearer'' = ''bearer''" by code_simp+
  have v: "kv_expectedAlg sample_validator = oidc_algorithm sample_config" "kv_keys sample_validator ''k1'' = Some sample_key"
      "od_clock sample_oidc (kv_step sample_validator) < kv_cacheExpiry sample_validator" "kv_step sample_validator = 0"
    unfolding sample_config_ok(2)
    by (simp_all add: sample_validator_def NewKeyValidator_def sample_config_def server_config_def sample_oidc_def)
  have o: "od_header sample_oidc (oidc_algorithm sample_config) ''tok'' = Some \<lparr>jh_alg = Some (oidc_algorithm sample_config), jh_kid = Some ''k1''\<rparr>"
      "od_verify sample_oidc ''tok'' sample_key (Suc (kv_step sample_validator)) = Some ?c"
    unfolding sample_config_ok(2) by (simp_all add: sample_oidc_def)
  have c: "jc_ExpiresAt ?c \<noteq> None" "claimed_provider ?c \<noteq> ''''" by (simp_all add: claimed_provider_def)
  from valid_token_accepted [OF sample_config_ok(1) v(1) bearer(1) f o(1) k v(3,2) o(2) c] v(4)
  show ?thesis by (simp add: claimed_provider_def)
qed

text \<open>
  Requests cannot flood the key server: while the cache has not expired, a request for a key
  that is in the cache, or any request within thirty seconds of the last refresh, is decided
  without the key server: the outcome is the same whatever the key server would answer.
\<close>

theorem key_server_not_flooded:
  assumes "od_clock O0 (kv_step kv) < kv_cacheExpiry kv"
    and "(\<exists>kid. jh_kid h = Some kid \<and> kv_keys kv kid \<noteq> None) \<or>
      kv_lastRefresh kv \<noteq> zero_time \<and> od_clock O0 (kv_step kv) - kv_lastRefresh kv < refreshCooldown"
  shows "run_state (GetKey (O0\<lparr>od_fetch := f\<rparr>) h) kv = run_state (GetKey O0 h) kv"
  using assms
  by (auto simp: GetKey_def run_bind run_ret kv_get_def kv_now_def kv_tick_def bind_err_def split: option.split)

theorem key_server_not_flooded_witness:
  "fst (run_state (GetKey (sample_oidc\<lparr>od_fetch := (\<lambda>_. Inr (200, ''{}''))\<rparr>) \<lparr>jh_alg = Some ''RS256'', jh_kid = Some ''k1''\<rparr>) sample_validator) = Inr sample_key"
proof -
  have "od_clock sample_oidc (kv_step sample_validator) < kv_cacheExpiry sample_validator" "kv_keys sample_validator ''k1'' \<noteq> None"
    by (simp_all add: sample_validator_def NewKeyValidator_def sample_config_def server_config_def sample_oidc_def)
  from key_server_not_flooded [OF this(1), of "\<lparr>jh_alg = Some ''RS256'', jh_kid = Some ''k1''\<rparr>" "\<lambda>_. Inr (200, ''{}'')"] this(2) sample_GetKey
  show ?thesis by simp
qed

section \<open>Statuses\<close>

lemma denied_response: "response_of (Inl (wallet_failure (wallet_err Wallet_ErrInsufficientBalance))) =
    \<lparr>rs_status = 422, rs_body = json_error_message ''insufficient_balance'' ''wallet does not have sufficient balance''\<rparr>"
  by (simp add: response_of_def process_error_def wallet_failure_def)

lemma booked_response: "tr_status row = PROCESSED \<Longrightarrow> response_of (Inr (processed_result row b)) =
    \<lparr>rs_status = 201, rs_body = process_body (processed_result row b)\<rparr>"
  by (simp add: response_of_def process_status_def processed_result_def)

text \<open>
  C13: a new bet posted for the provider's own wallet, when nothing fails: if the balance covers
  the stake the answer is 201 with the transaction and the reduced balance, and the bet is booked;
  if not, the answer is 422 and the bet is stored as rejected with the balance untouched.
\<close>

theorem bet_over_http:
  assumes "env_ok E" and "calm E" and "reachable (env_uuid E) d" and "posted r req"
    and "fresh_request E d (service_request req) (hr_header r ''Idempotency-Key'') BET m wr" and "owner wr = hq_ProviderID req"
  shows "(cents m \<le> sint (wr_balance wr) \<longrightarrow> (\<exists>row b. cents b = sint (wr_balance wr) - cents m \<and>
        answer (serve E Post_Wager_Transaction r) d = \<lparr>rs_status = 201, rs_body = process_body (processed_result row b)\<rparr> \<and>
        bet_booked d wr m (Inr (processed_result row b)) (after (serve E Post_Wager_Transaction r) d))) \<and>
    (sint (wr_balance wr) < cents m \<longrightarrow>
        rs_status (answer (serve E Post_Wager_Transaction r) d) = 422 \<and>
        (\<exists>x. bet_denied d x (after (serve E Post_Wager_Transaction r) d)))"
proof -
  have "wp (serve E Post_Wager_Transaction r) (\<lambda>y w'.
      (cents m \<le> sint (wr_balance wr) \<longrightarrow> (\<exists>x. bet_booked d wr m x (w_db w') \<and> y = response_of x)) \<and>
      (sint (wr_balance wr) < cents m \<longrightarrow> (\<exists>x. bet_denied d x (w_db w') \<and> y = response_of x))) (init_world d)"
    unfolding serve.simps
    by (rule wp_post_bet [OF assms(1,2) _ assms(4) _ assms(6), where m = m]) (use reachable_inv [OF assms(3)] assms(5) in auto)
  then show ?thesis
    unfolding wp_run answer_def after_def by (fastforce simp: bet_booked_def bet_denied_def denied_response booked_response)
qed

theorem bet_over_http_witness:
  "\<exists>row b. answer (serve sample_env Post_Wager_Transaction bet_http) wallet_db =
     \<lparr>rs_status = 201, rs_body = process_body (processed_result row b)\<rparr> \<and> cents b = 7500"
proof -
  have n: "sint (wr_balance sample_wallet_row) = 10000" "cents \<lparr>money_amount = 2500, money_currency = BRL\<rparr> = 2500"
    by (simp_all add: sample_wallet_row_def cents_def)
  from bet_over_http [OF sample_env_ok sample_env_calm sample_wallet_reachable bet_posted bet_http_fresh sample_owner, unfolded n]
  show ?thesis by auto
qed

text \<open>What a new request that is posted leaves behind.\<close>

lemma posted_carried_out:
  assumes "env_ok E" and "calm E" and inv: "db_inv True (canonical E) d" and "posted r req" and "owner wr = hq_ProviderID req"
    and fresh: "fresh_request E d (service_request req) (hr_header r ''Idempotency-Key'') kind m wr"
  obtains tx x where "new_request True d tx" "tx_provider tx = rq_ProviderID (service_request req)"
    "tx_idempotencyKey tx = effective_key (hr_header r ''Idempotency-Key'') (service_request req)"
    "tx_payloadHash tx = request_hash E (service_request req)" "tx_walletID tx = rq_WalletID (service_request req)"
    "carried_out E d tx wr x (after (serve E Post_Wager_Transaction r) d)"
proof -
  let ?key = "hr_header r ''Idempotency-Key''"
  have at: "wallet_at E d (hq_WalletID req) wr" using fresh by (simp add: fresh_request_def service_request_def)
  have "wp (serve E Post_Wager_Transaction r) (\<lambda>y w'. \<exists>tx x. new_request True d tx \<and> tx_provider tx = rq_ProviderID (service_request req) \<and>
      tx_idempotencyKey tx = effective_key ?key (service_request req) \<and> tx_payloadHash tx = request_hash E (service_request req) \<and>
      tx_walletID tx = rq_WalletID (service_request req) \<and> carried_out E d tx wr x (w_db w')) (init_world d)"
    unfolding serve.simps
  proof (rule wp_posted [OF assms(2,4) _ assms(5)])
    fix w' :: world assume w': "w_db w' = w_db (init_world d)"
    show "wp (ProcessTransaction E (service_request req) ?key '''') (\<lambda>_ w'. \<exists>tx x. new_request True d tx \<and>
        tx_provider tx = rq_ProviderID (service_request req) \<and> tx_idempotencyKey tx = effective_key ?key (service_request req) \<and>
        tx_payloadHash tx = request_hash E (service_request req) \<and> tx_walletID tx = rq_WalletID (service_request req) \<and>
        carried_out E d tx wr x (w_db w')) w'"
      by (rule wp_fresh_request [OF assms(1,2), where kind = kind and m = m and wr = wr]) (use w' inv fresh in auto)
  qed (use at in simp)
  then show ?thesis unfolding wp_run after_def by (blast intro: that [unfolded after_def])
qed

text \<open>
  C14: a request that is posted again with the same key and body, when nothing fails either time:
  whatever the first answer was, the tables stay as they are and the second answer is 200 with
  the identifier and the status of the stored transaction, marked as a replay. (A bet refused
  with 422 is thus answered with 200 and \<^verbatim>\<open>REJECTED\<close> when it is posted again.)
\<close>

theorem retry_over_http:
  assumes "env_ok E" and "env_ok E'" and "calm E" and "calm E'" and "env_uuid E' = env_uuid E" and "env_sha256 E' = env_sha256 E"
    and "reachable (env_uuid E) d" and "posted r req" and "owner wr = hq_ProviderID req"
    and "fresh_request E d (service_request req) (hr_header r ''Idempotency-Key'') kind m wr"
    and "wallet_at E' (after (serve E Post_Wager_Transaction r) d) (hq_WalletID req) wr'" and "owner wr' = hq_ProviderID req"
  shows "after (serve E' Post_Wager_Transaction r) (after (serve E Post_Wager_Transaction r) d) =
      after (serve E Post_Wager_Transaction r) d \<and>
    (\<exists>row b. db_txs (after (serve E Post_Wager_Transaction r) d) = db_txs d @ [row] \<and>
      answer (serve E' Post_Wager_Transaction r) (after (serve E Post_Wager_Transaction r) d) =
        \<lparr>rs_status = 200, rs_body = process_body \<lparr>pr_TransactionID = tr_id row,
          pr_Status = TransactionStatus_string (tr_status row), pr_Balance = b, pr_IdempotentReplay = True\<rparr>\<rparr>)"
proof -
  let ?d = "after (serve E Post_Wager_Transaction r) d" and ?key = "hr_header r ''Idempotency-Key''"
  obtain tx x where tx: "new_request True d tx" "tx_provider tx = rq_ProviderID (service_request req)"
      "tx_idempotencyKey tx = effective_key ?key (service_request req)" "tx_payloadHash tx = request_hash E (service_request req)"
      "tx_walletID tx = rq_WalletID (service_request req)" and c: "carried_out E d tx wr x ?d"
    by (rule posted_carried_out [OF assms(1,3) reachable_inv [OF assms(7)] assms(8-10)])
  have reach: "reachable (env_uuid E') ?d"
    unfolding assms(5) by (rule reachable_step [OF assms(7) program_step.answer_request [OF assms(1) refl]])
  have "wp (serve E' Post_Wager_Transaction r) (\<lambda>y w'. \<exists>x'. answered E' (service_request req)
      (effective_key ?key (service_request req)) ?d x' (w_db w') \<and> y = response_of x') (init_world ?d)"
    unfolding serve.simps(1) [of E']
  proof (rule wp_posted [OF assms(4,8) _ assms(12)])
    fix w' :: world assume w': "w_db w' = w_db (init_world ?d)"
    show "wp (ProcessTransaction E' (service_request req) ?key '''') (\<lambda>x w'. \<exists>x'. answered E' (service_request req)
        (effective_key ?key (service_request req)) ?d x' (w_db w') \<and> response_of x = response_of x') w'"
      by (rule wp_ProcessTransaction [OF assms(2)]) (use w' reachable_inv [OF reach] assms(4) in auto)
  qed (use assms(11) in simp)
  then obtain x' where a: "answered E' (service_request req) (effective_key ?key (service_request req)) ?d x'
        (after (serve E' Post_Wager_Transaction r) ?d)"
      and y: "answer (serve E' Post_Wager_Transaction r) ?d = response_of x'"
    unfolding wp_run answer_def after_def by blast
  from replay_answered [OF assms(1,5,6,10) tx c a] obtain row b where row: "db_txs ?d = db_txs d @ [row]"
      "after (serve E' Post_Wager_Transaction r) ?d = ?d" "x' = Inr \<lparr>pr_TransactionID = tr_id row,
        pr_Status = TransactionStatus_string (tr_status row), pr_Balance = b, pr_IdempotentReplay = True\<rparr>" by blast
  have "tr_status row = PROCESSED \<or> tr_status row = REJECTED"
    using reachable_nothing_pending [OF reach] row(1) by (simp add: nothing_pending_def)
  then show ?thesis using row y by (auto simp: response_of_def process_status_def)
qed

theorem retry_over_http_witness:
  "rs_status (answer (serve sample_env Post_Wager_Transaction bet_http)
     (after (serve sample_env Post_Wager_Transaction bet_http) wallet_db)) = 200"
proof -
  let ?d = "after (serve sample_env Post_Wager_Transaction bet_http) wallet_db"
  obtain wr where wr: "db_wallets ?d = [wr]" "wr_id wr = ''i''" "readable_wallet wr" "owner wr = ''prov''"
    using bet_http_wallet by (auto simp: map_eq_Cons_conv)
  then have "wallet_at sample_env ?d (hq_WalletID bet_request) wr" "owner wr = hq_ProviderID bet_request"
    by (simp_all add: wallet_at_def sample_env_uuid sample_uuid_def bet_request_def graphic_def)
  from retry_over_http [OF sample_env_ok sample_env_ok sample_env_calm sample_env_calm refl refl sample_wallet_reachable bet_posted
      sample_owner bet_http_fresh this] show ?thesis by auto
qed

end
