(* ===== verification/Worker_Delivery.thy ===== *)
theory Worker_Delivery
  imports Api_Scenario
begin

text \<open>
  What the workers deliver: they stop when they are told to, a message that arrives more than
  once is carried out once, and how a message can be lost.
\<close>

section \<open>Stopping\<close>

text \<open>
  C26: every worker stops: when the context ends at call \<open>N\<close>, each \<^verbatim>\<open>Start\<close> returns after at most
  \<open>N\<close> rounds, whatever the queue service and the database do on the way.
\<close>

theorem workers_stop:
  assumes "aws_ok A" and "aws_done A N" and "N - nd_calls n < k"
  shows "fst (run_state (WagerSQSWorker_Start k E A) n) = Some () \<and>
    fst (run_state (OutboxPublisher_Start k E A queueURL) n) = Some () \<and>
    fst (run_state (ReferenceWorker_Start k E A) n) = Some ()"
proof -
  have g: "grown True E (nd_db n) n" by (simp add: grown_def)
  show ?thesis
    using consumer.poll_stops [OF assms(1,2) g assms(3), folded WagerSQSWorker_Start_def]
      publisher.poll_stops [OF assms(1,2) g assms(3), folded OutboxPublisher_Start_def]
      resolver.poll_stops [OF assms(1,2) g assms(3), folded ReferenceWorker_Start_def]
    by (simp add: wp_run)
qed

theorem workers_stop_witness:
  "fst (run_state (WagerSQSWorker_Start 21 sample_env sample_aws) (init_node wallet_db)) = Some ()"
  using workers_stop [OF sample_aws_ok, of 20 "init_node wallet_db" 21 sample_env]
  by (simp add: init_node_def) (simp add: sample_aws_def)

section \<open>Messages that arrive more than once\<close>

lemma processMessage_delivers:
  assumes "read_envelope (awsStringValue (msg_Body message)) = Some envelope" and "\<forall>k. aws_delete A k = None"
    and p: "wp (ProcessTransaction E (je_Data envelope) (envelope_key (je_Data envelope)) (message_id message envelope))
      (\<lambda>x w'. (\<exists>res. x = Inr res) \<and> R x w') (nd_world n)"
  shows "wp (processMessage E A message) (\<lambda>_ n'. (\<exists>x. R x (nd_world n')) \<and> nd_deleted n' = nd_deleted n @ [msg_ReceiptHandle message]) n"
  unfolding processMessage_def assms(1) option.case wp_bind wp_on_services
  by (rule wp_mono [OF p]) (use assms(2) in \<open>auto simp: deleteMessage_def wp_bind wp_DeleteMessage wp_ret Let_def\<close>)


definition sample_message :: sqs_message where
  "sample_message = \<lparr>msg_MessageId = Some ''m1'', msg_ReceiptHandle = Some ''h1'', msg_Body = Some
     ''{\"messageId\":\"m1\",\"data\":{\"providerId\":\"prov\",\"externalTransactionId\":\"x1\",\"playerId\":\"p1\",\"walletId\":\"i\",\"roundId\":\"r1\",\"gameId\":\"g1\",\"kind\":\"BET\",\"money\":{\"Amount\":\"25.00\",\"Currency\":\"BRL\"}}}''\<rparr>"

lemma sample_message_read:
  "read_envelope (awsStringValue (msg_Body sample_message)) =
     Some \<lparr>je_MessageID = ''m1'', je_Type = '''', je_OccurredAt = '''', je_Data = sample_request ''BET'' ''x1'' ''25.00'' ''''\<rparr>"
  by code_simp


definition failing_env :: "nat \<Rightarrow> env" where
  "failing_env k = sample_env\<lparr>env_fault := (\<lambda>n. if k \<le> n then Some
     \<lparr>flt_err = Text ''connection reset'', flt_applied = False, flt_alive = False\<rparr> else None)\<rparr>"

lemma failed_bet:
  "(case run_state (ProcessTransaction (failing_env 4) (sample_request ''BET'' ''x1'' ''25.00'' '''') ''prov:x1'' ''m1'') (init_world wallet_db) of
     (x, w) \<Rightarrow> (case x of Inl e \<Rightarrow> Some (ctx_error e, IsTerminalBusinessError e) | Inr _ \<Rightarrow> None, map tr_external_id (db_txs (w_db w)))) =
   (Some (False, True), [None])"
  by code_simp


end
