(* ===== verification/Outbox_Delivery.thy ===== *)
theory Outbox_Delivery
  imports Program
begin

text \<open>
  What the publisher of the outbox delivers: an event is marked as published only after its
  message was accepted by the queue service, and ten events that have run out of attempts block
  all others.
\<close>

section \<open>Sent before it is marked\<close>

definition message_for :: "aws \<Rightarrow> ident \<Rightarrow> outbox_row \<Rightarrow> SendMessageInput" where
  "message_for A queueURL r = send_input queueURL (aws_jsonb A (or_payload r)) (or_aggregate_type r @ ''-'' @ or_aggregate_id r)
     (or_event_type r @ ''-'' @ or_aggregate_id r)"

text \<open>The row \<open>r\<close> of the outbox has become \<open>r'\<close>: the same event, and published only if it was sent.\<close>

definition sent_if_published :: "aws \<Rightarrow> ident \<Rightarrow> SendMessageInput list \<Rightarrow> outbox_row \<Rightarrow> outbox_row \<Rightarrow> bool" where
  "sent_if_published A queueURL ms r r' \<longleftrightarrow> same_event r r' \<and>
     (or_published_at r' = None \<or> or_published_at r \<noteq> None \<or> message_for A queueURL r \<in> set ms)"

definition sent_first :: "aws \<Rightarrow> ident \<Rightarrow> db \<Rightarrow> SendMessageInput list \<Rightarrow> db \<Rightarrow> bool" where
  "sent_first A queueURL d ms d' \<longleftrightarrow> list_all2 (sent_if_published A queueURL ms) (db_outbox d) (db_outbox d')"

text \<open>The event was read from the row of the outbox with its identifier.\<close>

definition event_of_outbox :: "db \<Rightarrow> OutboxEvent \<Rightarrow> bool" where
  "event_of_outbox d ev \<longleftrightarrow> (\<exists>r \<in> set (db_outbox d). oe_ID ev = or_id r \<and> oe_AggregateType ev = or_aggregate_type r \<and>
     oe_AggregateID ev = or_aggregate_id r \<and> oe_EventType ev = or_event_type r \<and> oe_Payload ev = Some (or_payload r))"

text \<open>The identifiers of the outbox are its primary key and read as themselves.\<close>

definition outbox_ids :: "env \<Rightarrow> db \<Rightarrow> bool" where
  "outbox_ids E d \<longleftrightarrow> distinct (map or_id (db_outbox d)) \<and> (\<forall>r \<in> set (db_outbox d). env_uuid E (or_id r) = Some (or_id r))"

lemma list_all2_map_mono:
  "list_all2 P xs ys \<Longrightarrow> (\<And>x y. x \<in> set xs \<Longrightarrow> P x y \<Longrightarrow> P' x (g y)) \<Longrightarrow> list_all2 P' xs (map g ys)"
  by (induction rule: list_all2_induct) auto

lemma list_all2_origin: "list_all2 P xs ys \<Longrightarrow> y \<in> set ys \<Longrightarrow> \<exists>x \<in> set xs. P x y"
  by (induction rule: list_all2_induct) auto

lemma sent_first_refl: "sent_first A q d ms d"
  unfolding sent_first_def list_all2_same by (auto simp: sent_if_published_def same_event_def)

lemma sent_first_more: "sent_first A q d ms d' \<Longrightarrow> set ms \<subseteq> set ms' \<Longrightarrow> sent_first A q d ms' d'"
  unfolding sent_first_def by (auto elim!: list_all2_mono simp: sent_if_published_def)

lemma sent_first_update:
  assumes "sent_first A q d ms d'" and f: "\<And>r. same_event r (f r)"
    and pub: "\<And>r r'. r \<in> set (db_outbox d) \<Longrightarrow> or_id r = u \<Longrightarrow>
      or_published_at (f r') = or_published_at r' \<or> message_for A q r \<in> set ms"
  shows "sent_first A q d ms (update_outbox u f d')"
proof -
  have "sent_if_published A q ms r (if or_id r' = u then f r' else r')"
    if r: "r \<in> set (db_outbox d)" "sent_if_published A q ms r r'" for r r'
  proof (cases "or_id r' = u")
    case True
    then have "or_id r = u" using r(2) by (simp add: sent_if_published_def same_event_def)
    then show ?thesis using pub [OF r(1), of r'] r(2) f [of r'] True by (auto simp: sent_if_published_def same_event_def)
  next
    case False
    then show ?thesis using r(2) by simp
  qed
  from list_all2_map_mono [where P' = "sent_if_published A q ms" and g = "\<lambda>r'. if or_id r' = u then f r' else r'", OF _ this]
    assms(1) show ?thesis by (simp add: sent_first_def update_outbox_def)
qed

lemma event_of_row_outbox: "sent_first A q d ms d' \<Longrightarrow> r \<in> set (db_outbox d') \<Longrightarrow> event_of_outbox d (event_of_row r)"
  unfolding sent_first_def event_of_outbox_def
  by (drule (1) list_all2_origin) (auto simp: sent_if_published_def same_event_def event_of_row_def)

lemma wp_publisher_fetch:
  assumes "\<And>e w'. w_db w' = w_db w \<Longrightarrow> Q (Inl e) w'"
    and "\<And>xs w' n. w_db w' = w_db w \<Longrightarrow>
      prefix xs (take 10 (sort_key or_next_attempt_at (filter (due_event (env_pg_now E n)) (db_outbox (w_db w))))) \<Longrightarrow>
      Q (Inr (map event_of_row xs)) w'"
  shows "wp (OutboxRepo_FindPending E 10) Q w"
  unfolding OutboxRepo_FindPending_def wp_bind_err
proof (rule wp_pool_rows_select, goal_cases)
  case (1 c x d')
  then show ?case by (auto simp: sql_select_outbox_def)
next
  case (2 e w' n)
  then show ?case using assms(1) by (simp add: quiet_def)
next
  case (3 xs xs' w' n)
  have "xs = take 10 (sort_key or_next_attempt_at (filter (due_event (env_pg_now E n)) (db_outbox (w_db w))))"
    using 3(2) by (simp add: sql_select_outbox_def limit_or_10_def)
  then show ?case using 3(1,3) assms(2) [of w' xs' n] by (simp add: quiet_def wp_ret)
qed

lemma wp_stmt_db:
  assumes "R (w_db w)" and "\<And>c x d'. g c (w_db w) = Inr (x, d') \<Longrightarrow> R d'"
  shows "wp (pool_stmt E g) (\<lambda>_ w'. R (w_db w')) w"
  using assms by (intro wp_pool_stmt) metis+

lemma retry_sent:
  "sent_first A q d ms d' \<Longrightarrow> sql_retry_outbox e k i c d' = Inr (x, d'') \<Longrightarrow> sent_first A q d ms d''"
  by (auto simp: sql_retry_outbox_def as_uuid_Inr same_event_def split: if_splits intro!: sent_first_update)

lemma wp_increment_sent:
  assumes "sent_first A q d ms (w_db w)"
  shows "wp (OutboxRepo_IncrementAttempts E i msg) (\<lambda>_ w'. sent_first A q d ms (w_db w')) w"
proof -
  have "wp (pool_stmt E (sql_select_attempts i)) (\<lambda>_ w'. sent_first A q d ms (w_db w')) w"
    using assms by (rule wp_stmt_db) (use assms in \<open>auto simp: sql_select_attempts_def as_uuid_Inr\<close>)
  moreover have "wp (bind_err (pool_stmt E (sql_retry_outbox msg k i)) g ok) (\<lambda>_ w'. sent_first A q d ms (w_db w')) w'"
    if "sent_first A q d ms (w_db w')" for w' k g
    unfolding wp_bind_err
    by (rule wp_mono [OF wp_stmt_db [where R = "sent_first A q d ms", OF that]]) (use that in \<open>auto simp: wp_ret split: sum.splits intro: retry_sent\<close>)
  ultimately show ?thesis
    unfolding OutboxRepo_IncrementAttempts_def OutboxRepo_getAttempts_def wp_bind wp_ret by (rule wp_mono)
qed

lemma wp_mark_sent:
  assumes "sent_first A q d ms (w_db w)" and "outbox_ids E d" and r: "r \<in> set (db_outbox d)" "message_for A q r \<in> set ms"
  shows "wp (OutboxRepo_MarkPublished E (or_id r)) (\<lambda>_ w'. sent_first A q d ms (w_db w')) w"
proof -
  have "r' = r" if "r' \<in> set (db_outbox d)" "or_id r' = or_id r" for r'
    using that r(1) assms(2) by (auto simp: outbox_ids_def distinct_map inj_on_def)
  then have "sent_first A q d ms d'" if "sql_publish_outbox (or_id r) (stmt_ctx E s n) (w_db w) = Inr (x, d')" for s n x d'
    using that assms r by (auto simp: sql_publish_outbox_def as_uuid_Inr outbox_ids_def same_event_def intro!: sent_first_update)
  then have "wp (pool_stmt E (sql_publish_outbox (or_id r))) (\<lambda>_ w'. sent_first A q d ms (w_db w')) w"
    using assms(1) by (intro wp_pool_stmt) metis+
  then show ?thesis
    unfolding OutboxRepo_MarkPublished_def wp_bind_err by (rule wp_mono) (auto simp: wp_ret split: sum.split)
qed

text \<open>The invariant of the publisher, from the tables \<open>d\<close> at its start.\<close>

definition publishing :: "env \<Rightarrow> aws \<Rightarrow> ident \<Rightarrow> db \<Rightarrow> node \<Rightarrow> bool" where
  "publishing E A queueURL d n \<longleftrightarrow> (outbox_ids E d \<longrightarrow> sent_first A queueURL d (nd_sent n) (nd_db n))"

lemma publishing_calls [simp]: "publishing E A q d (n\<lparr>nd_calls := k\<rparr>) = publishing E A q d n"
  by (simp add: publishing_def)

lemma publishing_services:
  assumes "publishing E A q d n" and "\<And>w. sent_first A q d (nd_sent n) (w_db w) \<Longrightarrow> outbox_ids E d \<Longrightarrow>
      wp m (\<lambda>_ w'. sent_first A q d (nd_sent n) (w_db w')) w"
  shows "wp (on_services m) (\<lambda>_ n'. publishing E A q d n' \<and> nd_calls n' = nd_calls n) n"
  unfolding wp_on_services using assms by (auto simp: wp_run publishing_def)

lemma publishing_fetch:
  assumes "publishing E A q d n"
  shows "wp (on_services (OutboxRepo_FindPending E 10)) (\<lambda>b n'. publishing E A q d n' \<and> nd_calls n \<le> nd_calls n' \<and>
    (\<forall>xs. b = Inr xs \<longrightarrow> list_all (\<lambda>ev. outbox_ids E d \<longrightarrow> event_of_outbox d ev) xs)) n"
  unfolding wp_on_services
proof (rule wp_publisher_fetch, goal_cases)
  case (1 e w')
  then show ?case using assms by (simp add: publishing_def)
next
  case (2 xs w' k)
  have "set xs \<subseteq> set (db_outbox (nd_db n))" using set_mono_prefix [OF 2(2)] by (auto dest!: in_set_takeD)
  then show ?case using 2(1) assms event_of_row_outbox by (fastforce simp: publishing_def list_all_iff)
qed

lemma publishing_publish:
  assumes "publishing E A q d n" and ev: "outbox_ids E d \<longrightarrow> event_of_outbox d ev"
  shows "wp (publish E A q ev) (\<lambda>_ n'. publishing E A q d n' \<and> nd_calls n \<le> nd_calls n') n"
proof (cases "maxAttempts \<le> oe_Attempts ev")
  case True
  have *: "wp (on_services (count_metric f)) (\<lambda>_ n'. publishing E A q d n' \<and> nd_calls n' = nd_calls n) n" for f
    by (rule publishing_services [OF assms(1)]) (auto intro!: wp_count_metric simp: quiet_def)
  show ?thesis unfolding publish_def if_P [OF True] by (rule wp_mono [OF *]) simp
next
  case False
  let ?n = "n\<lparr>nd_calls := Suc (nd_calls n)\<rparr>" and ?Q = "\<lambda>_ n'. publishing E A q d n' \<and> nd_calls n \<le> nd_calls n'"
  have inc: "wp (do { _ \<leftarrow> on_services (OutboxRepo_IncrementAttempts E (oe_ID ev) (Error err)); ret () }) ?Q n'"
    if "publishing E A q d n'" "nd_calls n \<le> nd_calls n'" for n' err
    unfolding wp_bind wp_ret
    by (rule wp_mono [OF publishing_services [OF that(1)]]) (use that(2) in \<open>auto intro: wp_increment_sent\<close>)
  have mark: "wp (do { _ \<leftarrow> on_services (OutboxRepo_MarkPublished E (oe_ID ev)); ret () }) ?Q n'"
    if "publishing E A q d n'" "nd_calls n \<le> nd_calls n'" and sent: "send_input q (payload_text A (oe_Payload ev))
        (oe_AggregateType ev @ ''-'' @ oe_AggregateID ev) (oe_EventType ev @ ''-'' @ oe_AggregateID ev) \<in> set (nd_sent n')" for n'
    unfolding wp_bind wp_ret
  proof (rule wp_mono [OF publishing_services [OF that(1)]], goal_cases)
    case (1 w)
    obtain r where "r \<in> set (db_outbox d)" "oe_ID ev = or_id r" "message_for A q r \<in> set (nd_sent n')"
      using ev 1(2) sent by (auto simp: event_of_outbox_def message_for_def payload_text_def)
    then show ?case using wp_mark_sent [OF 1] by simp
  qed (use that(2) in auto)
  have "wp (SQSPublishFunc A q (oe_EventType ev) (oe_AggregateType ev) (oe_AggregateID ev) (payload_text A (oe_Payload ev)))
      (\<lambda>sent. wp (case sent of
          Inl err \<Rightarrow> if ctx_error err then ret ()
            else do { _ \<leftarrow> on_services (OutboxRepo_IncrementAttempts E (oe_ID ev) (Error err)); ret () }
        | Inr _ \<Rightarrow> do { _ \<leftarrow> on_services (OutboxRepo_MarkPublished E (oe_ID ev)); ret () }) ?Q) ?n"
    unfolding SQSPublishFunc_def
  proof (rule wp_Client_SendMessage, goal_cases)
    case (1 e ms)
    then have "publishing E A q d (?n\<lparr>nd_calls := Suc (nd_calls ?n), nd_sent := ms\<rparr>)"
      using assms(1) by (auto simp: publishing_def intro: sent_first_more)
    then show ?case using inc by (simp add: wp_ret)
  next
    case (2 e)
    then show ?case using assms(1) inc by (simp add: wp_ret)
  next
    case 3
    have "publishing E A q d (?n\<lparr>nd_calls := Suc (nd_calls ?n), nd_sent := nd_sent ?n @ [m]\<rparr>)" for m
      using assms(1) by (auto simp: publishing_def intro: sent_first_more)
    then show ?case using mark by simp
  qed
  with False assms(1) show ?thesis
    unfolding publish_def by (simp add: wp_bind [of "ctx_Err A"] wp_bind [of "SQSPublishFunc _ _ _ _ _ _"] wp_ctx_Err wp_ret)
qed

interpretation sender: polling A "on_services (OutboxRepo_FindPending E 10)"
  "\<lambda>events. on_services (count_metric (\<lambda>m. m\<lparr>mt_pending := length events\<rparr>))" "publish E A q" "publishing E A q d"
  "\<lambda>ev. outbox_ids E d \<longrightarrow> event_of_outbox d ev"
  for E A q d
proof (unfold_locales, goal_cases)
  case (1 n)
  then show ?case by (rule publishing_fetch)
next
  case (2 n xs)
  show ?case
    by (rule wp_mono [OF publishing_services [OF 2]]) (auto intro!: wp_count_metric simp: quiet_def)
next
  case (3 n x)
  then show ?case by (rule publishing_publish)
qed simp

text \<open>
  C16: an event is sent before it is marked: after any run of the publisher, under any failures
  of the queue service and the database, the outbox holds the same events as before, and each that
  has been marked as published during the run is the message of a \<^verbatim>\<open>SendMessage\<close> that took effect
  during the run, to the publisher's queue, with the event's payload, group and deduplication
  identifier.
\<close>

theorem published_after_sending:
  assumes "outbox_ids E (nd_db n)" and "n' = snd (run_state (OutboxPublisher_Start k E A queueURL) n)" and "nd_sent n = []"
  shows "list_all2 (\<lambda>r r'. same_event r r' \<and>
      (or_published_at r' = None \<or> or_published_at r \<noteq> None \<or> message_for A queueURL r \<in> set (nd_sent n')))
    (db_outbox (nd_db n)) (db_outbox (nd_db n'))"
proof -
  have "publishing E A queueURL (nd_db n) n" by (simp add: publishing_def sent_first_refl)
  from sender.poll_keeps [OF this, of k, folded OutboxPublisher_Start_def] assms(1,2)
  have "sent_first A queueURL (nd_db n) (nd_sent n') (nd_db n')" by (simp add: wp_run publishing_def)
  then show ?thesis unfolding sent_first_def sent_if_published_def .
qed


theorem published_after_sending_witness:
  "list_all2 (\<lambda>r r'. same_event r r' \<and> (or_published_at r' = None \<or> or_published_at r \<noteq> None \<or>
      message_for sample_aws ''q'' r \<in> set (nd_sent (snd (run_state (OutboxPublisher_Start 3 sample_env sample_aws ''q'') (init_node wallet_db))))))
    (db_outbox wallet_db) (db_outbox (nd_db (snd (run_state (OutboxPublisher_Start 3 sample_env sample_aws ''q'') (init_node wallet_db)))))"
proof -
  have d: "distinct (map or_id (db_outbox wallet_db))" and i: "list_all (\<lambda>r. sample_uuid (or_id r) = Some (or_id r)) (db_outbox wallet_db)"
    by code_simp+
  have "outbox_ids sample_env (nd_db (init_node wallet_db))"
    using d i by (simp add: outbox_ids_def init_node_def sample_env_uuid list_all_iff)
  moreover have n: "nd_sent (init_node wallet_db) = []" "nd_db (init_node wallet_db) = wallet_db" by (simp_all add: init_node_def init_world_def)
  ultimately show ?thesis
    using published_after_sending [OF _ refl n(1), where k = 3 and A = sample_aws and queueURL = "''q''"] by (simp only: n(2))
qed

section \<open>Starvation\<close>

lemma take_small:
  "sorted (map f ys) \<Longrightarrow> m \<le> length (filter (\<lambda>x. f x \<le> t) ys) \<Longrightarrow> x \<in> set (take m ys) \<Longrightarrow> f x \<le> (t :: 'a :: linorder)"
proof (induction ys arbitrary: m)
  case (Cons y ys)
  show ?case
  proof (cases "f y \<le> t")
    case True
    then show ?thesis using Cons by (cases m) auto
  next
    case False
    then have "filter (\<lambda>x. f x \<le> t) (y # ys) = []" using Cons.prems(1) by (auto simp: filter_empty_conv)
    then have "m = 0" using Cons.prems(2) by simp
    then show ?thesis using Cons.prems(3) by simp
  qed
qed simp

text \<open>Ten unpublished events without attempts left are due before every other one.\<close>

definition blocked :: "time \<Rightarrow> db \<Rightarrow> bool" where
  "blocked t d \<longleftrightarrow>
     10 \<le> length (filter (\<lambda>r. or_published_at r = None \<and> maxAttempts \<le> or_attempts r \<and> or_next_attempt_at r \<le> t) (db_outbox d)) \<and>
     (\<forall>r \<in> set (db_outbox d). or_published_at r = None \<and> or_attempts r < maxAttempts \<longrightarrow> t < or_next_attempt_at r)"

lemma blocked_batch:
  assumes "blocked t d" and "t \<le> now" and "r \<in> set (take 10 (sort_key or_next_attempt_at (filter (due_event now) (db_outbox d))))"
  shows "maxAttempts \<le> or_attempts r"
proof -
  let ?ys = "sort_key or_next_attempt_at (filter (due_event now) (db_outbox d))"
  let ?P = "\<lambda>r. or_published_at r = None \<and> maxAttempts \<le> or_attempts r \<and> or_next_attempt_at r \<le> t"
  have "length (filter ?P rs) \<le> length (filter (\<lambda>r. due_event now r \<and> or_next_attempt_at r \<le> t) rs)" for rs
    using assms(2) by (induction rs) (auto simp: due_event_def)
  also have "length (filter (\<lambda>r. due_event now r \<and> or_next_attempt_at r \<le> t) (db_outbox d)) = length (filter (\<lambda>r. or_next_attempt_at r \<le> t) ?ys)"
    by (simp add: filter_sort conj_commute)
  finally have "length (filter ?P (db_outbox d)) \<le> length (filter (\<lambda>r. or_next_attempt_at r \<le> t) ?ys)" .
  then have "or_next_attempt_at r \<le> t"
    using take_small [OF sorted_sort_key _ assms(3)] assms(1) by (simp add: blocked_def)
  moreover have "r \<in> set (db_outbox d) \<and> due_event now r" using assms(3) by (auto dest: in_set_takeD)
  ultimately show ?thesis using assms(1) by (fastforce simp: blocked_def due_event_def)
qed

definition starved :: "time \<Rightarrow> env \<Rightarrow> db \<Rightarrow> bool" where
  "starved t E d \<longleftrightarrow> blocked t d \<and> (\<forall>k. t \<le> env_pg_now E k)"

interpretation starving: polling A "on_services (OutboxRepo_FindPending E 10)"
  "\<lambda>events. on_services (count_metric (\<lambda>m. m\<lparr>mt_pending := length events\<rparr>))" "publish E A q"
  "\<lambda>n. starved t E d \<longrightarrow> nd_db n = d \<and> nd_sent n = []" "\<lambda>ev. starved t E d \<longrightarrow> maxAttempts \<le> oe_Attempts ev"
  for E A q d t
proof (unfold_locales, goal_cases)
  case (1 n)
  show ?case
    unfolding wp_on_services
  proof (rule wp_publisher_fetch, goal_cases)
    case (1 e w')
    then show ?case using \<open>starved t E d \<longrightarrow> _\<close> by simp
  next
    case (2 xs w' k)
    then show ?case
      using \<open>starved t E d \<longrightarrow> _\<close> blocked_batch [of t d "env_pg_now E k"] set_mono_prefix [OF 2(2)]
      by (auto simp: list_all_iff starved_def event_of_row_def)
  qed
next
  case (2 n xs)
  then show ?case by (auto simp: wp_on_services intro!: wp_count_metric simp: quiet_def)
next
  case (3 n ev)
  show ?case
  proof (cases "starved t E d")
    case True
    then show ?thesis using 3 by (auto simp: publish_def wp_on_services quiet_def intro!: wp_count_metric)
  next
    case False
    have "grown True E (nd_db n) n" by (simp add: grown_def)
    from publish_grown [OF this] show ?thesis by (rule wp_mono) (use False in simp)
  qed
qed simp

text \<open>
  C28: the publisher can starve: the batch of ten is read before the number of attempts is looked
  at, and an event without attempts left is skipped but stays due. Once ten such events are due
  before all others, no run of the publisher sends or changes anything ever again, whatever the
  queue service does and however far the clock goes on.
\<close>

theorem outbox_starves:
  assumes "blocked t d" and "\<And>k. t \<le> env_pg_now E k"
  shows "nd_sent (snd (run_state (OutboxPublisher_Start k E A queueURL) (init_node d))) = [] \<and>
    nd_db (snd (run_state (OutboxPublisher_Start k E A queueURL) (init_node d))) = d"
proof -
  have "starved t E d" using assms by (simp add: starved_def)
  with starving.poll_keeps [of t E d "init_node d" k A queueURL, folded OutboxPublisher_Start_def] show ?thesis
    by (simp add: wp_run init_node_def)
qed

text \<open>Ten events without attempts left, and one that has not been tried.\<close>

definition clogged_db :: db where
  "clogged_db = empty_db\<lparr>db_outbox := (case hd (db_outbox wallet_db) of r \<Rightarrow>
     r\<lparr>or_id := ''fresh'', or_next_attempt_at := 5000\<rparr> # map (\<lambda>i. r\<lparr>or_id := i, or_attempts := 5, or_next_attempt_at := 4000\<rparr>)
       [''a'', ''b'', ''c'', ''d'', ''e'', ''f'', ''g'', ''h'', ''j'', ''k''])\<rparr>"

theorem outbox_starves_witness:
  "length (filter (\<lambda>r. or_attempts r = 0) (db_outbox clogged_db)) = 1 \<and>
   nd_sent (snd (run_state (OutboxPublisher_Start 100 sample_env sample_aws ''q'') (init_node clogged_db))) = []"
proof -
  have un: "or_published_at (hd (db_outbox wallet_db)) = None" "or_attempts (hd (db_outbox wallet_db)) = 0" by code_simp+
  have b: "blocked 4000 clogged_db"
    using un by (simp add: blocked_def clogged_db_def maxAttempts_def)
  have "4000 \<le> env_pg_now sample_env k" for k by (simp add: sample_env_def)
  from outbox_starves [OF b this] show ?thesis using un by (simp add: clogged_db_def)
qed

end
