(* ===== verification/Provider_Noninterference.thy ===== *)
theory Provider_Noninterference
  imports Api_Scenario
begin

text \<open>
  Providers do not interfere: what one provider writes through the API does not change what
  another one reads.
\<close>

section \<open>The same answer on two states of the tables\<close>

definition unaffected :: "db \<Rightarrow> db \<Rightarrow> 'a eff \<Rightarrow> bool" where
  "unaffected d d' m \<longleftrightarrow> (\<forall>w. w_db w = d \<longrightarrow>
     (case run_state m w of (x, w1) \<Rightarrow> w_db w1 = d \<and> run_state m (w\<lparr>w_db := d'\<rparr>) = (x, w1\<lparr>w_db := d'\<rparr>)))"

named_theorems unaffected_intros \<open>operations with the same answer on both states\<close>

lemma unaffected_ret [unaffected_intros]: "unaffected d d' (ret x)"
  by (simp add: unaffected_def State_Monad.return_def)

lemma unaffected_bind: "unaffected d d' m \<Longrightarrow> (\<And>x. unaffected d d' (f x)) \<Longrightarrow> unaffected d d' (m \<bind> f)"
  unfolding unaffected_def
proof (intro allI impI)
  fix w :: world assume m: "\<forall>w. w_db w = d \<longrightarrow> (case run_state m w of (x, w1) \<Rightarrow> w_db w1 = d \<and> run_state m (w\<lparr>w_db := d'\<rparr>) = (x, w1\<lparr>w_db := d'\<rparr>))"
    and f: "\<And>x. \<forall>w. w_db w = d \<longrightarrow> (case run_state (f x) w of (y, w1) \<Rightarrow> w_db w1 = d \<and> run_state (f x) (w\<lparr>w_db := d'\<rparr>) = (y, w1\<lparr>w_db := d'\<rparr>))"
    and w: "w_db w = d"
  obtain x w1 where x: "run_state m w = (x, w1)" by (cases "run_state m w")
  with m w have w1: "w_db w1 = d" "run_state m (w\<lparr>w_db := d'\<rparr>) = (x, w1\<lparr>w_db := d'\<rparr>)" by auto
  show "case run_state (m \<bind> f) w of (x, w1) \<Rightarrow> w_db w1 = d \<and> run_state (m \<bind> f) (w\<lparr>w_db := d'\<rparr>) = (x, w1\<lparr>w_db := d'\<rparr>)"
    using f [of x, THEN spec, of w1] x w1 by (simp add: run_bind split: prod.splits)
qed

lemma unaffected_bind_err [unaffected_intros]:
  "unaffected d d' m \<Longrightarrow> (\<And>x. unaffected d d' (k x)) \<Longrightarrow> unaffected d d' (bind_err m g k)"
  unfolding bind_err_def by (rule unaffected_bind) (auto intro: unaffected_ret split: sum.split)

lemma unaffected_tick [unaffected_intros]: "unaffected d d' tick"
  by (simp add: unaffected_def tick_def)

lemma unaffected_count_metric [unaffected_intros]: "unaffected d d' (count_metric f)"
  by (simp add: unaffected_def count_metric_def)

text \<open>A statement that reads the same from both.\<close>

definition agree :: "db \<Rightarrow> db \<Rightarrow> (db \<Rightarrow> gerr + 'a \<times> db) \<Rightarrow> bool" where
  "agree d d' g \<longleftrightarrow> (\<exists>e. g d = Inl e \<and> g d' = Inl e) \<or> (\<exists>x. g d = Inr (x, d) \<and> g d' = Inr (x, d'))"

lemma unaffected_pool_stmt:
  assumes "\<And>s n. agree d d' (f (stmt_ctx E s n))"
  shows "unaffected d d' (pool_stmt E f)"
  unfolding unaffected_def
proof (intro allI impI)
  fix w :: world assume w: "w_db w = d"
  from assms [of "env_pg_now E (w_step w)" "w_step w"] w
  show "case run_state (pool_stmt E f) w of (x, w1) \<Rightarrow>
      w_db w1 = d \<and> run_state (pool_stmt E f) (w\<lparr>w_db := d'\<rparr>) = (x, w1\<lparr>w_db := d'\<rparr>)"
    by (auto simp: agree_def pool_stmt_def run_bind tick_def split: option.splits)
qed

lemma unaffected_pool_rows:
  "(\<And>s n. agree d d' (f (stmt_ctx E s n))) \<Longrightarrow> unaffected d d' (pool_rows E f)"
  unfolding pool_rows_def by (intro unaffected_intros unaffected_bind unaffected_pool_stmt)

lemma unaffected_writeJSON [unaffected_intros]: "unaffected d d' (writeJSON n v)" "unaffected d d' (lookup_error s code err)"
  by (simp_all add: writeJSON_def lookup_error_def unaffected_ret)

section \<open>What a confined change leaves to others\<close>

lemma confined_wallet:
  assumes "confined True E p d d'" and "own_wallet_at E q d i wr" and "q \<noteq> TrimSpace p" and "distinct (map wr_id (db_wallets d'))"
  shows "own_wallet_at E q d' i wr" and "ledger_of (wr_id wr) d' = ledger_of (wr_id wr) d"
proof -
  have "wr \<in> set (foreign p d)" using assms(2,3) wallet_at_mem by (auto simp: own_wallet_at_def foreign_def)
  then have "wr \<in> set (foreign p d')" using assms(1) by (simp add: confined_def)
  then have wr: "wr \<in> set (db_wallets d')" by (simp add: foreign_def)
  have uniq: "x = wr" if "x \<in> set (db_wallets d')" "wr_id x = wr_id wr" for x
    using row_unique [OF assms(4) that(1) wr that(2)] .
  have "find (\<lambda>x. wr_id x = wr_id wr) (db_wallets d') = Some wr"
  proof (cases "find (\<lambda>x. wr_id x = wr_id wr) (db_wallets d')")
    case None
    then show ?thesis using wr by (auto simp: find_None_iff)
  next
    case (Some x)
    then show ?thesis using uniq [of x] by (auto simp: find_Some_iff)
  qed
  then show "own_wallet_at E q d' i wr" using assms(2) by (simp add: own_wallet_at_def wallet_at_def)
  obtain ls where ls: "db_ledger d' = db_ledger d @ ls" "\<forall>l \<in> set ls. mine p d' (lr_wallet_id l)"
    using assms(1) by (auto simp: confined_def)
  have "lr_wallet_id l \<noteq> wr_id wr" if l: "l \<in> set ls" for l
  proof -
    obtain x where x: "x \<in> set (db_wallets d')" "wr_id x = lr_wallet_id l" "owner x = TrimSpace p"
      using ls(2) l unfolding mine_def by blast
    then show ?thesis using uniq [OF x(1)] assms(2,3) by (auto simp: own_wallet_at_def)
  qed
  then show "ledger_of (wr_id wr) d' = ledger_of (wr_id wr) d" using ls(1) by (auto simp: ledger_of_def filter_empty_conv)
qed

section \<open>The queries\<close>

lemma unaffected_FindByID [unaffected_intros]:
  assumes "own_wallet_at E q d i wr" and "own_wallet_at E q d' i wr"
  shows "unaffected d d' (WalletRepo_FindByID E i)"
proof -
  have "unaffected d d' (pool_stmt E (sql_select_wallet i))"
    using assms by (intro unaffected_pool_stmt)
      (auto simp: agree_def sql_select_wallet_def as_uuid_def own_wallet_at_def wallet_at_def)
  then show ?thesis unfolding WalletRepo_FindByID_def by (intro unaffected_intros)
qed

lemma unaffected_ledger:
  assumes "env_uuid E i = Some u" and "ledger_of u d' = ledger_of u d"
  shows "unaffected d d' (LedgerRepo_FindByWalletID E i c n)" and "unaffected d d' (LedgerRepo_SumByWalletID E i)"
proof -
  have rows: "unaffected d d' (pool_rows E (sql_select_ledger i n))" "unaffected d d' (pool_rows E (sql_select_ledger_after i t j n))"
    "unaffected d d' (pool_stmt E (sql_sum_ledger i))" for n t j
    using assms by (auto intro!: unaffected_pool_rows unaffected_pool_stmt
      simp: agree_def sql_select_ledger_def sql_select_ledger_after_def sql_sum_ledger_def as_uuid_def Let_def split: option.splits)
  have scan: "unaffected d d' (case entries_of_rows rows of Inl err \<Rightarrow> fail err | Inr entries \<Rightarrow> ok (ledger_page E l entries))"
    for rows l
    by (simp add: unaffected_ret split: sum.split)
  show "unaffected d d' (LedgerRepo_FindByWalletID E i c n)"
    unfolding LedgerRepo_FindByWalletID_def Let_def
    by (auto intro!: unaffected_intros unaffected_bind rows scan split: list.split option.split)
  show "unaffected d d' (LedgerRepo_SumByWalletID E i)"
    unfolding LedgerRepo_SumByWalletID_def by (intro unaffected_intros rows)
qed

lemma unaffected_pages:
  assumes "\<And>c n. unaffected d d' (LedgerRepo_FindByWalletID E i c n)"
  shows "unaffected d d' (reconcile_pages k E i c n)"
proof (induction k arbitrary: c n)
  case 0
  then show ?case by (simp add: unaffected_ret)
next
  case (Suc k)
  show ?case
    unfolding reconcile_pages.simps by (auto intro!: unaffected_intros assms Suc.IH simp: Let_def split: prod.split)
qed

text \<open>The part of a handler behind the check of the wallet's owner.\<close>

lemma unaffected_own_wallet:
  assumes "own_wallet_at E q d i wr" and "own_wallet_at E q d' i wr" and "ledger_of (wr_id wr) d' = ledger_of (wr_id wr) d"
  shows "unaffected d d' (WalletHandler_Get E r i)" and "unaffected d d' (WalletHandler_GetLedger E r i)"
    and "unaffected d d' (WalletHandler_Reconcile E r i)"
proof -
  have get: "unaffected d d' (GetWallet E i)"
    unfolding GetWallet_def using unaffected_FindByID [OF assms(1,2)] by (simp add: unaffected_ret)
  have u: "env_uuid E i = Some (wr_id wr)" using assms(1) by (simp add: own_wallet_at_def wallet_at_def)
  note ledger = unaffected_ledger [OF u assms(3)]
  have own: "unaffected d d' (own_wallet E r i k)" if "unaffected d d' k" for k
    unfolding own_wallet_def using that get by (auto intro!: unaffected_intros unaffected_bind split: option.split sum.split)
  have rec: "unaffected d d' (Reconcile E i)"
    unfolding Reconcile_def using unaffected_FindByID [OF assms(1,2)] ledger unaffected_pages [OF ledger(1)]
    by (auto intro!: unaffected_intros unaffected_bind split: option.split)
  have led: "unaffected d d' (GetLedger E i c n)" for c n
    unfolding GetLedger_def using ledger by (simp add: unaffected_ret)
  show "unaffected d d' (WalletHandler_Get E r i)"
    unfolding WalletHandler_Get_def using get by (auto intro!: unaffected_intros unaffected_bind split: sum.split)
  show "unaffected d d' (WalletHandler_GetLedger E r i)"
    unfolding WalletHandler_GetLedger_def using led by (auto intro!: own unaffected_intros unaffected_bind split: sum.split prod.split)
  show "unaffected d d' (WalletHandler_Reconcile E r i)"
    unfolding WalletHandler_Reconcile_def using rec by (auto intro!: own unaffected_intros unaffected_bind split: sum.split option.split)
qed

lemma unaffected_lookup:
  assumes "db_txs d' = db_txs d @ ts" and "find P (db_txs d) \<noteq> None"
  shows "find P (db_txs d') = find P (db_txs d)"
  using assms by (auto simp: find_append)

lemma unaffected_tx:
  assumes "db_txs d' = db_txs d @ ts"
  shows "env_uuid E i = Some u \<Longrightarrow> find (\<lambda>r. tr_id r = u) (db_txs d) \<noteq> None \<Longrightarrow> unaffected d d' (WagerTransactionHandler_Get E r i)"
    and "find (\<lambda>r. tr_provider r = Some p \<and> tr_external_id r = Some i) (db_txs d) \<noteq> None \<Longrightarrow>
      unaffected d d' (GetByProviderAndExternalID E r p i)"
proof -
  assume u: "env_uuid E i = Some u" and f: "find (\<lambda>r. tr_id r = u) (db_txs d) \<noteq> None"
  have "unaffected d d' (pool_stmt E (sql_select_tx_by_id i))"
    using u unaffected_lookup [OF assms f]
    by (intro unaffected_pool_stmt) (simp add: agree_def sql_select_tx_by_id_def sql_select_tx_def as_uuid_def)
  then show "unaffected d d' (WagerTransactionHandler_Get E r i)"
    unfolding WagerTransactionHandler_Get_def TxService_FindByID_def TxRepo_FindByID_def
    by (auto intro!: unaffected_intros unaffected_bind split: sum.split)
next
  assume f: "find (\<lambda>r. tr_provider r = Some p \<and> tr_external_id r = Some i) (db_txs d) \<noteq> None"
  have "unaffected d d' (pool_stmt E (sql_select_tx_by_external p i))"
    using unaffected_lookup [OF assms f]
    by (intro unaffected_pool_stmt) (simp add: agree_def sql_select_tx_by_external_def sql_select_tx_def)
  then show "unaffected d d' (GetByProviderAndExternalID E r p i)"
    unfolding GetByProviderAndExternalID_def TxService_FindByProviderAndExternalID_def TxRepo_FindByProviderAndExternalID_def
    by (auto intro!: unaffected_intros unaffected_bind split: sum.split)
qed

text \<open>An answer with status 200 rests on a row that exists.\<close>

lemma answered_from:
  assumes "hr_provider r = Some q" and "read_only ep" and "w_db w = d" and "rs_status (fst (run_state (serve E ep r) w)) = 200"
  shows "owned E q d ep (rs_body (fst (run_state (serve E ep r) w)))"
  using wp_owned [OF assms(1,2), of E w] assms(3,4) by (simp add: wp_run)

lemma unaffected_owned:
  assumes "confined True E p d d'" and "q \<noteq> TrimSpace p" and "distinct (map wr_id (db_wallets d'))" and "owned E q d ep v" and "read_only ep"
  shows "unaffected d d' (serve E ep r)"
proof -
  obtain ts where ts: "db_txs d' = db_txs d @ ts" using assms(1) by (auto simp: confined_def)
  have wallet: "unaffected d d' (WalletHandler_Get E r i) \<and> unaffected d d' (WalletHandler_GetLedger E r i) \<and>
      unaffected d d' (WalletHandler_Reconcile E r i)" if "own_wallet_at E q d i wr" for i wr
    using unaffected_own_wallet [OF that confined_wallet [OF assms(1) that assms(2,3)]] by blast
  show ?thesis
  proof (cases ep)
    case (Get_Wager_Transaction i)
    then obtain row where row: "row \<in> set (db_txs d)" "env_uuid E i = Some (tr_id row)" using assms(4) by auto
    have "find (\<lambda>r. tr_id r = tr_id row) (db_txs d) \<noteq> None" using row(1) by (auto simp: find_None_iff)
    then show ?thesis using unaffected_tx(1) [OF ts row(2)] Get_Wager_Transaction by simp
  next
    case (Get_Provider_Transaction p' i)
    then obtain row tx where row: "row \<in> set (db_txs d)" "tr_external_id row = Some i" "tr_provider row = Some p'" using assms(4) by auto
    then have "find (\<lambda>r. tr_provider r = Some p' \<and> tr_external_id r = Some i) (db_txs d) \<noteq> None" by (auto simp: find_None_iff)
    then show ?thesis using unaffected_tx(2) [OF ts] Get_Provider_Transaction by simp
  qed (use assms(4,5) wallet in auto)
qed

text \<open>
  C12: providers do not interfere: whatever a provider \<open>p\<close> writes through the API (a change confined
  to \<open>p\<close>, as every accepted request of \<open>p\<close> makes), another provider \<open>q\<close> that got an answer with
  status 200 to a query of its wallets, their ledger, their reconciliation or its transactions
  gets the very same answer after the change.
\<close>

theorem providers_do_not_interfere:
  assumes "reachable (env_uuid E) (w_db w)" and "env_ok E" and "confined True E p (w_db w) d'" and "q \<noteq> TrimSpace p"
    and "hr_provider r = Some q" and "read_only ep" and "rs_status (fst (run_state (serve E ep r) w)) = 200"
  shows "fst (run_state (serve E ep r) (w\<lparr>w_db := d'\<rparr>)) = fst (run_state (serve E ep r) w)"
proof -
  have "db_step True (canonical E) (w_db w) d'" using assms(3) by (simp add: confined_def)
  then have "db_inv True (canonical E) d'" using db_inv_step reachable_inv [OF assms(1)] by blast
  then have "distinct (map wr_id (db_wallets d'))" by (simp add: db_inv_def keys_inv_def)
  from unaffected_owned [OF assms(3,4) this answered_from [OF assms(5,6) refl assms(7)] assms(6), of r]
  have u: "unaffected (w_db w) d' (serve E ep r)" .
  obtain x w1 where run: "run_state (serve E ep r) w = (x, w1)" by (cases "run_state (serve E ep r) w")
  with u [unfolded unaffected_def, THEN spec, of w] show ?thesis by simp
qed


text \<open>Another provider opens a wallet; the balance of the first one reads as before.\<close>

theorem providers_do_not_interfere_witness:
  "fst (run_state (serve sample_env (Get_Wallet ''i'') (sample_http ''Bearer tok'' ''''\<lparr>hr_provider := Some ''prov''\<rparr>))
      (init_world (after (CreateWallet sample_env ''other'' ''p2'' \<lparr>money_amount = 0, money_currency = BRL\<rparr>) wallet_db))) =
   fst (run_state (serve sample_env (Get_Wallet ''i'') (sample_http ''Bearer tok'' ''''\<lparr>hr_provider := Some ''prov''\<rparr>))
      (init_world wallet_db))"
proof -
  let ?m = "\<lparr>money_amount = 0, money_currency = BRL\<rparr>"
  let ?d = "after (CreateWallet sample_env ''other'' ''p2'' ?m) wallet_db"
  have "openable sample_env ''p2'' ''other'' ?m wallet_db"
    by (simp add: openable_def TrimSpace_graphic graphic_def vacant_def sample_env_uuid sample_uuid_def wallet_db_wallets
        owner_of_def sample_wallet_row_def cents_def sample_env_def zero_time_def)
  then obtain wr where "opened sample_env ''p2'' ''other'' ?m wallet_db wr ?d"
    using CreateWallet_run(2) [OF sample_env_ok wallet_db_inv, of "''other''" "''p2''" ?m] sample_env_calm by (auto simp: blamed_def)
  then have c: "confined True sample_env ''other'' (w_db (init_world wallet_db)) ?d" by (auto simp: cents_def intro!: opened_confined)
  have w: "init_world wallet_db\<lparr>w_db := ?d\<rparr> = init_world ?d" by (simp add: init_world_def)
  have ne: "''prov'' \<noteq> TrimSpace ''other''" by (simp add: TrimSpace_graphic graphic_def)
  from providers_do_not_interfere [OF _ sample_env_ok c ne, of "sample_http ''Bearer tok'' ''''\<lparr>hr_provider := Some ''prov''\<rparr>"
      "Get_Wallet ''i''", unfolded w] sample_wallet_reachable sample_read_wallet show ?thesis by simp
qed

end
