(* ===== verification/Rollback_Run.thy ===== *)
theory Rollback_Run
  imports Scenario
begin

text \<open>The run of \<open>Scenario\<close> in which a bet is rolled back, evaluated.\<close>

lemma rollback_db_summary:
  "summary rollback_db = ([10000],
     [(''ii'', PROCESSED, None, None), (''iiiiii'', PROCESSED, Some (''prov'', ''x1''), None),
      (''iiiiiiiiii'', PROCESSED, Some (''prov'', ''x2''), Some ''iiiiii'')],
     [(''ii'', CREDIT, 10000), (''iiiiii'', DEBIT, 2500), (''iiiiiiiiii'', CREDIT, 2500)])"
  by code_simp

end
