(* ===== verification/Stages.thy ===== *)
theory Stages
  imports Program
begin

text \<open>
  Requests that overlap. Between its statements on the pool and the transaction in which it is
  booked, a request lets others run. \<open>accept\<close> is the part of \<^verbatim>\<open>ProcessTransaction\<close> that looks for a
  known key and a known external identifier and builds the transaction; for a request with a
  reference the next part looks the reference up and checks it; the last part books. \<open>advance\<close> runs one
  part, and \<open>ProcessTransaction_stages\<close> shows that the parts in a row are the handler.

  A part is one step here. What it does in its own transaction is indeed atomic: the first
  statement of a movement locks the wallet's row until the commit, and an index entry of another
  uncommitted transaction makes an insertion wait.
\<close>

section \<open>The stages of a request\<close>

datatype stage =
    Done "gerr + ProcessResult"
  | Accepted Request Money string string Transaction
  | Checked Request Money string string Transaction Transaction

definition concluded :: "ProcessResult go \<Rightarrow> (world, (gerr + ProcessResult) + 'a) state" where
  "concluded m = do { x \<leftarrow> m; ret (Inl x) }"

definition finished :: "ProcessResult go \<Rightarrow> stage eff" where
  "finished m = do { x \<leftarrow> m; ret (Done x) }"

text \<open>\<^verbatim>\<open>ProcessTransaction\<close> up to the transaction it builds.\<close>

definition accept_new :: "env \<Rightarrow> Request \<Rightarrow> string \<Rightarrow> string \<Rightarrow> stage eff" where
  "accept_new E req key messageID = do {
     reuse \<leftarrow> TxRepo_ExternalTransactionExists E (rq_ProviderID req) (rq_ExternalTransactionID req) key;
     (case reuse of
        Inl err \<Rightarrow> ret (Done (Inl (Errorf ''check external id'' err)))
      | Inr extExists \<Rightarrow>
          if extExists then ret (Done (Inl (wager_err Wager_ErrExternalIDReuse)))
          else if \<not> TransactionType_Valid (TransactionType_of (rq_Kind req))
            then ret (Done (Inl (wager_err Wager_ErrInvalidTransactionType)))
          else case ParseMoney (dto_Amount (rq_Money req)) (dto_Currency (rq_Money req)) of
            Inl err \<Rightarrow> ret (Done (Inl (ErrorfV (wager_err Wager_ErrInvalidMoney) (money_err err))))
          | Inr parsed \<Rightarrow> do {
              now \<leftarrow> time_Now E;
              ret (case NewExternalTransaction now '''' (rq_ProviderID req) (rq_ExternalTransactionID req) key
                   (request_hash E req) (rq_WalletID req) (rq_PlayerID req) (rq_RoundID req) (rq_GameID req)
                   (TransactionType_of (rq_Kind req)) parsed (rq_ReferenceExternalID req) of
                 Inl err \<Rightarrow> Done (Inl err)
               | Inr tx \<Rightarrow> Accepted req parsed key messageID tx)
            })
   }"

definition accept :: "env \<Rightarrow> Request \<Rightarrow> string \<Rightarrow> string \<Rightarrow> stage eff" where
  "accept E req idempotencyKey messageID = (let key = effective_key idempotencyKey req in do {
     existing \<leftarrow> TxRepo_FindByIdempotencyKey E (rq_ProviderID req) key;
     (case existing of
        Inr ex \<Rightarrow> do {
          _ \<leftarrow> count_metric (\<lambda>m. m\<lparr>mt_duplicates := Suc (mt_duplicates m)\<rparr>);
          finished (if tx_payloadHash ex \<noteq> '''' \<and> tx_payloadHash ex \<noteq> request_hash E req
            then fail (wager_err Wager_ErrPayloadConflict)
            else handleReplay E ex)
        }
      | Inl err \<Rightarrow>
          if err \<noteq> wager_err Wager_ErrTransactionNotFound then ret (Done (Inl (Errorf ''check idempotency'' err)))
          else accept_new E req key messageID)
   })"

text \<open>\<^verbatim>\<open>processRefund\<close> and \<^verbatim>\<open>processRollback\<close> up to the beginning of the transaction.\<close>

definition check_reference ::
  "env \<Rightarrow> Transaction \<Rightarrow> Request \<Rightarrow> Money \<Rightarrow> ((gerr + ProcessResult) + Transaction) eff" where
  "check_reference E tx req amount =
     (if rq_ReferenceExternalID req = '''' then concluded (reject E tx ''MISSING_REFERENCE'')
      else do {
        found \<leftarrow> TxRepo_FindByProviderAndExternalID E (rq_ProviderID req) (rq_ReferenceExternalID req);
        (case found of
           Inl err \<Rightarrow>
             concluded (if errors_is err (WagerErr Wager_ErrTransactionNotFound) then reject E tx ''REFERENCE_NOT_FOUND''
               else fail err)
         | Inr ref \<Rightarrow>
             (case validateReference tx ref of
                Some e \<Rightarrow> concluded (reject E tx (mapValidationError e))
              | None \<Rightarrow>
                  if tx_status ref \<noteq> PROCESSED then
                    concluded (if tx_status ref = PENDING \<or> tx_status ref = PENDING_REFERENCE then park_pending E tx
                      else reject E tx ''REFERENCE_NOT_SUCCESSFUL'')
                  else do {
                    hasReversal \<leftarrow> has_reversal E (tx_id ref);
                    (if hasReversal then concluded (reject E tx ''DOUBLE_REVERSAL'')
                     else case validateReversalValue amount ref of
                            Some _ \<Rightarrow> concluded (reject E tx ''REVERSAL_VALUE_MISMATCH'')
                          | None \<Rightarrow> ret (Inr ref))
                  }))
      })"

text \<open>\<^verbatim>\<open>processWin\<close> up to the beginning of the transaction, for a win with a reference.\<close>

definition check_win :: "env \<Rightarrow> Transaction \<Rightarrow> Request \<Rightarrow> ((gerr + ProcessResult) + Transaction) eff" where
  "check_win E tx req = do {
     found \<leftarrow> TxRepo_FindByProviderAndExternalID E (rq_ProviderID req) (rq_ReferenceExternalID req);
     (case found of
        Inl err \<Rightarrow>
          concluded (if errors_is err (WagerErr Wager_ErrTransactionNotFound) then reject E tx ''REFERENCE_NOT_FOUND''
            else fail err)
      | Inr ref \<Rightarrow>
          (case win_reference_code tx ref of
             Some code \<Rightarrow> concluded (reject E tx code)
           | None \<Rightarrow> ret (Inr ref)))
   }"

text \<open>The rest of the three, given the reference that was checked.\<close>

definition book_checked :: "env \<Rightarrow> TransactionType \<Rightarrow> Transaction \<Rightarrow> Money \<Rightarrow> string \<Rightarrow> Transaction \<Rightarrow> ProcessResult go" where
  "book_checked E kind tx amount messageID ref =
     (if kind = WIN then credit_win E tx amount messageID
      else if kind = REFUND then
        bind_err (TxManager_Begin E) (Errorf ''begin refund transaction'') (\<lambda>t. defer_Rollback t (
          apply_reversal E t tx ref CREDIT amount messageID))
      else bind_err (TxManager_Begin E) (Errorf ''begin rollback transaction'') (\<lambda>t. defer_Rollback t (
        case tx_transactionType ref of
          BET \<Rightarrow> apply_reversal E t tx ref CREDIT amount messageID
        | WIN \<Rightarrow> apply_reversal E t tx ref DEBIT amount messageID
        | REFUND \<Rightarrow> apply_reversal E t tx ref DEBIT amount messageID
        | _ \<Rightarrow> reject E tx ''INVALID_REFERENCE_TYPE'')))"

text \<open>The end of \<^verbatim>\<open>ProcessTransaction\<close>: a duplicate found while booking is answered as a replay.\<close>

definition settle_duplicate :: "env \<Rightarrow> Request \<Rightarrow> string \<Rightarrow> gerr + ProcessResult \<Rightarrow> ProcessResult go" where
  "settle_duplicate E req key result =
     (case result of
        Inl err \<Rightarrow>
          if errors_is err (WagerErr Wager_ErrIdempotentDuplicate) then do {
            existing \<leftarrow> TxRepo_FindByIdempotencyKey E (rq_ProviderID req) key;
            (case existing of Inr ex \<Rightarrow> handleReplay E ex | Inl _ \<Rightarrow> fail err)
          } else fail err
      | Inr r \<Rightarrow> ok r)"

definition needs_check :: "Request \<Rightarrow> bool" where
  "needs_check req \<longleftrightarrow> TransactionType_of (rq_Kind req) = REFUND \<or> TransactionType_of (rq_Kind req) = ROLLBACK \<or>
     TransactionType_of (rq_Kind req) = WIN \<and> rq_ReferenceExternalID req \<noteq> ''''"

fun advance :: "env \<Rightarrow> stage \<Rightarrow> stage eff" where
  "advance E (Done x) = ret (Done x)"
| "advance E (Accepted req parsed key messageID tx) =
     (if needs_check req then do {
        c \<leftarrow> (if TransactionType_of (rq_Kind req) = WIN then check_win E tx req else check_reference E tx req parsed);
        (case c of
           Inl x \<Rightarrow> finished (settle_duplicate E req key x)
         | Inr ref \<Rightarrow> ret (Checked req parsed key messageID tx ref))
      } else do { x \<leftarrow> dispatch E tx req parsed messageID; finished (settle_duplicate E req key x) })"
| "advance E (Checked req parsed key messageID tx ref) = do {
     x \<leftarrow> book_checked E (TransactionType_of (rq_Kind req)) tx parsed messageID ref;
     finished (settle_duplicate E req key x)
   }"

fun complete :: "env \<Rightarrow> stage \<Rightarrow> ProcessResult go" where
  "complete E (Done x) = ret x"
| "complete E (Accepted req parsed key messageID tx) = process_built E req parsed key messageID tx"
| "complete E (Checked req parsed key messageID tx ref) = do {
     x \<leftarrow> book_checked E (TransactionType_of (rq_Kind req)) tx parsed messageID ref;
     settle_duplicate E req key x
   }"

section \<open>The stages make up the handler\<close>

lemma process_built_settle: "process_built E req parsed key messageID tx =
    do { x \<leftarrow> dispatch E tx req parsed messageID; settle_duplicate E req key x }"
  by (simp add: process_built_def settle_duplicate_def)

lemma bind_arg: "m = m' \<Longrightarrow> (\<And>x. f x = f' x) \<Longrightarrow> State_Monad.bind m f = State_Monad.bind m' f'"
  by (metis ext)

lemma with_reference_check:
  "with_reference E tx req amount k = do {
     c \<leftarrow> check_reference E tx req amount;
     (case c of Inl x \<Rightarrow> ret x | Inr ref \<Rightarrow> k ref)
   }"
  by (auto simp: with_reference_def check_reference_def concluded_def intro!: bind_arg split: sum.split option.split)

lemma processWin_check:
  "rq_ReferenceExternalID req \<noteq> '''' \<Longrightarrow> processWin E tx req amount messageID = do {
     c \<leftarrow> check_win E tx req;
     (case c of Inl x \<Rightarrow> ret x | Inr ref \<Rightarrow> credit_win E tx amount messageID)
   }"
  by (auto simp: processWin_def check_win_def concluded_def intro!: bind_arg split: sum.split option.split)

lemma dispatch_check:
  assumes "needs_check req"
  shows "dispatch E tx req parsed messageID = do {
     c \<leftarrow> (if TransactionType_of (rq_Kind req) = WIN then check_win E tx req else check_reference E tx req parsed);
     (case c of Inl x \<Rightarrow> ret x
      | Inr ref \<Rightarrow> book_checked E (TransactionType_of (rq_Kind req)) tx parsed messageID ref)
   }"
  using assms
  by (auto simp: dispatch_def needs_check_def processWin_check processRefund_def processRollback_def with_reference_check
      book_checked_def cong: sum.case_cong)

lemma advance_complete: "do { s' \<leftarrow> advance E s; complete E s' } = complete E s"
proof (cases s)
  case (Accepted req parsed key messageID tx)
  then show ?thesis
    by (cases "needs_check req")
      (auto simp: process_built_settle dispatch_check finished_def intro!: bind_arg split: sum.split)
qed (simp_all add: finished_def)

lemma accept_complete:
  "do { s \<leftarrow> accept_new E req key messageID; complete E s } = process_new E req key messageID"
  unfolding accept_new_def process_new_def bind_err_def bind_assoc
  by (intro bind_arg refl) (auto intro!: bind_arg split: sum.split)

lemma finished_bind: "State_Monad.bind (finished m) f = State_Monad.bind m (\<lambda>x. f (Done x))"
  by (simp add: finished_def)

lemma accept_process:
  "ProcessTransaction E req idempotencyKey messageID = do {
     s \<leftarrow> accept E req idempotencyKey messageID;
     result \<leftarrow> complete E s;
     _ \<leftarrow> count_metric (\<lambda>m. m\<lparr>mt_durations := Suc (mt_durations m)\<rparr>);
     ret result
   }"
  unfolding ProcessTransaction_def accept_def Let_def bind_assoc
  by (intro bind_arg refl)
    (auto simp: finished_bind accept_complete [symmetric] intro!: bind_arg split: sum.split)


text \<open>Each part brings a request closer to its answer.\<close>

fun parts_left :: "stage \<Rightarrow> nat" where
  "parts_left (Done x) = 0"
| "parts_left (Checked req parsed key messageID tx ref) = 1"
| "parts_left (Accepted req parsed key messageID tx) = 2"

lemma wp_finished: "wp (finished m) Q = wp m (\<lambda>x. Q (Done x))"
  by (simp add: finished_def wp_bind wp_ret fun_eq_iff)

lemma wp_concluded: "wp (concluded m) Q = wp m (\<lambda>x. Q (Inl x))"
  by (simp add: concluded_def wp_bind wp_ret fun_eq_iff)

lemma wp_True: "wp m (\<lambda>_ _. True) = (\<lambda>_. True)"
  by (simp add: wp_run fun_eq_iff)

lemma advance_parts: "wp (advance E s) (\<lambda>s' _. parts_left s' < parts_left s \<or> parts_left s' = 0) w"
proof (cases s)
  case (Done x)
  then show ?thesis by (simp add: wp_ret)
next
  case (Checked req parsed key messageID tx ref)
  then show ?thesis by (simp add: wp_bind wp_finished wp_True)
next
  case (Accepted req parsed key messageID tx)
  let ?P = "\<lambda>(s' :: stage) (_ :: world). parts_left s' < parts_left s \<or> parts_left s' = 0"
  have "wp (case c of Inl x \<Rightarrow> finished (settle_duplicate E req key x) | Inr ref \<Rightarrow> ret (Checked req parsed key messageID tx ref))
      ?P = (\<lambda>_. True)" for c
    by (cases c) (simp_all add: Accepted wp_finished wp_True wp_ret)
  then show ?thesis
    unfolding Accepted advance.simps wp_if wp_bind wp_finished by (simp add: Accepted wp_True)
qed

end
