(* ===== verification/Overlap.thy ===== *)
theory Overlap
  imports Stages
begin

text \<open>
  Executions in which requests overlap: any number of requests can be under way, each between two
  of its stages, while others and the workers change the tables. The invariants of the ledger
  hold in every state such executions reach; the uniqueness of external identifiers does not,
  since no index backs the check for it.
\<close>

section \<open>What a stage knows\<close>

definition request_built :: "Request \<Rightarrow> Money \<Rightarrow> string \<Rightarrow> Transaction \<Rightarrow> bool" where
  "request_built req parsed key tx \<longleftrightarrow> new_request False empty_db tx \<and> tx_amount tx = parsed \<and> tx_provider tx = rq_ProviderID req \<and>
     tx_externalReference tx = rq_ReferenceExternalID req \<and> tx_transactionType tx = TransactionType_of (rq_Kind req) \<and>
     tx_idempotencyKey tx = key"

text \<open>The reference that was checked is a processed transaction of the same provider, wallet and amount.\<close>

definition checked_reference :: "db \<Rightarrow> Transaction \<Rightarrow> Transaction \<Rightarrow> bool" where
  "checked_reference d tx ref \<longleftrightarrow> (\<exists>r \<in> set (db_txs d). tr_status r = PROCESSED \<and> tr_provider r = Some (tx_provider tx) \<and>
     tr_wallet_id r = tx_walletID tx \<and> tr_amount r = money_amount (tx_amount tx) \<and> tx_of_row r = Inr ref)"

fun stage_ok :: "db \<Rightarrow> stage \<Rightarrow> bool" where
  "stage_ok d (Done x) \<longleftrightarrow> True"
| "stage_ok d (Accepted req parsed key messageID tx) \<longleftrightarrow> request_built req parsed key tx"
| "stage_ok d (Checked req parsed key messageID tx ref) \<longleftrightarrow> request_built req parsed key tx \<and> needs_check req \<and>
     (TransactionType_of (rq_Kind req) = WIN \<or> checked_reference d tx ref)"

lemma new_request_any: "new_request False d tx = new_request False d' tx"
  by (simp add: new_request_def)

lemma request_built_new: "request_built req parsed key tx \<Longrightarrow> new_request False d tx"
  unfolding request_built_def using new_request_any by blast

text \<open>A finished transaction stays as it is, so what a stage knows stays true.\<close>

lemma stage_ok_kept:
  assumes "stage_ok d s" and "history_kept d d'"
  shows "stage_ok d' s"
proof (cases s)
  case (Checked req parsed key messageID tx ref)
  have "checked_reference d' tx ref" if "checked_reference d tx ref"
    using that assms(2) by (auto simp: checked_reference_def history_kept_def terminal_status_def)
  then show ?thesis using assms(1) Checked by auto
qed (use assms(1) in simp_all)

section \<open>The first stage\<close>

lemma wp_accept_new:
  assumes Q: "\<And>s w'. w_db w' = w_db w \<Longrightarrow> stage_ok (w_db w') s \<Longrightarrow> Q s w'"
  shows "wp (accept_new E req key messageID) Q w"
  unfolding accept_new_def wp_bind
proof (rule wp_ExternalTransactionExists, goal_cases)
  case (1 e w')
  then show ?case by (simp add: wp_ret quiet_def Q)
next
  case (2 w')
  let ?reuse = "list_ex (\<lambda>r. tr_provider r = Some (rq_ProviderID req) \<and> tr_external_id r = Some (rq_ExternalTransactionID req) \<and>
      tr_idempotency_key r \<noteq> nullString key) (db_txs (w_db w))"
  have w': "w_db w' = w_db w" using 2 by (simp add: quiet_def)
  show ?case
  proof (cases "?reuse \<or> \<not> TransactionType_Valid (TransactionType_of (rq_Kind req))")
    case True
    then show ?thesis using w' by (auto simp: wp_ret Q)
  next
    case False
    show ?thesis
    proof (cases "ParseMoney (dto_Amount (rq_Money req)) (dto_Currency (rq_Money req))")
      case (Inl err)
      then show ?thesis using False w' by (simp add: wp_ret Q)
    next
      case (Inr parsed)
      have built: "request_built req parsed key tx" if "NewExternalTransaction now '''' (rq_ProviderID req) (rq_ExternalTransactionID req)
          key (request_hash E req) (rq_WalletID req) (rq_PlayerID req) (rq_RoundID req) (rq_GameID req)
          (TransactionType_of (rq_Kind req)) parsed (rq_ReferenceExternalID req) = Inr tx" for now tx
      proof -
        have b: "build_transaction E now req key = Inr tx" using False Inr that by (simp add: build_transaction_def)
        show ?thesis
          using build_transaction_fields(1) [OF b, of empty_db] build_transaction_fields(2-5,8) [OF b] Inr by (simp add: request_built_def)
      qed
      have "wp (time_Now E) (\<lambda>now. Q (case NewExternalTransaction now '''' (rq_ProviderID req) (rq_ExternalTransactionID req)
          key (request_hash E req) (rq_WalletID req) (rq_PlayerID req) (rq_RoundID req) (rq_GameID req)
          (TransactionType_of (rq_Kind req)) parsed (rq_ReferenceExternalID req) of
            Inl err \<Rightarrow> Done (Inl err) | Inr tx \<Rightarrow> Accepted req parsed key messageID tx)) w'"
        by (rule wp_time_Now, rule Q) (use w' built in \<open>auto simp: quiet_def split: sum.split\<close>)
      then show ?thesis using False Inr by (simp add: wp_bind wp_ret)
    qed
  qed
qed

lemma wp_accept:
  assumes Q: "\<And>s w'. w_db w' = w_db w \<Longrightarrow> stage_ok (w_db w') s \<Longrightarrow> Q s w'"
  shows "wp (accept E req idempotencyKey messageID) Q w"
  unfolding accept_def Let_def wp_bind
proof (rule wp_FindByIdempotencyKey, goal_cases)
  case (1 e w')
  then show ?case by (auto simp: wp_ret quiet_def intro!: wp_accept_new Q)
next
  case (2 r ex w')
  then show ?case
    by (auto simp: wp_bind wp_finished wp_ret quiet_def intro!: wp_count_metric wp_handleReplay [OF 2(3), where E = E] Q)
qed

section \<open>Steps of the specification\<close>

abbreviation at_most_served :: "bool \<Rightarrow> env \<Rightarrow> Transaction \<Rightarrow> db \<Rightarrow> db \<Rightarrow> bool" where
  "at_most_served sep E tx d d' \<equiv> d' = d \<or> served sep E (tx_provider tx) (tx_walletID tx) (tx_idempotencyKey tx) d d'"

lemma wp_reject_step:
  assumes "env_ok E" and "new_request sep (w_db w) tx"
    and Q: "\<And>x w'. at_most_served sep E tx (w_db w) (w_db w') \<Longrightarrow> Q x w'"
  shows "wp (reject E tx code) Q w"
proof -
  have st: "tx_status tx = PENDING" using assms(2) by (simp add: new_request_def)
  have step: "served sep E (tx_provider tx) (tx_walletID tx) (tx_idempotencyKey tx) (w_db w) (w_db w')"
    if "rejected_as tx code tx'" "recorded E tx' (w_db w) r (w_db w')" for tx' r w'
    using that by (intro recorded_step [OF assms(1,2)]) (auto simp: rejected_as_def)
  show ?thesis
    by (rule wp_reject [OF assms(1) st]) (use step in \<open>auto intro!: Q\<close>)
qed

lemma wp_credit_win_step:
  assumes "env_ok E" and "keys_inv (w_db w)" and "new_request sep (w_db w) tx" and "tx_transactionType tx = WIN"
    and Q: "\<And>x w'. at_most_served sep E tx (w_db w) (w_db w') \<Longrightarrow> Q x w'"
  shows "wp (credit_win E tx (tx_amount tx) messageID) Q w"
proof -
  have st: "tx_status tx = PENDING" using assms(3) by (simp add: new_request_def)
  have step: "served sep E (tx_provider tx) (tx_walletID tx) (tx_idempotencyKey tx) (w_db w) (w_db w')"
    if "moved_db E tx CREDIT (tx_amount tx) (w_db w) wr b r (w_db w')" for wr b r w'
    using moved_step [OF assms(1,3) that] movement_plain [OF assms(3) that] assms(4) by simp
  show ?thesis
    unfolding credit_win_def WalletService_Credit_def
  proof (rule wp_move [OF assms(1) st assms(2)], goal_cases)
    case (3 err w')
    show ?case by (rule Q) (rule maybe_rejected_step [OF assms(1,3) 3(1)])
  qed (use step in \<open>auto intro!: Q\<close>)
qed

lemma wp_reversal_step:
  assumes "env_ok E" and "db_inv sep (canonical E) (w_db w)" and "new_request sep (w_db w) tx"
    and "w_txs w t = OpenTx (w_db w) s" and "reversible (w_db w) tx r dir" and "tx_id ref = tr_id r"
    and Q: "\<And>x w'. at_most_served sep E tx (w_db w) (w_db w') \<Longrightarrow> Q x w'"
  shows "wp (apply_reversal E t tx ref dir (tx_amount tx) messageID) Q w"
  by (rule wp_apply_reversal_cases [OF assms(1-6)])
    (use maybe_rejected_step [OF assms(1,3)] in \<open>auto intro!: Q\<close>)

section \<open>The middle stage\<close>

lemma wp_check_reference_step:
  assumes "env_ok E" and inv: "db_inv sep (canonical E) (w_db w)" and np: "nothing_pending (w_db w)"
    and new: "new_request sep (w_db w) tx"
    and rq: "rq_ProviderID req = tx_provider tx" "rq_ReferenceExternalID req = tx_externalReference tx"
    and fin: "\<And>x w'. at_most_served sep E tx (w_db w) (w_db w') \<Longrightarrow> Q (Inl x) w'"
    and go: "\<And>ref w'. w_db w' = w_db w \<Longrightarrow> checked_reference (w_db w) tx ref \<Longrightarrow> Q (Inr ref) w'"
  shows "wp (check_reference E tx req (tx_amount tx)) Q w"
proof -
  have cur: "currency_inv (w_db w)" using inv by (simp add: db_inv_def)
  have BRL: "money_currency (tx_amount tx) = BRL" using new by (simp add: new_request_def)
  have reject: "wp (reject E tx code) (\<lambda>x. Q (Inl x)) w'" if "w_db w' = w_db w" for code w'
    by (rule wp_reject_step [OF assms(1)]) (use new that fin in auto)
  show ?thesis
  proof (cases "tx_externalReference tx = ''''")
    case True
    then show ?thesis by (simp add: check_reference_def rq wp_concluded reject)
  next
    case False
    show ?thesis
      unfolding check_reference_def rq if_not_P [OF False] wp_bind
    proof (rule wp_find_reference [OF cur], goal_cases)
      case (1 e w')
      then show ?case by (auto simp: wp_concluded wp_ret quiet_def intro!: reject fin)
    next
      case (2 e w')
      then show ?case by (simp add: wp_concluded quiet_def reject)
    next
      case (3 r ref w')
      note fr = found_reference_row [OF 3(2)]
      have w': "w_db w' = w_db w" using 3 by (simp add: quiet_def)
      have np': "tx_status ref \<noteq> PENDING" "tx_status ref \<noteq> PENDING_REFERENCE"
        using np fr(1,10) by (auto simp: nothing_pending_def)
      have checked: "wp (has_reversal E (tx_id ref)) (\<lambda>b. wp (if b then concluded (reject E tx ''DOUBLE_REVERSAL'')
          else case validateReversalValue (tx_amount tx) ref of
            Some _ \<Rightarrow> concluded (reject E tx ''REVERSAL_VALUE_MISMATCH'') | None \<Rightarrow> ret (Inr ref)) Q) w'"
        if proc: "tx_status ref = PROCESSED" and val: "validateReference tx ref = None"
      proof (rule wp_has_reversal, goal_cases)
        case (1 b w2)
        then have w2: "w_db w2 = w_db w" using w' by (simp add: quiet_def)
        have "checked_reference (w_db w) tx ref" if "validateReversalValue (tx_amount tx) ref = None"
          using that proc fr(1,2,10) 3(2) validateReference_None [OF 3(2) val] validateReversalValue_amount [OF 3(2) BRL]
          unfolding checked_reference_def found_reference_def by auto
        then show ?case
          using w2 by (auto simp: wp_concluded wp_ret intro!: reject go split: option.split)
      qed
      show ?case
        unfolding sum.case
        using np' w' checked
        by (cases "validateReference tx ref") (auto simp: wp_concluded wp_bind intro!: reject)
    qed
  qed
qed

lemma wp_check_win_step:
  assumes "env_ok E" and "currency_inv (w_db w)" and new: "new_request sep (w_db w) tx"
    and rq: "rq_ProviderID req = tx_provider tx" "rq_ReferenceExternalID req = tx_externalReference tx"
    and fin: "\<And>x w'. at_most_served sep E tx (w_db w) (w_db w') \<Longrightarrow> Q (Inl x) w'"
    and go: "\<And>ref w'. w_db w' = w_db w \<Longrightarrow> Q (Inr ref) w'"
  shows "wp (check_win E tx req) Q w"
proof -
  have reject: "wp (reject E tx code) (\<lambda>x. Q (Inl x)) w'" if "w_db w' = w_db w" for code w'
    by (rule wp_reject_step [OF assms(1)]) (use new that fin in auto)
  show ?thesis
    unfolding check_win_def rq wp_bind
    by (rule wp_find_reference [OF assms(2)])
      (auto simp: wp_concluded wp_ret quiet_def intro!: reject fin go split: option.split)
qed

section \<open>The last stage\<close>

lemma wp_book_checked_step:
  assumes "env_ok E" and inv: "db_inv sep (canonical E) (w_db w)" and new: "new_request sep (w_db w) tx"
    and kind: "tx_transactionType tx = WIN \<or>
      (tx_transactionType tx = REFUND \<or> tx_transactionType tx = ROLLBACK) \<and> checked_reference (w_db w) tx ref"
    and Q: "\<And>x w'. at_most_served sep E tx (w_db w) (w_db w') \<Longrightarrow> Q x w'"
  shows "wp (book_checked E (tx_transactionType tx) tx (tx_amount tx) messageID ref) Q w"
proof (cases "tx_transactionType tx = WIN")
  case True
  then show ?thesis
    using inv by (auto simp: book_checked_def db_inv_def intro!: wp_credit_win_step [OF assms(1) _ new] Q)
next
  case False
  then obtain r where r: "r \<in> set (db_txs (w_db w))" "tr_status r = PROCESSED" "tr_provider r = Some (tx_provider tx)"
      "tr_wallet_id r = tx_walletID tx" "tr_amount r = money_amount (tx_amount tx)" "tx_of_row r = Inr ref"
    using kind by (auto simp: checked_reference_def)
  have ref: "tx_id ref = tr_id r" "tx_transactionType ref = tr_transaction_type r"
    using tx_of_row_Inr [OF r(6)] by (simp_all add: RehydrateTransaction_def)
  have book: "wp (bind_err (TxManager_Begin E) h (\<lambda>t. defer_Rollback t (apply_reversal E t tx ref dir (tx_amount tx) messageID))) Q w"
    if dir: "reversal_direction (tx_transactionType tx) (tr_transaction_type r) = Some dir" for dir h
    unfolding wp_bind_err
  proof (rule wp_Begin, goal_cases)
    case (1 e w')
    then show ?case by (simp add: quiet_def Q)
  next
    case (2 t w' s)
    have "reversible (w_db w') tx r dir" using r dir False kind 2 by (simp add: reversible_def)
    then show ?case
      unfolding sum.case wp_defer_Rollback
      using 2 inv new ref by (intro wp_reversal_step [OF assms(1), where r = r and s = s]) (auto intro!: Q)
  qed
  have rej: "wp (bind_err (TxManager_Begin E) h (\<lambda>t. defer_Rollback t (reject E tx code))) Q w" for h code
    unfolding wp_bind_err
    by (rule wp_Begin) (use new in \<open>auto simp: quiet_def wp_defer_Rollback intro!: Q wp_reject_step [OF assms(1)]\<close>)
  show ?thesis
    using False kind ref(2) book rej
    by (cases "tr_transaction_type r") (auto simp: book_checked_def reversal_direction_def)
qed

lemma wp_settle_duplicate:
  assumes Q: "\<And>x w'. w_db w' = w_db w \<Longrightarrow> Q x w'"
  shows "wp (settle_duplicate E req key x) Q w"
proof (cases x)
  case (Inl err)
  then show ?thesis
    by (auto simp: settle_duplicate_def wp_ret wp_bind quiet_def intro!: wp_FindByIdempotencyKey
        wp_handleReplay [where E = E] Q)
qed (simp add: settle_duplicate_def wp_ret Q)

text \<open>A stage leaves the tables as they are or adds the transaction of its request.\<close>

fun advanced :: "env \<Rightarrow> stage \<Rightarrow> db \<Rightarrow> db \<Rightarrow> bool" where
  "advanced E (Done x) d d' \<longleftrightarrow> d' = d"
| "advanced E (Accepted req parsed key messageID tx) d d' \<longleftrightarrow> at_most_served False E tx d d'"
| "advanced E (Checked req parsed key messageID tx ref) d d' \<longleftrightarrow> at_most_served False E tx d d'"

lemma advanced_step: "advanced E s d d' \<Longrightarrow> d' = d \<or> db_step False (canonical E) d d'"
  by (cases s) auto

lemma wp_advance:
  assumes "env_ok E" and inv: "db_inv False (canonical E) (w_db w)" and np: "nothing_pending (w_db w)" and s: "stage_ok (w_db w) s"
    and Q: "\<And>s' w'. advanced E s (w_db w) (w_db w') \<Longrightarrow> stage_ok (w_db w') s' \<Longrightarrow> Q s' w'"
  shows "wp (advance E s) Q w"
proof (cases s)
  case (Done x)
  then show ?thesis by (simp add: wp_ret Q)
next
  case (Accepted req parsed key messageID tx)
  have cur: "currency_inv (w_db w)" using inv by (simp add: db_inv_def)
  have b: "request_built req parsed key tx" using s Accepted by simp
  note new = request_built_new [OF b, of "w_db w"]
  have f: "parsed = tx_amount tx" "rq_ProviderID req = tx_provider tx" "rq_ReferenceExternalID req = tx_externalReference tx"
      "TransactionType_of (rq_Kind req) = tx_transactionType tx"
    using b by (simp_all add: request_built_def)
  have settle: "wp (settle_duplicate E req key x) (\<lambda>y. Q (Done y)) w'" if "at_most_served False E tx (w_db w) (w_db w')" for x w'
    using that by (intro wp_settle_duplicate Q) (auto simp: Accepted)
  have go: "wp (ret (Checked req parsed key messageID tx ref)) Q w'"
    if "w_db w' = w_db w" "needs_check req" "tx_transactionType tx = WIN \<or> checked_reference (w_db w) tx ref" for w' ref
    unfolding wp_ret using that b f(4) by (intro Q) (auto simp: Accepted)
  show ?thesis
  proof (cases "needs_check req")
    case False
    have "wp (dispatch E tx req (tx_amount tx) messageID) (\<lambda>x. wp (settle_duplicate E req key x) (\<lambda>y. Q (Done y))) w"
      by (rule wp_dispatch [OF assms(1) inv new f(2) [symmetric] f(3) [symmetric] f(4) [symmetric]], rule settle)
        (auto simp: lawful_def)
    then show ?thesis by (simp add: Accepted False f(1) wp_bind wp_finished)
  next
    case True
    then show ?thesis
      unfolding Accepted advance.simps if_P [OF True] wp_bind f(1,4) wp_if
      by (auto simp: wp_finished intro!: wp_check_win_step [OF assms(1) cur new f(2,3)]
          wp_check_reference_step [OF assms(1) inv np new f(2,3)] settle go [unfolded f(1)])
  qed
next
  case (Checked req parsed key messageID tx ref)
  then have b: "request_built req parsed key tx" "needs_check req"
      "TransactionType_of (rq_Kind req) = WIN \<or> checked_reference (w_db w) tx ref" using s by simp_all
  then have f: "parsed = tx_amount tx" "TransactionType_of (rq_Kind req) = tx_transactionType tx"
    by (simp_all add: request_built_def)
  show ?thesis
    unfolding Checked advance.simps wp_bind wp_finished f
    by (rule wp_book_checked_step [OF assms(1) inv request_built_new [OF b(1)]])
      (use b(2,3) f in \<open>auto simp: needs_check_def Checked intro!: wp_settle_duplicate Q\<close>)
qed

section \<open>Executions\<close>

text \<open>
  The tables and the requests under way. A request arrives and runs its first stage, one of those
  under way runs its next stage, or anything else that the program does runs on the side: each in
  any environment. A request that never moves again is one whose process has stopped.
\<close>

inductive overlap_step :: "(string \<Rightarrow> string option) \<Rightarrow> db \<times> stage list \<Rightarrow> db \<times> stage list \<Rightarrow> bool" for u where
  aside: "program_step u d d' \<Longrightarrow> overlap_step u (d, ss) (d', ss)"
| arrive: "env_ok E \<Longrightarrow> env_uuid E = u \<Longrightarrow>
    overlap_step u (d, ss) (after (accept E req key messageID) d, ss @ [answer (accept E req key messageID) d])"
| move: "env_ok E \<Longrightarrow> env_uuid E = u \<Longrightarrow> i < length ss \<Longrightarrow>
    overlap_step u (d, ss) (after (advance E (ss ! i)) d, ss[i := answer (advance E (ss ! i)) d])"

abbreviation overlapping :: "(string \<Rightarrow> string option) \<Rightarrow> db \<Rightarrow> stage list \<Rightarrow> bool" where
  "overlapping u d ss \<equiv> (overlap_step u)\<^sup>*\<^sup>* (empty_db, []) (d, ss)"

lemma advance_run:
  assumes "env_ok E" and "db_inv False (canonical E) d" and "nothing_pending d" and "stage_ok d s"
  shows "advanced E s d (after (advance E s) d)" and "stage_ok (after (advance E s) d) (answer (advance E s) d)"
proof -
  have "wp (advance E s) (\<lambda>s' w'. advanced E s d (w_db w') \<and> stage_ok (w_db w') s') (init_world d)"
    using assms(2-) by (intro wp_advance [OF assms(1)]) auto
  then show "advanced E s d (after (advance E s) d)" and "stage_ok (after (advance E s) d) (answer (advance E s) d)"
    by (simp_all add: wp_run after_def answer_def)
qed

definition overlap_inv :: "(string \<Rightarrow> string option) \<Rightarrow> db \<times> stage list \<Rightarrow> bool" where
  "overlap_inv u x \<longleftrightarrow> (case x of (d, ss) \<Rightarrow>
     db_inv False (\<lambda>s. u s = Some s) d \<and> nothing_pending d \<and> list_all (stage_ok d) ss)"

lemma overlap_inv_steps:
  assumes "overlap_inv u (d, ss)" and "db_steps False (\<lambda>s. u s = Some s) d d'" and "list_all (\<lambda>s. stage_ok d s \<or> stage_ok d' s) ss'"
  shows "overlap_inv u (d', ss')"
proof -
  have "history_kept d d'" using assms(1,2) history_kept_steps by (auto simp: overlap_inv_def)
  then have "list_all (stage_ok d') ss'"
    using assms(3) stage_ok_kept by (auto simp: list_all_iff)
  then show ?thesis
    using assms(1,2) db_inv_steps nothing_pending_steps by (auto simp: overlap_inv_def)
qed

lemma overlap_inv_step: "overlap_step u x y \<Longrightarrow> overlap_inv u x \<Longrightarrow> overlap_inv u y"
proof (induction rule: overlap_step.induct)
  case (aside d d' ss)
  then have "db_steps False (\<lambda>s. u s = Some s) d d'"
    by (intro program_step_db_steps) (auto simp: overlap_inv_def)
  then show ?case by (rule overlap_inv_steps [OF aside(2)]) (use aside(2) in \<open>auto simp: overlap_inv_def list_all_iff\<close>)
next
  case (arrive E d ss req key messageID)
  have "wp (accept E req key messageID) (\<lambda>s w'. w_db w' = d \<and> stage_ok d s) (init_world d)"
    by (rule wp_accept) simp
  with arrive show ?case by (simp add: overlap_inv_def wp_run after_def answer_def)
next
  case (move E i ss d)
  then have ok: "db_inv False (canonical E) d" "nothing_pending d" "stage_ok d (ss ! i)"
    by (auto simp: overlap_inv_def list_all_length)
  have st: "db_steps False (\<lambda>s. u s = Some s) d (after (advance E (ss ! i)) d)"
      "stage_ok (after (advance E (ss ! i)) d) (answer (advance E (ss ! i)) d)"
    using advance_run [OF move(1) ok] advanced_step [OF advance_run(1) [OF move(1) ok]] move(2) by auto
  show ?case
    by (rule overlap_inv_steps [OF move(4) st(1)])
      (use move(4) st(2) set_update_subset_insert [of ss i] in \<open>fastforce simp: overlap_inv_def list_all_iff\<close>)
qed

lemma overlapping_inv: "overlapping u d ss \<Longrightarrow> overlap_inv u (d, ss)"
proof (induction rule: rtranclp_induct [where P = "overlap_inv u"])
  case base
  show ?case by (simp add: overlap_inv_def db_inv_empty) (simp add: nothing_pending_def empty_db_def)
qed (rule overlap_inv_step)

lemma overlapping_db_inv: "overlapping u d ss \<Longrightarrow> db_inv False (\<lambda>s. u s = Some s) d"
  using overlapping_inv by (auto simp: overlap_inv_def)

text \<open>Requests that do not overlap are among these executions.\<close>

lemma reachable_overlapping: "reachable u d \<Longrightarrow> overlapping u d []"
proof (induction rule: rtranclp_induct)
  case (step d d')
  from step(3) overlap_step.aside [OF step(2)] show ?case by (rule rtranclp.rtrancl_into_rtrancl)
qed simp

section \<open>What the invariant of the tables says\<close>

lemma ledger_chain:
  assumes "db_inv sep U d" and "wr \<in> set (db_wallets d)"
  shows "0 \<le> sint (wr_balance wr) \<and> chained 0 (ledger_of (wr_id wr) d) \<and>
    sint (wr_balance wr) = ledger_sum (ledger_of (wr_id wr) d)"
  using assms by (auto simp: db_inv_def ledger_inv_def)

lemma booked_once:
  assumes "db_inv sep U d" and "r \<in> set (db_txs d)"
  shows "(tr_status r = PROCESSED \<and> tr_transaction_type r \<noteq> LOSS \<longleftrightarrow>
      (\<exists>l \<in> set (db_ledger d). lr_transaction_id l = tr_id r)) \<and>
    (\<forall>l \<in> set (db_ledger d). lr_transaction_id l = tr_id r \<longrightarrow> booked d r l) \<and>
    length (filter (\<lambda>l. lr_transaction_id l = tr_id r) (db_ledger d)) \<le> 1"
proof -
  have b: "booking_inv d" and k: "distinct (map tr_id (db_txs d))"
    using assms(1) by (auto simp: db_inv_def keys_inv_def)
  have own: "booked d r l" if "l \<in> set (db_ledger d)" "lr_transaction_id l = tr_id r" for l
  proof -
    obtain r' where "r' \<in> set (db_txs d)" "booked d r' l" using b \<open>l \<in> _\<close> unfolding booking_inv_def by blast
    then show ?thesis using \<open>lr_transaction_id l = tr_id r\<close> row_unique [OF k assms(2)] by (metis booked_def)
  qed
  have some: "\<exists>l \<in> set (db_ledger d). lr_transaction_id l = tr_id r"
    if "tr_status r = PROCESSED" "tr_transaction_type r \<noteq> LOSS"
    using b that assms(2) unfolding booking_inv_def booked_def by blast
  have kind: "tr_status r = PROCESSED \<and> tr_transaction_type r \<noteq> LOSS" if "booked d r l" for l
    using that by (auto simp: booked_def movement_def)
  have "distinct (map lr_transaction_id (db_ledger d))" using b by (simp add: booking_inv_def)
  then show ?thesis using own some kind at_most_one_row by auto
qed

lemma reversed_once:
  "db_inv sep U d \<Longrightarrow> r \<in> set (db_txs d) \<Longrightarrow> r' \<in> set (db_txs d) \<Longrightarrow> reversal_of r = Some i \<Longrightarrow> reversal_of r' = Some i \<Longrightarrow> r = r'"
  by (intro unique_rows [of d reversal_of]) (simp_all add: db_inv_def keys_inv_def)

lemma key_stored_once:
  "db_inv sep U d \<Longrightarrow> r \<in> set (db_txs d) \<Longrightarrow> r' \<in> set (db_txs d) \<Longrightarrow> idempotency_of r = Some k \<Longrightarrow> idempotency_of r' = Some k \<Longrightarrow> r = r'"
  by (intro unique_rows [of d idempotency_of]) (simp_all add: db_inv_def keys_inv_def)

end
