(* ===== verification/Overlap_Safety.thy ===== *)
theory Overlap_Safety
  imports Overlap
begin

text \<open>
  What holds when requests overlap, and what does not: the ledger, the reversals and the
  idempotency keys are safe in every interleaving; external identifiers are not, and the answer to
  a duplicate that overlaps its original can differ from a replay.
\<close>

section \<open>What overlapping requests cannot break\<close>

text \<open>
  C1: however requests overlap, with each other, with the workers and with failures, the ledger of
  each wallet is a chain: it starts at 0, each entry starts where the one before it ended and moves
  by exactly its amount, and it ends at the wallet's stored balance, which is never negative.
\<close>

theorem overlap_ledger_balances:
  assumes "overlapping u d ss" and "wr \<in> set (db_wallets d)"
  shows "0 \<le> sint (wr_balance wr) \<and> chained 0 (ledger_of (wr_id wr) d) \<and>
    sint (wr_balance wr) = ledger_sum (ledger_of (wr_id wr) d)"
  by (rule ledger_chain [OF overlapping_db_inv [OF assms(1)] assms(2)])

text \<open>
  C2: however requests overlap, money moves exactly once per transaction: a transaction has a
  ledger entry if and only if it is processed and not a \<^verbatim>\<open>LOSS\<close>, it has only one, and the entry
  is on its wallet, of its amount and in the direction of its kind (for a reversal, of the
  processed transaction of the same wallet, provider and amount that it reverses).
\<close>

theorem overlap_books_once:
  assumes "overlapping u d ss" and "r \<in> set (db_txs d)"
  shows "(tr_status r = PROCESSED \<and> tr_transaction_type r \<noteq> LOSS \<longleftrightarrow>
      (\<exists>l \<in> set (db_ledger d). lr_transaction_id l = tr_id r)) \<and>
    (\<forall>l \<in> set (db_ledger d). lr_transaction_id l = tr_id r \<longrightarrow> booked d r l) \<and>
    length (filter (\<lambda>l. lr_transaction_id l = tr_id r) (db_ledger d)) \<le> 1"
  by (rule booked_once [OF overlapping_db_inv [OF assms(1)] assms(2)])

text \<open>
  C3: however requests overlap, no transaction is reversed twice and no two transactions of a
  provider have the same idempotency key.
\<close>

theorem overlap_no_duplicates:
  assumes "overlapping u d ss" and "r \<in> set (db_txs d)" "r' \<in> set (db_txs d)"
    and "reversal_of r = Some i \<and> reversal_of r' = Some i \<or> idempotency_of r = Some k \<and> idempotency_of r' = Some k"
  shows "r = r'"
  using assms(4) reversed_once [OF overlapping_db_inv [OF assms(1)] assms(2,3)]
    key_stored_once [OF overlapping_db_inv [OF assms(1)] assms(2,3)] by blast

section \<open>Duplicates\<close>

text \<open>The provider and the idempotency key of a request under way.\<close>

fun stage_key :: "stage \<Rightarrow> (string \<times> string) option" where
  "stage_key (Done x) = None"
| "stage_key (Accepted req parsed key messageID tx) = Some (tx_provider tx, tx_idempotencyKey tx)"
| "stage_key (Checked req parsed key messageID tx ref) = Some (tx_provider tx, tx_idempotencyKey tx)"

lemma served_key:
  assumes "served sep E p wid k d d'" and "p \<noteq> ''''" "k \<noteq> ''''"
  obtains r where "db_txs d' = db_txs d @ [r]" "idempotency_of r = Some (p, k)"
  using assms by (auto simp: served_def idempotency_of_def nullString_def)

lemma at_most_served_known_key:
  assumes "at_most_served False E tx d d'" and inv: "db_inv False (canonical E) d" and new: "new_request False d tx"
    and r: "r \<in> set (db_txs d)" "idempotency_of r = Some (tx_provider tx, tx_idempotencyKey tx)"
  shows "d' = d"
proof (rule ccontr)
  assume "d' \<noteq> d"
  then have sv: "served False E (tx_provider tx) (tx_walletID tx) (tx_idempotencyKey tx) d d'" using assms(1) by simp
  have inv': "db_inv False (canonical E) d'" by (rule db_inv_step [OF served_step [OF sv] inv])
  obtain r' where r': "db_txs d' = db_txs d @ [r']" "idempotency_of r' = Some (tx_provider tx, tx_idempotencyKey tx)"
    using new by (auto simp: new_request_def intro: served_key [OF sv])
  have "unique_on idempotency_of (db_txs d @ [r'])" using inv' r'(1) by (simp add: db_inv_def keys_inv_def)
  then show False using r r'(2) by (force simp: unique_on_def List.map_filter_def)
qed

text \<open>
  C4: a duplicate that overlaps its original books nothing: when a request is under way and its
  key has meanwhile been stored, its next part leaves the tables as they are, under any failures.
\<close>

theorem overlapping_duplicate_idle:
  assumes "overlapping u d ss" and "s \<in> set ss" and "stage_key s = Some k"
    and "r \<in> set (db_txs d)" "idempotency_of r = Some k" and "env_ok E" "env_uuid E = u"
  shows "after (advance E s) d = d"
proof -
  have inv: "db_inv False (canonical E) d" "nothing_pending d" "stage_ok d s"
    using overlapping_inv [OF assms(1)] assms(2,7) by (auto simp: overlap_inv_def list_all_iff)
  note run = advance_run(1) [OF assms(6) inv]
  show ?thesis
  proof (cases s)
    case (Done x)
    then show ?thesis using assms(3) by simp
  next
    case (Accepted req parsed key messageID tx)
    with run inv(3) assms(3-5) show ?thesis
      by (intro at_most_served_known_key [OF _ inv(1) request_built_new]) auto
  next
    case (Checked req parsed key messageID tx ref)
    with run inv(3) assms(3-5) show ?thesis
      by (intro at_most_served_known_key [OF _ inv(1) request_built_new]) auto
  qed
qed

section \<open>Races\<close>

text \<open>Two requests arrive on \<open>wallet_db\<close> before the first of them is booked; then both are booked.\<close>

definition race_stage :: "Request \<Rightarrow> string \<Rightarrow> stage" where
  "race_stage req key = answer (accept sample_env req key '''') wallet_db"

definition race_first :: "Request \<Rightarrow> string \<Rightarrow> db" where
  "race_first req key = after (advance sample_env (race_stage req key)) wallet_db"

definition race_db :: "Request \<Rightarrow> string \<Rightarrow> Request \<Rightarrow> string \<Rightarrow> db" where
  "race_db req key req' key' = after (advance sample_env (race_stage req' key')) (race_first req key)"

definition race_answer :: "Request \<Rightarrow> string \<Rightarrow> Request \<Rightarrow> string \<Rightarrow> stage" where
  "race_answer req key req' key' = answer (advance sample_env (race_stage req' key')) (race_first req key)"

lemma accept_changes_nothing: "after (accept E req key messageID) d = d"
proof -
  have "wp (accept E req key messageID) (\<lambda>s w'. w_db w' = d) (init_world d)" by (rule wp_accept) simp
  then show ?thesis by (simp add: wp_run after_def)
qed

lemma race_overlapping:
  obtains ss where "overlapping sample_uuid wallet_db [race_stage req key, race_stage req' key']"
    and "overlapping sample_uuid (race_first req key) (ss @ [race_stage req' key'])"
    and "overlapping sample_uuid (race_db req key req' key') (ss @ [race_answer req key req' key'])"
proof -
  let ?s = "race_stage req key" and ?s' = "race_stage req' key'"
  let ?x = "answer (advance sample_env ?s) wallet_db"
  note step = rtranclp.rtrancl_into_rtrancl [of "overlap_step sample_uuid"]
  have 0: "overlapping sample_uuid wallet_db []" by (rule reachable_overlapping [OF wallet_db_reachable])
  have "overlap_step sample_uuid (wallet_db, []) (wallet_db, [?s])"
    using overlap_step.arrive [OF sample_env_ok sample_env_uuid, of wallet_db "[]" req key "''''"]
    by (simp add: accept_changes_nothing race_stage_def)
  note 1 = step [OF 0 this]
  have "overlap_step sample_uuid (wallet_db, [?s]) (wallet_db, [?s, ?s'])"
    using overlap_step.arrive [OF sample_env_ok sample_env_uuid, of wallet_db "[?s]" req' key' "''''"]
    by (simp add: accept_changes_nothing race_stage_def)
  note 2 = step [OF 1 this]
  have "overlap_step sample_uuid (wallet_db, [?s, ?s']) (race_first req key, [?x, ?s'])"
    using overlap_step.move [OF sample_env_ok sample_env_uuid, of 0 "[?s, ?s']" wallet_db] by (simp add: race_first_def)
  note 3 = step [OF 2 this]
  have "overlap_step sample_uuid (race_first req key, [?x, ?s']) (race_db req key req' key', [?x, race_answer req key req' key'])"
    using overlap_step.move [OF sample_env_ok sample_env_uuid, of 1 "[?x, ?s']" "race_first req key"]
    by (simp add: race_db_def race_answer_def)
  note 4 = step [OF 3 this]
  from 2 3 4 show ?thesis by (intro that [of "[?x]"]) simp_all
qed

section \<open>The theorems on concrete requests\<close>

lemma sample_overlap:
  obtains ss where "ss \<noteq> []" and "overlapping sample_uuid wallet_db ss"
  by (rule race_overlapping) blast

theorem overlap_ledger_balances_witness:
  "(\<exists>ss. ss \<noteq> [] \<and> overlapping sample_uuid wallet_db ss) \<and> sample_wallet_row \<in> set (db_wallets wallet_db) \<and>
   ledger_sum (ledger_of ''i'' wallet_db) = 10000"
proof -
  obtain ss where ss: "ss \<noteq> []" "overlapping sample_uuid wallet_db ss" by (rule sample_overlap)
  show ?thesis
    using overlap_ledger_balances [OF ss(2), of sample_wallet_row] ss
    by (auto simp: wallet_db_wallets) (simp add: sample_wallet_row_def)
qed

theorem overlap_books_once_witness:
  "hd (db_txs wallet_db) \<in> set (db_txs wallet_db) \<and>
   booked wallet_db (hd (db_txs wallet_db)) (hd (db_ledger wallet_db)) \<and>
   length (filter (\<lambda>l. lr_transaction_id l = ''ii'') (db_ledger wallet_db)) = 1"
proof -
  obtain ss where ss: "overlapping sample_uuid wallet_db ss" by (rule sample_overlap)
  obtain r where r: "db_txs wallet_db = [r]" "tr_id r = ''ii''" using wallet_db_txs by (auto simp: map_eq_Cons_conv)
  then have l: "map lr_transaction_id (db_ledger wallet_db) = [''ii'']" by code_simp
  then obtain l where "db_ledger wallet_db = [l]" "lr_transaction_id l = ''ii''" by auto
  then show ?thesis using overlap_books_once [OF ss, of r] r by simp
qed

lemma bet_db_idempotency:
  obtains r where "key_row bet_db ''prov'' ''prov:x1'' = Some r" "r \<in> set (db_txs bet_db)"
    "idempotency_of r = Some (''prov'', ''prov:x1'')"
proof -
  obtain r where r: "key_row bet_db ''prov'' ''prov:x1'' = Some r" using bet_db_key by blast
  then show ?thesis by (intro that) (auto simp: key_row_def find_Some_iff idempotency_of_def)
qed

theorem overlap_no_duplicates_witness:
  "overlapping sample_uuid bet_db [] \<and>
   {r \<in> set (db_txs bet_db). idempotency_of r = Some (''prov'', ''prov:x1'')} = {the (key_row bet_db ''prov'' ''prov:x1'')}"
proof -
  obtain r where r: "key_row bet_db ''prov'' ''prov:x1'' = Some r" "r \<in> set (db_txs bet_db)"
      "idempotency_of r = Some (''prov'', ''prov:x1'')"
    by (rule bet_db_idempotency)
  note o = reachable_overlapping [OF bet_db_reachable]
  have "r' = r" if "r' \<in> set (db_txs bet_db)" "idempotency_of r' = Some (''prov'', ''prov:x1'')" for r'
    by (rule overlap_no_duplicates [OF o that(1) r(2) disjI2 [OF conjI [OF that(2) r(3)]]])
  then have "{r' \<in> set (db_txs bet_db). idempotency_of r' = Some (''prov'', ''prov:x1'')} = {r}" using r(2,3) by blast
  then show ?thesis using o r(1) by (simp only: option.sel)
qed

text \<open>A bet of 30.00 arrives, and before its next part runs a bet of 25.00 under the same key is served.\<close>

lemma race_stage_key:
  "stage_key (race_stage (sample_request ''BET'' ''x1'' ''30.00'' '''') '''') = Some (''prov'', ''prov:x1'')"
  by code_simp

theorem overlapping_duplicate_idle_witness:
  "overlapping sample_uuid bet_db [race_stage (sample_request ''BET'' ''x1'' ''30.00'' '''') ''''] \<and>
   after (advance sample_env (race_stage (sample_request ''BET'' ''x1'' ''30.00'' '''') '''')) bet_db = bet_db"
proof
  let ?s = "race_stage (sample_request ''BET'' ''x1'' ''30.00'' '''') ''''"
  have "overlapping sample_uuid wallet_db [?s]"
    using rtranclp.rtrancl_into_rtrancl [OF reachable_overlapping [OF wallet_db_reachable]
        overlap_step.arrive [OF sample_env_ok sample_env_uuid], of "sample_request ''BET'' ''x1'' ''30.00'' ''''" "''''" "''''"]
    by (simp add: accept_changes_nothing race_stage_def)
  moreover have "program_step sample_uuid wallet_db bet_db"
    unfolding bet_db_def by (rule program_step.process_transaction) (simp_all add: sample_env_ok sample_env_uuid)
  ultimately show o: "overlapping sample_uuid bet_db [?s]"
    by (blast intro: rtranclp.rtrancl_into_rtrancl overlap_step.aside)
  obtain r where r: "r \<in> set (db_txs bet_db)" "idempotency_of r = Some (''prov'', ''prov:x1'')"
    by (rule bet_db_idempotency)
  show "after (advance sample_env ?s) bet_db = bet_db"
    by (rule overlapping_duplicate_idle [OF o _ race_stage_key r sample_env_ok sample_env_uuid]) simp
qed

end
