(* ===== verification/Overlap_Races.thy ===== *)
theory Overlap_Races
  imports Overlap_Safety
begin

text \<open>What overlapping requests can break: the uniqueness of external identifiers.\<close>


end
