(* ===== verification/Overlap_Answers.thy ===== *)
theory Overlap_Answers
  imports Overlap_Safety
begin

text \<open>Answers to duplicates that overlap their original, which differ from those to later ones.\<close>

text \<open>The payload of a duplicate is compared only when its original was stored before it arrived.\<close>

lemma late_duplicate_payload:
  "race_answer (sample_request ''BET'' ''x1'' ''25.00'' '''') ''k1'' (sample_request ''BET'' ''x1'' ''30.00'' '''') ''k1'' =
   Done (Inr \<lparr>pr_TransactionID = ''iiiiii'', pr_Status = ''PROCESSED'',
     pr_Balance = \<lparr>money_amount = 7500, money_currency = BRL\<rparr>, pr_IdempotentReplay = True\<rparr>)"
  by code_simp

text \<open>A duplicate bet that the reduced balance cannot pay for is answered as one that was refused.\<close>

lemma late_duplicate_refused:
  "case race_answer (sample_request ''BET'' ''x1'' ''60.00'' '''') ''k1'' (sample_request ''BET'' ''x1'' ''60.00'' '''') ''k1'' of
     Done (Inl err) \<Rightarrow> errors_is err (WagerErr Wager_ErrInsufficientBalance) | _ \<Rightarrow> False"
  by code_simp

end
