(* ===== verification/Queue_Setup.thy ===== *)
theory Queue_Setup
  imports Configuration
begin

text \<open>
  \<^verbatim>\<open>cmd/sqs-init/main.go\<close>: the program that creates the three queues and connects the main queue with
  its dead letter queue. The queue service at an endpoint is a parameter, \<open>queue_service\<close>: it answers each call as a
  function of the number of calls made before. The state is that number and the requests made.
\<close>

record queue_service =
  qs_load :: "string \<Rightarrow> string \<Rightarrow> string \<Rightarrow> gerr option"
  qs_CreateQueue :: "nat \<Rightarrow> gerr + string option"
  qs_GetQueueAttributes :: "nat \<Rightarrow> gerr + (string \<Rightarrow> string option)"
  qs_SetQueueAttributes :: "nat \<Rightarrow> gerr option"

datatype queue_request =
    CreateQueue string "(string \<times> string) list"
  | GetQueueArn string
  | SetQueueAttributes string "(string \<times> string) list"

text \<open>The reasons for which the program ends with \<^verbatim>\<open>log.Fatalf\<close>.\<close>

datatype setup_error =
    BadQueueName string
  | BadOutboundName string
  | LoadConfigFailed gerr
  | CreateFailed string gerr
  | EmptyQueueURL string
  | AttributesFailed gerr
  | NoQueueArn
  | RedriveFailed gerr

type_synonym 'a setting = "(queue_request list, setup_error + 'a) state"

definition request :: "queue_request \<Rightarrow> (queue_request list, nat) state" where
  "request r = State (\<lambda>rs. (length rs, rs @ [r]))"

definition then_setup :: "'a setting \<Rightarrow> ('a \<Rightarrow> 'b setting) \<Rightarrow> 'b setting" where
  "then_setup m k = do { r \<leftarrow> m; (case r of Inl e \<Rightarrow> ret (Inl e) | Inr x \<Rightarrow> k x) }"

definition createQueue :: "queue_service \<Rightarrow> string \<Rightarrow> (string \<times> string) list \<Rightarrow> string setting" where
  "createQueue S queueName attributes = do {
     n \<leftarrow> request (CreateQueue queueName attributes);
     ret (case qs_CreateQueue S n of
        Inl err \<Rightarrow> Inl (CreateFailed queueName err)
      | Inr None \<Rightarrow> Inl (EmptyQueueURL queueName)
      | Inr (Some url) \<Rightarrow> if url = '''' then Inl (EmptyQueueURL queueName) else Inr url)
   }"

definition getQueueARN :: "queue_service \<Rightarrow> string \<Rightarrow> string setting" where
  "getQueueARN S queueURL = do {
     n \<leftarrow> request (GetQueueArn queueURL);
     ret (case qs_GetQueueAttributes S n of
        Inl err \<Rightarrow> Inl (AttributesFailed err)
      | Inr attributes \<Rightarrow>
          (case attributes ''QueueArn'' of
             None \<Rightarrow> Inl NoQueueArn
           | Some queueARN \<Rightarrow> if queueARN = '''' then Inl NoQueueArn else Inr queueARN))
   }"

definition setRedrivePolicy :: "queue_service \<Rightarrow> string \<Rightarrow> string \<Rightarrow> unit setting" where
  "setRedrivePolicy S mainQueueURL redrivePolicy = do {
     n \<leftarrow> request (SetQueueAttributes mainQueueURL [(''RedrivePolicy'', redrivePolicy)]);
     ret (case qs_SetQueueAttributes S n of Some err \<Rightarrow> Inl (RedriveFailed err) | None \<Rightarrow> Inr ())
   }"

definition TrimSuffix :: "string \<Rightarrow> string \<Rightarrow> string" where
  "TrimSuffix s p = (if HasSuffix s p then take (length s - length p) s else s)"

definition main_attributes :: "(string \<times> string) list" where
  "main_attributes = [(''FifoQueue'', ''true''), (''ContentBasedDeduplication'', ''true''), (''VisibilityTimeout'', ''30''),
     (''MessageRetentionPeriod'', ''1209600'')]"

definition dlq_attributes :: "(string \<times> string) list" where
  "dlq_attributes = [(''FifoQueue'', ''true''), (''ContentBasedDeduplication'', ''true''),
     (''MessageRetentionPeriod'', ''1209600'')]"

definition redrive_policy :: "string \<Rightarrow> string" where
  "redrive_policy dlqARN = json_map [(''deadLetterTargetArn'', dlqARN), (''maxReceiveCount'', ''3'')]"

definition sqs_init :: "(string \<Rightarrow> queue_service) \<Rightarrow> environ \<Rightarrow> unit setting" where
  "sqs_init net env =
     (let S = net (GetEnv env ''AWS_ENDPOINT_URL'' ''http://ministack:4566'');
          region = GetEnv env ''AWS_REGION'' ''us-east-1'';
          accessKey = GetEnv env ''AWS_ACCESS_KEY_ID'' ''test'';
          secretKey = GetEnv env ''AWS_SECRET_ACCESS_KEY'' ''test'';
          queueName = GetEnv env ''SQS_QUEUE_NAME'' ''wager-transactions.fifo'';
          outboundQueueName = GetEnv env ''SQS_OUTBOUND_QUEUE_NAME'' ''wager-events-outbound.fifo'';
          dlqName = TrimSuffix queueName ''.fifo'' @ ''-dlq.fifo''
      in if \<not> HasSuffix queueName ''.fifo'' then ret (Inl (BadQueueName queueName))
         else if \<not> HasSuffix outboundQueueName ''.fifo'' then ret (Inl (BadOutboundName outboundQueueName))
         else case qs_load S region accessKey secretKey of
           Some err \<Rightarrow> ret (Inl (LoadConfigFailed err))
         | None \<Rightarrow>
             then_setup (createQueue S queueName main_attributes) (\<lambda>mainQueueURL.
             then_setup (createQueue S dlqName dlq_attributes) (\<lambda>dlqURL.
             then_setup (createQueue S outboundQueueName main_attributes) (\<lambda>outboundQueueURL.
             then_setup (getQueueARN S dlqURL) (\<lambda>dlqARN.
             setRedrivePolicy S mainQueueURL (redrive_policy dlqARN))))))"

section \<open>What the program asks the service for\<close>

definition dlq_name :: "string \<Rightarrow> string" where
  "dlq_name queueName = TrimSuffix queueName ''.fifo'' @ ''-dlq.fifo''"

text \<open>The requests of a complete run, given the addresses of the queues and the name of the dead letter queue.\<close>

definition setup_requests :: "environ \<Rightarrow> string \<Rightarrow> string \<Rightarrow> string \<Rightarrow> queue_request list" where
  "setup_requests env mainURL dlqURL dlqARN =
     (let queueName = GetEnv env ''SQS_QUEUE_NAME'' ''wager-transactions.fifo'' in
      [CreateQueue queueName main_attributes, CreateQueue (dlq_name queueName) dlq_attributes,
       CreateQueue (GetEnv env ''SQS_OUTBOUND_QUEUE_NAME'' ''wager-events-outbound.fifo'') main_attributes,
       GetQueueArn dlqURL, SetQueueAttributes mainURL [(''RedrivePolicy'', redrive_policy dlqARN)]])"

lemma dlq_name_fifo: "HasSuffix (dlq_name q) ''.fifo''" "HasSuffix q ''.fifo'' \<Longrightarrow> length (dlq_name q) = length q + 4"
proof -
  show "HasSuffix (dlq_name q) ''.fifo''"
    unfolding HasSuffix_def dlq_name_def by (simp add: suffix_def)
  assume "HasSuffix q ''.fifo''"
  then have "length ''.fifo'' \<le> length q" unfolding HasSuffix_def by (rule suffix_length_le)
  then show "length (dlq_name q) = length q + 4"
    using \<open>HasSuffix q _\<close> by (simp add: dlq_name_def TrimSuffix_def)
qed

lemma run_then_setup: "run_state (then_setup m k) rs = (case run_state m rs of
    (Inl e, rs') \<Rightarrow> (Inl e, rs') | (Inr x, rs') \<Rightarrow> run_state (k x) rs')"
  by (simp add: then_setup_def run_state_bind split: prod.split sum.split)

text \<open>The address in an answer to \<^verbatim>\<open>CreateQueue\<close>, and the name in one to \<^verbatim>\<open>GetQueueAttributes\<close>.\<close>

fun url_of :: "gerr + string option \<Rightarrow> string" where
  "url_of (Inr (Some url)) = url"
| "url_of _ = ''''"

fun arn_of :: "gerr + (string \<Rightarrow> string option) \<Rightarrow> string" where
  "arn_of (Inr attributes) = (case attributes ''QueueArn'' of None \<Rightarrow> '''' | Some arn \<Rightarrow> arn)"
| "arn_of _ = ''''"

lemma run_createQueue: "run_state (createQueue S q as) rs =
    (if url_of (qs_CreateQueue S (length rs)) \<noteq> '''' then Inr (url_of (qs_CreateQueue S (length rs)))
     else Inl (case qs_CreateQueue S (length rs) of Inl err \<Rightarrow> CreateFailed q err | _ \<Rightarrow> EmptyQueueURL q),
     rs @ [CreateQueue q as])"
  by (simp add: createQueue_def request_def run_state_bind split: sum.split option.split)

lemma run_getQueueARN: "run_state (getQueueARN S url) rs =
    (if arn_of (qs_GetQueueAttributes S (length rs)) \<noteq> '''' then Inr (arn_of (qs_GetQueueAttributes S (length rs)))
     else Inl (case qs_GetQueueAttributes S (length rs) of Inl err \<Rightarrow> AttributesFailed err | _ \<Rightarrow> NoQueueArn),
     rs @ [GetQueueArn url])"
  by (simp add: getQueueARN_def request_def run_state_bind split: sum.split option.split)

lemma run_setRedrivePolicy: "run_state (setRedrivePolicy S url policy) rs =
    (case qs_SetQueueAttributes S (length rs) of Some err \<Rightarrow> Inl (RedriveFailed err) | None \<Rightarrow> Inr (),
     rs @ [SetQueueAttributes url [(''RedrivePolicy'', policy)]])"
  by (simp add: setRedrivePolicy_def request_def run_state_bind)


text \<open>A service that answers every request.\<close>

definition sample_service :: queue_service where
  "sample_service = \<lparr>qs_load = (\<lambda>_ _ _. None), qs_CreateQueue = (\<lambda>n. Inr (Some (if n = 0 then ''http://sqs/in'' else ''http://sqs/other''))),
     qs_GetQueueAttributes = (\<lambda>n. Inr [''QueueArn'' \<mapsto> ''arn:dlq'']), qs_SetQueueAttributes = (\<lambda>_. None)\<rparr>"


end
