(* ===== verification/Spec2Isabelle.thy ===== *)
theory Spec2Isabelle
  imports Api_Safety Worker_Delivery Outbox_Delivery Provider_Noninterference Rollback_Run Overlap_Races Overlap_Answers Queue_Setup
begin

text \<open>
  A verification of the wagering service of this repository: a Go program that keeps the wallets of
  players, takes bets, wins, losses, refunds and rollbacks from game providers over HTTP and over an
  SQS queue, books them in a ledger in PostgreSQL, and announces them through an outbox.

  \<^bold>\<open>The parts and how they interact.\<close> Two processes share the database. The API process
  (\<^verbatim>\<open>cmd/api\<close>) checks a bearer token, reads a request and calls the wallet service or the wager
  service. The worker process (\<^verbatim>\<open>cmd/worker\<close>) runs three loops: one takes requests from the queue and
  calls the wager service, one publishes the outbox, one resolves parked reversals. The services run
  their statements on the pool or in a transaction; every change of the tables is one transaction.

  \<^bold>\<open>Theories, bottom up.\<close>

  \<^item> \<open>Prelude\<close>: Go's strings, integers of 64 bits and instants, with their arithmetic; the
  collections of rules that the other theories fill. \<open>Go_Errors\<close>: error values, \<^verbatim>\<open>errors.Is\<close>, and which
  errors the consumer takes as final. \<open>Go_Time\<close>: the time format of the ledger's cursor.
  \<open>Json_Text\<close>: reading JSON into structs, and the round trip of the canonical text that is hashed.

  \<^item> \<open>Money_Amount\<close> (\<^verbatim>\<open>internal/money\<close>), \<open>Domain_Events\<close> (\<^verbatim>\<open>internal/domain\<close>), \<open>Wallet_Aggregate\<close>
  (\<^verbatim>\<open>internal/wallet/wallet.go\<close>, \<^verbatim>\<open>ledger_entry.go\<close>), \<open>Wager_Transaction\<close>
  (\<^verbatim>\<open>internal/wagertransaction/transaction.go\<close>): the values and aggregates. A struct is a record with
  the names of its fields under a prefix, a method is a function of the receiver's value, and the
  reading of the clock is an argument. The locale \<open>account\<close> says what a balance with checked debits and
  credits keeps, the locale \<open>ranked_machine\<close> how long a status machine with final states can run;
  both are interpreted on the aggregates.

  \<^item> \<open>Database\<close> (\<^verbatim>\<open>migrations/*.up.sql\<close>): the tables as lists of rows, and every statement of
  \<^verbatim>\<open>internal/infra/db\<close> as a function that checks the constraints and indexes. \<open>Runtime\<close>
  (\<^verbatim>\<open>tx_manager.go\<close>): the state monad of the program, statements on the pool, transactions with a copy of
  the tables, commit and rollback, a schedule of failures, and weakest preconditions.
  \<open>Wallet_Repository\<close>, \<open>Ledger_Repository\<close>, \<open>Transaction_Repository\<close>: the repositories.

  \<^item> \<open>Ledger_Machine\<close>: the abstract specification. \<open>db_step\<close> lists the changes that the program may
  make at once; \<open>db_inv\<close> is what they preserve. \<open>Wallet_Service\<close> and \<open>Wager_Service\<close> hold the methods of
  \<^verbatim>\<open>internal/wallet/service.go\<close> and \<^verbatim>\<open>internal/wagertransaction/service.go\<close>. \<open>Wallet_Opening\<close>,
  \<open>Wager_Refinement\<close>, \<open>Wager_Handlers\<close> and \<open>Wager_Resolution\<close> show that each of them, under every
  schedule of failures, changes nothing or makes a change of the specification, and what it does
  exactly when nothing fails (\<open>verdict_of\<close>, \<open>carried_out\<close>, \<open>answered\<close>). \<open>Queries\<close>: the operations that
  only read, and the reconciliation.

  \<^item> \<open>Queue_Client\<close> (\<^verbatim>\<open>internal/infra/sqs\<close>) and \<open>Queue_Workers\<close> (\<^verbatim>\<open>internal/adapters/workers\<close>): the loops
  over a queue service that is a parameter. The locale \<open>polling\<close> is the contract of a loop that fetches
  and handles items; it is interpreted for each worker, for several invariants.

  \<^item> \<open>Http_Handlers\<close> (\<^verbatim>\<open>internal/adapters/handlers\<close>), \<open>Token_Auth\<close> (\<^verbatim>\<open>internal/adapters/middleware\<close> and
  the handler of \<^verbatim>\<open>cmd/api/main.go\<close>), \<open>Provider_Isolation\<close> (what a request can change and read).

  \<^item> \<open>Program\<close>: \<open>program_step\<close>, one run of any operation, request or worker in any environment, and
  \<open>reachable\<close>, the tables that such runs lead to. \<open>Scenario\<close> and \<open>Api_Scenario\<close>: concrete tables,
  requests and tokens, on which the theorems are applied. \<open>Api_Safety\<close>, \<open>Provider_Noninterference\<close>,
  \<open>Worker_Delivery\<close>, \<open>Outbox_Delivery\<close> and this theory: the properties of the whole program.

  \<^item> \<open>Stages\<close>, \<open>Overlap\<close>, \<open>Overlap_Safety\<close>, \<open>Overlap_Races\<close>, \<open>Overlap_Answers\<close>: requests that overlap.
  \<open>ProcessTransaction\<close> is cut where it
  gives others the chance to run: the checks on the pool and the construction of the transaction
  (\<open>accept\<close>), the check of a reference (\<open>check_reference\<close>, \<open>check_win\<close>), the booking (\<open>book_checked\<close>,
  \<open>dispatch\<close>). \<open>overlap_step\<close> lets any number of requests be under way, each between two parts, while
  others, the workers and the other operations run. A part is one step: its transaction locks the wallet's row first,
  its insertions wait for uncommitted entries of the indexes, and what the middle part reads of a
  processed reference never changes. \<open>db_step\<close> and \<open>db_inv\<close> take a flag \<open>sep\<close>; the uniqueness of
  external identifiers is claimed only under it, for requests that do not overlap.

  \<^item> \<open>Configuration\<close> (\<^verbatim>\<open>internal/infra/cfg\<close>, \<^verbatim>\<open>internal/infra/db/db.go\<close>, \<^verbatim>\<open>sqs.New\<close>), \<open>Queue_Setup\<close>
  (\<^verbatim>\<open>cmd/sqs-init\<close>): how the processes are configured, and the program that creates the queues.

  \<^bold>\<open>Parameters and assumptions.\<close> An \<open>env\<close> has the clocks, the identifiers that the server
  generates, the reading of a text as a UUID, the digest, the time zone and the failures; \<open>env_ok\<close> says
  that canonical identifiers are read as they are and that generated ones are canonical. \<open>calm\<close> adds that nothing
  fails and that generated identifiers are not in use. \<open>aws\<close> says what the queue service returns, \<open>oidc\<close>
  what the key server and the JWT library return; \<open>auth_ok\<close> is an invariant of the cache of keys.
  Safety properties hold for every environment; properties of the result of a run that assume
  \<open>calm\<close> say so.

  \<^bold>\<open>Bounds.\<close> A polling loop has the number of its rounds as fuel, and \<open>workers_stop\<close> shows that a loop
  whose context ends needs no more rounds than the calls it makes. \<open>reconcile_fuel\<close> is 2 because the
  second page of a ledger can never be read (\<open>cursor_page_fails\<close>). The readers of texts (JSON, fields,
  trimming) have the length of the text as fuel, which every step shortens. Amounts and versions are
  words of 64 bits; their overflow is part of the theorems.

  \<^bold>\<open>Not modelled.\<close> Logging, tracing and the registration of metrics (the counters are part of the
  world, as the services increment them); the wiring by \<^verbatim>\<open>fx\<close>, the router \<^verbatim>\<open>chi\<close>, the limits of
  \<^verbatim>\<open>net/http\<close>; the shutdown of the worker process and its time limit; the code of \<^verbatim>\<open>pgx\<close>, the AWS
  SDK and the JWT library, which is not in the repository and is a parameter; the generated
  documentation and the helpers of the end-to-end tests. The mutex of a \<^verbatim>\<open>Wallet\<close> is left out, since
  no code shares one. Two requests that refresh the cache of keys at the same time are not modelled.
\<close>

section \<open>Safety of every execution\<close>

text \<open>
  In every state the program can reach, under any failures, the ledger of each wallet is a
  chain: it starts at 0, each entry starts where the one before it ended and moves by exactly
  its amount, and it ends at the wallet's stored balance, which is never negative.
\<close>

theorem ledger_always_balances:
  assumes "reachable u d" and "wr \<in> set (db_wallets d)"
  shows "0 \<le> sint (wr_balance wr) \<and> chained 0 (ledger_of (wr_id wr) d) \<and>
    sint (wr_balance wr) = ledger_sum (ledger_of (wr_id wr) d)"
  by (rule ledger_chain [OF reachable_inv [OF assms(1)] assms(2)])

theorem ledger_always_balances_witness:
  "reachable sample_uuid wallet_db \<and> sample_wallet_row \<in> set (db_wallets wallet_db) \<and>
   ledger_sum (ledger_of ''i'' wallet_db) = 10000"
  using ledger_always_balances [OF wallet_db_reachable, of sample_wallet_row] wallet_db_reachable
  by (simp add: wallet_db_wallets) (simp add: sample_wallet_row_def)

text \<open>
  Money moves exactly once per transaction: in every reachable state a transaction has a
  ledger entry if and only if it is processed and not a \<^verbatim>\<open>LOSS\<close>, it has only one, and the entry
  is on its wallet, of its amount and in the direction of its kind (for a reversal, of the
  processed transaction of the same wallet, provider and amount that it reverses).
\<close>

theorem booked_exactly_once:
  assumes "reachable u d" and "r \<in> set (db_txs d)"
  shows "(tr_status r = PROCESSED \<and> tr_transaction_type r \<noteq> LOSS \<longleftrightarrow>
      (\<exists>l \<in> set (db_ledger d). lr_transaction_id l = tr_id r)) \<and>
    (\<forall>l \<in> set (db_ledger d). lr_transaction_id l = tr_id r \<longrightarrow> booked d r l) \<and>
    length (filter (\<lambda>l. lr_transaction_id l = tr_id r) (db_ledger d)) \<le> 1"
  by (rule booked_once [OF reachable_inv [OF assms(1)] assms(2)])

theorem booked_exactly_once_witness:
  "reachable sample_uuid wallet_db \<and> hd (db_txs wallet_db) \<in> set (db_txs wallet_db) \<and>
   booked wallet_db (hd (db_txs wallet_db)) (hd (db_ledger wallet_db)) \<and>
   length (filter (\<lambda>l. lr_transaction_id l = ''ii'') (db_ledger wallet_db)) = 1"
proof -
  have tx: "map tr_id (db_txs wallet_db) = [''ii'']"
    using arg_cong [OF wallet_db_txs, of "map fst"] by (simp add: comp_def)
  then obtain r where r: "db_txs wallet_db = [r]" "tr_id r = ''ii''" by auto
  then have l: "map lr_transaction_id (db_ledger wallet_db) = [''ii'']" by code_simp
  then obtain l where "db_ledger wallet_db = [l]" "lr_transaction_id l = ''ii''" by auto
  then show ?thesis
    using booked_exactly_once [OF wallet_db_reachable, of r] r wallet_db_reachable by simp
qed

text \<open>
  No transaction is reversed twice: in every reachable state at most one processed
  \<^verbatim>\<open>REFUND\<close> or \<^verbatim>\<open>ROLLBACK\<close> refers to a given transaction.
\<close>

theorem no_double_reversal:
  assumes "reachable u d" and "r \<in> set (db_txs d)" "r' \<in> set (db_txs d)"
    and "reversal_of r = Some i" "reversal_of r' = Some i"
  shows "r = r'"
  by (rule reversed_once [OF reachable_inv [OF assms(1)] assms(2-5)])

theorem no_double_reversal_witness:
  "reachable sample_uuid rollback_db \<and> reversal_of (db_txs rollback_db ! 2) = Some ''iiiiii'' \<and>
   last (db_txs rollback_db) = db_txs rollback_db ! 2"
proof -
  obtain r0 r1 r2 where r: "db_txs rollback_db = [r0, r1, r2]" "reversal_of r2 = Some ''iiiiii''"
    using rollback_db_summary by (auto simp: summary_def)
  have "last (db_txs rollback_db) = db_txs rollback_db ! 2"
    by (rule no_double_reversal [OF rollback_db_reachable, where i = "''iiiiii''"]) (simp_all add: r)
  then show ?thesis using rollback_db_reachable by (simp add: r)
qed

text \<open>
  C17: a request is stored at most once when requests do not overlap: in every reachable state no
  two transactions of a provider have the same idempotency key, and no two have the same external
  identifier (the latter without the help of an index, see \<open>external_id_race\<close>).
\<close>

theorem requests_stored_once:
  assumes "reachable u d" and "r \<in> set (db_txs d)" "r' \<in> set (db_txs d)"
    and "tr_provider r = Some p" "tr_provider r' = Some p"
    and "tr_idempotency_key r = Some k \<and> tr_idempotency_key r' = Some k \<or> tr_external_id r = Some k \<and> tr_external_id r' = Some k"
  shows "r = r'"
proof -
  have k: "keys_inv d" "external_inv d" using reachable_inv [OF assms(1)] by (simp_all add: db_inv_def)
  then show ?thesis
    using k(2) unique_rows [OF k(1) _ assms(2,3), of idempotency_of] unique_rows [OF k(1) _ assms(2,3), of external_of] assms(4-)
    by (auto simp: keys_inv_def external_inv_def idempotency_of_def external_of_def)
qed

theorem requests_stored_once_witness:
  "reachable sample_uuid rollback_db \<and> tr_provider (db_txs rollback_db ! 1) = Some ''prov'' \<and>
   tr_external_id (db_txs rollback_db ! 1) = Some ''x1'' \<and> hd (tl (db_txs rollback_db)) = db_txs rollback_db ! 1"
proof -
  obtain r0 r1 r2 where r: "db_txs rollback_db = [r0, r1, r2]" "external_of r1 = Some (''prov'', ''x1'')"
    using rollback_db_summary by (auto simp: summary_def)
  then have f: "tr_provider r1 = Some ''prov''" "tr_external_id r1 = Some ''x1''"
    by (simp_all add: external_of_def split: option.splits)
  have "hd (tl (db_txs rollback_db)) = db_txs rollback_db ! 1"
    by (rule requests_stored_once [OF rollback_db_reachable, where p = "''prov''" and k = "''x1''"]) (simp_all add: r f)
  then show ?thesis using rollback_db_reachable by (simp add: r f)
qed

text \<open>
  C22: every transaction in a reachable state is announced: the outbox holds the event that
  reports its status (the transactional outbox loses nothing).
\<close>

theorem every_transaction_announced:
  assumes "reachable u d" and "r \<in> set (db_txs d)"
  shows "announced (status_event (tr_status r)) r (db_outbox d)"
  using reachable_inv [OF assms(1)] reachable_nothing_pending [OF assms(1)] assms(2)
  unfolding db_inv_def outbox_inv_def nothing_pending_def by fastforce

theorem every_transaction_announced_witness:
  "reachable sample_uuid rollback_db \<and> tr_status (last (db_txs rollback_db)) = PROCESSED \<and>
   announced ''WagerTransactionProcessed'' (last (db_txs rollback_db)) (db_outbox rollback_db)"
proof -
  obtain r0 r1 r2 where r: "db_txs rollback_db = [r0, r1, r2]" "tr_status r2 = PROCESSED"
    using rollback_db_summary by (auto simp: summary_def)
  then show ?thesis
    using every_transaction_announced [OF rollback_db_reachable, of r2] rollback_db_reachable
    by (simp add: status_event_def)
qed

text \<open>
  C25: history is immutable: whatever the program does from a reachable state, the ledger only
  grows at its end, no wallet and no transaction is lost, and a transaction that is processed,
  rejected or failed stays exactly as it is.
\<close>

theorem history_immutable:
  assumes "reachable u d" and "(program_step u)\<^sup>*\<^sup>* d d'"
  shows "prefix (db_ledger d) (db_ledger d') \<and>
    set (map wr_id (db_wallets d)) \<subseteq> set (map wr_id (db_wallets d')) \<and>
    set (map tr_id (db_txs d)) \<subseteq> set (map tr_id (db_txs d')) \<and>
    (\<forall>r \<in> set (db_txs d). terminal_status (tr_status r) \<longrightarrow> r \<in> set (db_txs d'))"
  using reachable_history [OF assms(2,1)] by (simp add: history_kept_def)

theorem history_immutable_witness:
  "reachable sample_uuid bet_db \<and> program_step sample_uuid bet_db rollback_db \<and>
   prefix (db_ledger bet_db) (db_ledger rollback_db)"
proof -
  have "program_step sample_uuid bet_db rollback_db"
    unfolding rollback_db_def by (rule program_step.process_transaction) (simp_all add: sample_env_ok sample_env_uuid)
  then show ?thesis using history_immutable [OF bet_db_reachable, of rollback_db] bet_db_reachable by blast
qed

section \<open>The services\<close>

text \<open>
  C5: \<^verbatim>\<open>ProcessTransaction\<close> is atomic under every schedule of failures (errors of any statement,
  before or after it took effect, lost commits, aborted transactions): it leaves the tables as
  they were or makes exactly one of the changes that the specification \<open>db_step\<close> allows.
\<close>

theorem ProcessTransaction_atomic:
  assumes "env_ok E" and "reachable (env_uuid E) d"
  shows "after (ProcessTransaction E req key messageID) d = d \<or>
    db_step True (canonical E) d (after (ProcessTransaction E req key messageID) d)"
  using ProcessTransaction_run(1) [OF assms(1) reachable_inv [OF assms(2)]] .

theorem ProcessTransaction_atomic_witness:
  "env_ok sample_env \<and> (bet_db = wallet_db \<or> db_step True (canonical sample_env) wallet_db bet_db)"
  using ProcessTransaction_atomic [OF sample_env_ok sample_wallet_reachable] sample_env_ok
  unfolding bet_db_def by blast





text \<open>
  C19: a bet that the wallet can pay for: the answer is \<^verbatim>\<open>PROCESSED\<close> with the reduced balance, the
  stored balance is reduced by exactly the stake, and one transaction and one debit of the
  stake are added.
\<close>

theorem bet_settled:
  assumes "env_ok E" and "calm E" and "reachable (env_uuid E) d" and "fresh_request E d req key BET m wr"
    and "cents m \<le> sint (wr_balance wr)"
  shows "\<exists>r l b s. answer (ProcessTransaction E req key messageID) d = Inr (processed_result r b) \<and>
    cents b = sint (wr_balance wr) - cents m \<and>
    db_wallets (after (ProcessTransaction E req key messageID) d) =
      replace_id wr_id (wr_id wr) (with_balance wr (money_amount b) s) (db_wallets d) \<and>
    db_txs (after (ProcessTransaction E req key messageID) d) = db_txs d @ [r] \<and> tr_status r = PROCESSED \<and>
    db_ledger (after (ProcessTransaction E req key messageID) d) = db_ledger d @ [l] \<and>
    lr_transaction_id l = tr_id r \<and> lr_direction l = DEBIT \<and> lr_amount l = money_amount m"
  using bet_run(1) [OF assms(1,2) reachable_inv [OF assms(3)] assms(4,5)] unfolding bet_booked_def .

theorem bet_settled_witness:
  "fresh_request sample_env wallet_db (sample_request ''BET'' ''x1'' ''25.00'' '''') '''' BET
     \<lparr>money_amount = 2500, money_currency = BRL\<rparr> sample_wallet_row \<and>
   (\<exists>r b. answer (ProcessTransaction sample_env (sample_request ''BET'' ''x1'' ''25.00'' '''') '''' '''') wallet_db =
      Inr (processed_result r b) \<and> cents b = 7500)"
proof -
  have le: "cents \<lparr>money_amount = 2500, money_currency = BRL\<rparr> \<le> sint (wr_balance sample_wallet_row)"
    by (simp add: cents_def sample_wallet_row_def)
  note fr = sample_bet_fresh
  have n: "sint (wr_balance sample_wallet_row) - cents \<lparr>money_amount = 2500, money_currency = BRL\<rparr> = 7500"
    by (simp add: cents_def sample_wallet_row_def)
  from bet_settled [OF sample_env_ok sample_env_calm sample_wallet_reachable fr le, of "''''", unfolded n]
  show ?thesis using fr by blast
qed

text \<open>
  C20: a bet that the wallet cannot pay for: no balance and no ledger entry changes, the bet is
  stored as \<^verbatim>\<open>REJECTED\<close> with the code \<^verbatim>\<open>INSUFFICIENT_BALANCE\<close>, and the caller gets the error of
  that name.
\<close>

theorem bet_refused:
  assumes "env_ok E" and "calm E" and "reachable (env_uuid E) d" and "fresh_request E d req key BET m wr"
    and "sint (wr_balance wr) < cents m"
  shows "\<exists>r err. answer (ProcessTransaction E req key messageID) d = Inl err \<and>
    errors_is err (WagerErr Wager_ErrInsufficientBalance) \<and>
    db_wallets (after (ProcessTransaction E req key messageID) d) = db_wallets d \<and>
    db_ledger (after (ProcessTransaction E req key messageID) d) = db_ledger d \<and>
    db_txs (after (ProcessTransaction E req key messageID) d) = db_txs d @ [r] \<and>
    tr_status r = REJECTED \<and> tr_failure_code r = Some ''INSUFFICIENT_BALANCE''"
  using bet_run(2) [OF assms(1,2) reachable_inv [OF assms(3)] assms(4,5), of messageID]
  by (auto simp: bet_denied_def wallet_failure_def)

theorem bet_refused_witness:
  "fresh_request sample_env wallet_db (sample_request ''BET'' ''x1'' ''200.00'' '''') '''' BET
     \<lparr>money_amount = 20000, money_currency = BRL\<rparr> sample_wallet_row \<and>
   db_wallets (after (ProcessTransaction sample_env (sample_request ''BET'' ''x1'' ''200.00'' '''') '''' '''') wallet_db) =
     [sample_wallet_row]"
proof -
  have m: "ParseMoney ''200.00'' BRL = Inr \<lparr>money_amount = 20000, money_currency = BRL\<rparr>" by code_simp
  have less: "sint (wr_balance sample_wallet_row) < cents \<lparr>money_amount = 20000, money_currency = BRL\<rparr>"
    by (simp add: cents_def sample_wallet_row_def)
  have fr: "fresh_request sample_env wallet_db (sample_request ''BET'' ''x1'' ''200.00'' '''') '''' BET
     \<lparr>money_amount = 20000, money_currency = BRL\<rparr> sample_wallet_row"
    by (rule wallet_db_fresh [OF m]) (simp add: cents_def)
  from bet_refused [OF sample_env_ok sample_env_calm sample_wallet_reachable fr less, of "''''"]
  show ?thesis using fr by (auto simp: wallet_db_wallets)
qed

text \<open>
  C7: requests are idempotent: running a new request a second time, under the same key, changes
  nothing and answers with the identifier and the status of the first run, marked as a replay,
  and with the same balance when the transaction was processed.
\<close>

theorem replay_idempotent:
  assumes "env_ok E" and "env_ok E'" and "calm E" and "calm E'" and "env_uuid E' = env_uuid E" and "env_sha256 E' = env_sha256 E"
    and "reachable (env_uuid E) d" and "fresh_request E d req key kind m wr"
    and "answer (ProcessTransaction E req key messageID) d = Inr res"
  shows "after (ProcessTransaction E' req key messageID') (after (ProcessTransaction E req key messageID) d) =
      after (ProcessTransaction E req key messageID) d \<and>
    (\<exists>b. answer (ProcessTransaction E' req key messageID') (after (ProcessTransaction E req key messageID) d) =
        Inr \<lparr>pr_TransactionID = pr_TransactionID res, pr_Status = pr_Status res, pr_Balance = b, pr_IdempotentReplay = True\<rparr> \<and>
      (pr_Status res = ''PROCESSED'' \<longrightarrow> b = pr_Balance res))"
  using replay_run [OF assms(1-6) reachable_inv [OF assms(7)] assms(8) refl refl, of messageID messageID'] assms(9)
  by (auto simp: reports_def)

theorem replay_idempotent_witness:
  "\<exists>res. answer (ProcessTransaction sample_env (sample_request ''BET'' ''x1'' ''25.00'' '''') '''' '''') wallet_db = Inr res \<and>
   after (ProcessTransaction sample_env (sample_request ''BET'' ''x1'' ''25.00'' '''') '''' '''') bet_db = bet_db \<and>
   answer (ProcessTransaction sample_env (sample_request ''BET'' ''x1'' ''25.00'' '''') '''' '''') bet_db =
     Inr (res\<lparr>pr_IdempotentReplay := True\<rparr>)"
proof -
  note fr = sample_bet_fresh
  obtain r b where x: "answer (ProcessTransaction sample_env (sample_request ''BET'' ''x1'' ''25.00'' '''') '''' '''') wallet_db =
      Inr (processed_result r b)"
    using sample_bet_answer by blast
  show ?thesis
    using replay_idempotent [OF sample_env_ok sample_env_ok sample_env_calm sample_env_calm refl refl sample_wallet_reachable fr x,
        of "''''"] x
    unfolding bet_db_def [symmetric] by (auto simp: processed_result_def)
qed

text \<open>
  C21: a key is bound to its payload: when a provider reuses a key for a request whose payload
  hash differs from the stored one, the request is refused with \<^verbatim>\<open>ErrPayloadConflict\<close> and
  nothing changes.
\<close>

theorem payload_conflict:
  assumes "env_ok E" and "calm E" and "reachable (env_uuid E) d"
    and "key_row d (rq_ProviderID req) (effective_key key req) = Some r"
    and "tr_payload_hash r = Some h" and "h \<noteq> ''''" and "h \<noteq> request_hash E req"
  shows "answer (ProcessTransaction E req key messageID) d = Inl (wager_err Wager_ErrPayloadConflict) \<and>
    after (ProcessTransaction E req key messageID) d = d"
  using ProcessTransaction_run(2) [OF assms(1) reachable_inv [OF assms(3)] assms(2), of req key messageID] assms(4-)
  by (simp add: answered_def coalesce_def)

theorem payload_conflict_witness:
  "reachable sample_uuid bet_db \<and>
   answer (ProcessTransaction sample_env (sample_request ''BET'' ''x1'' ''30.00'' '''') '''' '''') bet_db =
     Inl (wager_err Wager_ErrPayloadConflict)"
proof -
  obtain r where r: "key_row bet_db ''prov'' ''prov:x1'' = Some r"
      "tr_payload_hash r = nullString (request_hash sample_env (sample_request ''BET'' ''x1'' ''25.00'' ''''))"
    using bet_db_key by blast
  have h: "request_hash sample_env (sample_request ''BET'' ''x1'' ''25.00'' '''') \<noteq> '''' \<and>
      request_hash sample_env (sample_request ''BET'' ''x1'' ''25.00'' '''') \<noteq>
      request_hash sample_env (sample_request ''BET'' ''x1'' ''30.00'' '''')"
    by code_simp
  have k: "key_row bet_db (rq_ProviderID (sample_request ''BET'' ''x1'' ''30.00'' ''''))
      (effective_key '''' (sample_request ''BET'' ''x1'' ''30.00'' '''')) = Some r"
    using r(1) by (simp add: sample_request_def effective_key_def)
  have "reachable (env_uuid sample_env) bet_db" using bet_db_reachable by (simp add: sample_env_uuid)
  from payload_conflict [OF sample_env_ok sample_env_calm this k] r(2) h
  show ?thesis using bet_db_reachable by (simp add: nullString_def)
qed

text \<open>A run of the reconciliation, and what the invariant says of a consistent report.\<close>

lemma reconcile_run:
  shows "after (Reconcile E i) d = d" and "case answer (Reconcile E i) d of
      Inl e \<Rightarrow> blamed E (\<not> reconcilable E i d)
    | Inr res \<Rightarrow> \<exists>r wr. res = Some r \<and> wallet_at E d i wr \<and> reconciled i wr d r \<and>
        (calm E \<longrightarrow> rr_CheckedEntries r = int (length (ledger_of (wr_id wr) d)) \<and> rr_CheckedEntries r \<le> 1000)"
proof -
  have "wp (Reconcile E i) (\<lambda>x w'. w_db w' = d \<and> (case x of
      Inl e \<Rightarrow> blamed E (\<not> reconcilable E i d)
    | Inr res \<Rightarrow> \<exists>r wr. res = Some r \<and> wallet_at E d i wr \<and> reconciled i wr d r \<and>
        (calm E \<longrightarrow> rr_CheckedEntries r = int (length (ledger_of (wr_id wr) d)) \<and> rr_CheckedEntries r \<le> 1000))) (init_world d)"
    by (rule wp_Reconcile) (auto simp: quiet_def)
  then show "after (Reconcile E i) d = d" and "case answer (Reconcile E i) d of
      Inl e \<Rightarrow> blamed E (\<not> reconcilable E i d)
    | Inr res \<Rightarrow> \<exists>r wr. res = Some r \<and> wallet_at E d i wr \<and> reconciled i wr d r \<and>
        (calm E \<longrightarrow> rr_CheckedEntries r = int (length (ledger_of (wr_id wr) d)) \<and> rr_CheckedEntries r \<le> 1000)"
    by (simp_all add: wp_run after_def answer_def)
qed

lemma reconciled_consistent:
  assumes "db_inv sep U d" and "wallet_at E d i wr" and "reconciled i wr d r"
  shows "rr_StoredBalance r = \<lparr>money_amount = wr_balance wr, money_currency = BRL\<rparr> \<and>
    rr_CalculatedBalance r = rr_StoredBalance r \<and> rr_Consistent r"
proof -
  have bal: "sint (wr_balance wr) = ledger_sum (ledger_of (wr_id wr) d)"
    using ledger_chain [OF assms(1) wallet_at_mem [OF assms(2)]] by simp
  then have "sint (money_amount (rr_CalculatedBalance r)) = sint (wr_balance wr)"
    using assms(3) by (simp add: reconciled_def cents_def)
  then have "money_amount (rr_CalculatedBalance r) = wr_balance wr" by (rule signed_word_eqI)
  then show ?thesis using assms(3) bal by (cases "rr_CalculatedBalance r") (simp add: reconciled_def)
qed

text \<open>
  C24: reconciliation never raises a false alarm: from a reachable state, under any failures, a
  reconciliation that answers finds the ledger sum equal to the stored balance of the wallet it
  was asked about, and changes nothing. When nothing fails and the entries are readable it answers
  for every wallet of at most 1000 entries, with their number, and for no wallet of more.
\<close>

theorem reconcile_sound:
  assumes "reachable u d" and "env_uuid E = u"
  shows "after (Reconcile E i) d = d \<and>
    (\<forall>res. answer (Reconcile E i) d = Inr res \<longrightarrow> (\<exists>r wr. res = Some r \<and> wallet_at E d i wr \<and>
       rr_StoredBalance r = \<lparr>money_amount = wr_balance wr, money_currency = BRL\<rparr> \<and>
       rr_CalculatedBalance r = rr_StoredBalance r \<and> rr_Consistent r)) \<and>
    (\<forall>wr. calm E \<and> i \<noteq> '''' \<and> wallet_at E d i wr \<and> readable_ledger (ledger_of (wr_id wr) d) \<longrightarrow>
       (if length (ledger_of (wr_id wr) d) \<le> 1000
        then \<exists>r. answer (Reconcile E i) d = Inr (Some r) \<and> rr_CheckedEntries r = int (length (ledger_of (wr_id wr) d))
        else isl (answer (Reconcile E i) d)))"
proof -
  have inv: "db_inv True (\<lambda>s. u s = Some s) d" by (rule reachable_inv [OF assms(1)])
  have can: "reconcilable E i d" if "wallet_at E d i wr" "i \<noteq> ''''" "readable_ledger (ledger_of (wr_id wr) d)"
      "length (ledger_of (wr_id wr) d) \<le> 1000" for wr
    using that ledger_chain [OF inv wallet_at_mem [OF that(1)], THEN conjunct2, THEN conjunct2, symmetric]
    by (auto simp: reconcilable_def intro!: exI [of _ wr])
  show ?thesis
  proof (cases "answer (Reconcile E i) d")
    case (Inl e)
    then show ?thesis using reconcile_run [of E i d] can by (auto simp: blamed_def)
  next
    case (Inr res)
    then obtain r wr where r: "res = Some r" "wallet_at E d i wr" "reconciled i wr d r"
        "calm E \<longrightarrow> rr_CheckedEntries r = int (length (ledger_of (wr_id wr) d)) \<and> rr_CheckedEntries r \<le> 1000"
      using reconcile_run(2) [of E i d] by auto
    have "\<forall>wr. calm E \<and> i \<noteq> '''' \<and> wallet_at E d i wr \<and> readable_ledger (ledger_of (wr_id wr) d) \<longrightarrow>
        length (ledger_of (wr_id wr) d) \<le> 1000 \<and> rr_CheckedEntries r = int (length (ledger_of (wr_id wr) d))"
      using r(4) wallet_at_unique [OF _ r(2)] by auto
    then show ?thesis using reconcile_run(1) Inr r(1,2) reconciled_consistent [OF inv r(2,3)] by auto
  qed
qed

theorem reconcile_sound_witness:
  "\<exists>r. answer (Reconcile sample_env ''i'') wallet_db = Inr (Some r) \<and> rr_Consistent r \<and> rr_CheckedEntries r = 1"
proof -
  have l: "readable_ledger (ledger_of ''i'' wallet_db)" "length (ledger_of ''i'' wallet_db) = 1" by code_simp+
  have "wr_id sample_wallet_row = ''i''" by (simp add: sample_wallet_row_def)
  then obtain r where r: "answer (Reconcile sample_env ''i'') wallet_db = Inr (Some r)" "rr_CheckedEntries r = 1"
    using reconcile_sound [OF wallet_db_reachable sample_env_uuid, of "''i''", THEN conjunct2, THEN conjunct2, THEN spec,
        of sample_wallet_row] sample_env_calm wallet_db_at l by auto
  then show ?thesis using reconcile_sound [OF wallet_db_reachable sample_env_uuid, of "''i''"] by auto
qed

text \<open>
  C23: nothing ever waits: in every reachable state each transaction is processed or rejected, so
  no request is parked behind an unfinished reference and the reference worker finds no work.
\<close>

theorem nothing_ever_waits:
  assumes "reachable u d" and "r \<in> set (db_txs d)"
  shows "tr_status r = PROCESSED \<or> tr_status r = REJECTED"
  using reachable_nothing_pending [OF assms(1)] assms(2) by (simp add: nothing_pending_def)

theorem nothing_ever_waits_witness:
  "reachable sample_uuid wallet_db \<and> tr_status (hd (db_txs wallet_db)) \<noteq> PENDING_REFERENCE"
proof -
  have "db_txs wallet_db \<noteq> []" using wallet_db_txs by auto
  then have "hd (db_txs wallet_db) \<in> set (db_txs wallet_db)" by simp
  from nothing_ever_waits [OF wallet_db_reachable this] show ?thesis using wallet_db_reachable by auto
qed

end
